theory Spec2Isabelle
  imports Complex_Main "HOL-Library.Log_Nat"
begin

section \<open>The arithmetic of C's double\<close>

text \<open>
  Every quantity of \<^verbatim>\<open>sunrise_sunset.c\<close> is a C \<^verbatim>\<open>double\<close>. A double is modelled
  as an IEEE 754 binary64 datum: a finite value (given by the real number it denotes), one
  of the two infinities, or NaN. Each arithmetic operation computes the exact real result
  and rounds it once to the nearest binary64 value, ties to even (the default rounding
  mode; no excess precision, no fused multiply-add). The two zeros are identified: C's
  comparison operators do not tell them apart, and the functions below never inspect the
  sign of a zero except through a division by zero, where the quotient is taken as for a
  positive zero.
\<close>

datatype double = Fin real | PInf | NInf | NaN

definition pow2 :: "int \<Rightarrow> real" where
  "pow2 e = (if 0 \<le> e then 2 ^ nat e else 1 / 2 ^ nat (- e))"

text \<open>Rounding a real to the nearest integer, a tie going to the even neighbour.\<close>

definition round_half_even :: "real \<Rightarrow> int" where
  "round_half_even y =
     (let f = \<lfloor>y\<rfloor>; r = y - of_int f
      in if r < 1 / 2 then f
         else if 1 / 2 < r then f + 1
         else if even f then f else f + 1)"

text \<open>
  The binary exponent \<open>e\<close> of the binade of \<open>x\<close>: \<open>2^e \<le> |x| < 2^(e+1)\<close>, and \<open>- 1022\<close>
  for zero and the subnormal range. (\<open>bitlen n\<close> is the number of binary digits of \<open>n\<close>.)
\<close>

definition binade :: "real \<Rightarrow> int" where
  "binade x = max (bitlen \<lfloor>\<bar>x\<bar> * 2 ^ 1074\<rfloor> - 1075) (- 1022)"

text \<open>
  Rounding to binary64: the significand has 53 bits, so the spacing of the doubles in the
  binade \<open>e\<close> is \<open>2^(e - 52)\<close>, and \<open>nearest x\<close> is the multiple of that spacing nearest
  to \<open>x\<close>; a result of magnitude \<open>2^1024\<close> or more overflows to an infinity.
\<close>

definition nearest :: "real \<Rightarrow> real" where
  "nearest x = of_int (round_half_even (x / pow2 (binade x - 52))) * pow2 (binade x - 52)"

definition round_double :: "real \<Rightarrow> double" where
  "round_double x =
     (let r = nearest x
      in if 2 ^ 1024 \<le> \<bar>r\<bar> then (if x < 0 then NInf else PInf) else Fin r)"

text \<open>A decimal constant of the source, and the conversion of an integer to double.\<close>

definition lit :: "real \<Rightarrow> double" where
  "lit c = round_double c"

definition int_to_double :: "int \<Rightarrow> double" where
  "int_to_double i = round_double (of_int i)"

fun dneg :: "double \<Rightarrow> double" where
  "dneg (Fin a) = Fin (- a)"
| "dneg PInf = NInf"
| "dneg NInf = PInf"
| "dneg NaN = NaN"

fun dadd :: "double \<Rightarrow> double \<Rightarrow> double" where
  "dadd NaN y = NaN"
| "dadd x NaN = NaN"
| "dadd (Fin a) (Fin b) = round_double (a + b)"
| "dadd PInf NInf = NaN"
| "dadd NInf PInf = NaN"
| "dadd PInf y = PInf"
| "dadd x PInf = PInf"
| "dadd NInf y = NInf"
| "dadd x NInf = NInf"

fun dmul :: "double \<Rightarrow> double \<Rightarrow> double" where
  "dmul NaN y = NaN"
| "dmul x NaN = NaN"
| "dmul (Fin a) (Fin b) = round_double (a * b)"
| "dmul (Fin a) y = (if a = 0 then NaN else if 0 < a then y else dneg y)"
| "dmul x (Fin b) = (if b = 0 then NaN else if 0 < b then x else dneg x)"
| "dmul PInf y = y"
| "dmul NInf y = dneg y"

fun ddiv :: "double \<Rightarrow> double \<Rightarrow> double" where
  "ddiv NaN y = NaN"
| "ddiv x NaN = NaN"
| "ddiv (Fin a) (Fin b) =
     (if b = 0 then (if a = 0 then NaN else if 0 < a then PInf else NInf)
      else round_double (a / b))"
| "ddiv (Fin a) y = Fin 0"
| "ddiv x (Fin b) = (if b < 0 then dneg x else x)"
| "ddiv x y = NaN"

text \<open>The comparisons of C: every comparison with a NaN is false.\<close>

fun dless :: "double \<Rightarrow> double \<Rightarrow> bool" where
  "dless (Fin a) (Fin b) = (a < b)"
| "dless NInf (Fin b) = True"
| "dless NInf PInf = True"
| "dless (Fin a) PInf = True"
| "dless x y = False"

fun dle :: "double \<Rightarrow> double \<Rightarrow> bool" where
  "dle (Fin a) (Fin b) = (a \<le> b)"
| "dle NaN y = False"
| "dle x NaN = False"
| "dle NInf y = True"
| "dle x PInf = True"
| "dle x y = False"

instantiation double :: "{plus, minus, uminus, times, inverse, ord}"
begin

definition plus_double :: "double \<Rightarrow> double \<Rightarrow> double" where
  "plus_double x y = dadd x y"

definition uminus_double :: "double \<Rightarrow> double" where
  "uminus_double x = dneg x"

definition minus_double :: "double \<Rightarrow> double \<Rightarrow> double" where
  "minus_double x y = dadd x (dneg y)"

definition times_double :: "double \<Rightarrow> double \<Rightarrow> double" where
  "times_double x y = dmul x y"

definition divide_double :: "double \<Rightarrow> double \<Rightarrow> double" where
  "divide_double x y = ddiv x y"

definition inverse_double :: "double \<Rightarrow> double" where
  "inverse_double x = ddiv (Fin 1) x"

definition less_double :: "double \<Rightarrow> double \<Rightarrow> bool" where
  "less_double x y = dless x y"

definition less_eq_double :: "double \<Rightarrow> double \<Rightarrow> bool" where
  "less_eq_double x y = dle x y"

instance ..

end

text \<open>
  \<^verbatim>\<open>floor\<close> and \<^verbatim>\<open>trunc\<close> of \<^verbatim>\<open>math.h\<close> are exact: the result is a double again.
  Converting a double to an integer type truncates toward zero and is undefined for a NaN,
  an infinity and a value out of the type's range (\<open>None\<close>).
\<close>

definition trunc_real :: "real \<Rightarrow> int" where
  "trunc_real r = (if 0 \<le> r then \<lfloor>r\<rfloor> else \<lceil>r\<rceil>)"

fun c_floor :: "double \<Rightarrow> double" where
  "c_floor (Fin r) = Fin (of_int \<lfloor>r\<rfloor>)"
| "c_floor x = x"

fun c_trunc :: "double \<Rightarrow> double" where
  "c_trunc (Fin r) = Fin (of_int (trunc_real r))"
| "c_trunc x = x"

fun double_to_integer :: "nat \<Rightarrow> double \<Rightarrow> int option" where
  "double_to_integer w (Fin r) =
     (if - (2 ^ (w - 1)) \<le> trunc_real r \<and> trunc_real r < 2 ^ (w - 1)
      then Some (trunc_real r) else None)"
| "double_to_integer w x = None"

definition double_to_int :: "double \<Rightarrow> int option" where
  "double_to_int = double_to_integer 32"

definition double_to_long :: "double \<Rightarrow> int option" where
  "double_to_long = double_to_integer 64"

text \<open>
  The integer division of C truncates toward zero. The C integers are modelled by the
  mathematical integers: signed overflow is undefined in C and lies outside the model.
\<close>

definition c_div :: "int \<Rightarrow> int \<Rightarrow> int" where
  "c_div a b = sgn a * sgn b * (\<bar>a\<bar> div \<bar>b\<bar>)"

text \<open>
  The functions of \<^verbatim>\<open>math.h\<close> are not part of the repository and C does not fix their
  results to the last bit. They are a parameter: a \<open>libm\<close> gives, for each function, the
  real number that the library's result is the rounding of (for the correctly rounded
  library, the mathematical function itself). What C does fix is built in: a NaN argument
  gives NaN, the sine, cosine and tangent of an infinity are NaN, and \<^verbatim>\<open>asin\<close> and
  \<^verbatim>\<open>acos\<close> return NaN outside \<open>[-1, 1]\<close> (a domain error).
\<close>

record libm =
  m_sin :: "real \<Rightarrow> real"
  m_cos :: "real \<Rightarrow> real"
  m_tan :: "real \<Rightarrow> real"
  m_asin :: "real \<Rightarrow> real"
  m_acos :: "real \<Rightarrow> real"

definition libm_exact :: libm where
  "libm_exact = \<lparr>m_sin = sin, m_cos = cos, m_tan = tan, m_asin = arcsin, m_acos = arccos\<rparr>"

fun c_sin :: "libm \<Rightarrow> double \<Rightarrow> double" where
  "c_sin L (Fin r) = round_double (m_sin L r)"
| "c_sin L x = NaN"

fun c_cos :: "libm \<Rightarrow> double \<Rightarrow> double" where
  "c_cos L (Fin r) = round_double (m_cos L r)"
| "c_cos L x = NaN"

fun c_tan :: "libm \<Rightarrow> double \<Rightarrow> double" where
  "c_tan L (Fin r) = round_double (m_tan L r)"
| "c_tan L x = NaN"

fun c_asin :: "libm \<Rightarrow> double \<Rightarrow> double" where
  "c_asin L (Fin r) = (if - 1 \<le> r \<and> r \<le> 1 then round_double (m_asin L r) else NaN)"
| "c_asin L x = NaN"

fun c_acos :: "libm \<Rightarrow> double \<Rightarrow> double" where
  "c_acos L (Fin r) = (if - 1 \<le> r \<and> r \<le> 1 then round_double (m_acos L r) else NaN)"
| "c_acos L x = NaN"

section \<open>The macros of sunrise\_sunset.c\<close>

definition M_PI :: double where
  "M_PI = lit 3.14159265358979323846"

definition RADEG :: double where
  "RADEG = lit 180.0 / M_PI"

definition DEGRAD :: double where
  "DEGRAD = M_PI / lit 180.0"

definition MIN_PER_DEG :: double where
  "MIN_PER_DEG = lit 4.0"

definition MIN_PER_DAY :: double where
  "MIN_PER_DAY = lit 1440.0"

definition sind :: "libm \<Rightarrow> double \<Rightarrow> double" where
  "sind L x = c_sin L (x * DEGRAD)"

definition cosd :: "libm \<Rightarrow> double \<Rightarrow> double" where
  "cosd L x = c_cos L (x * DEGRAD)"

definition tand :: "libm \<Rightarrow> double \<Rightarrow> double" where
  "tand L x = c_tan L (x * DEGRAD)"

definition DEG2RAD :: "double \<Rightarrow> double" where
  "DEG2RAD x = x * DEGRAD"

definition RAD2DEG :: "double \<Rightarrow> double" where
  "RAD2DEG x = x * RADEG"

definition DEG2MIN :: "double \<Rightarrow> double" where
  "DEG2MIN x = x * MIN_PER_DEG"

definition DAYS_IN_CENTURY :: double where
  "DAYS_IN_CENTURY = lit 36525.0"

definition JAN_1_2000_JD :: double where
  "JAN_1_2000_JD = lit 2451545.0"

section \<open>Century time\<close>

definition JulianCenturyFromJulianDay :: "double \<Rightarrow> double" where
  "JulianCenturyFromJulianDay jd = (jd - JAN_1_2000_JD) / DAYS_IN_CENTURY"

definition JulianDayFromJulianCentury :: "double \<Rightarrow> double" where
  "JulianDayFromJulianCentury centuryTime = centuryTime * DAYS_IN_CENTURY + JAN_1_2000_JD"

section \<open>The solar ephemeris\<close>

definition MeanObliquityEcliptic :: "double \<Rightarrow> double" where
  "MeanObliquityEcliptic centuryTime =
     (let arcSeconds = lit 21.448 - centuryTime *
            (lit 46.8150 + centuryTime *
             (lit 0.00059 - centuryTime * lit 0.001813));
          degrees = lit 23.0 + (lit 26.0 + (arcSeconds / lit 60.0)) / lit 60.0
      in degrees)"

text \<open>
  The two loops of \<^verbatim>\<open>NormalizeDegrees\<close>. Nothing bounds the number of their iterations,
  so each is a partial function: \<open>None\<close> stands for a loop that never ends.
\<close>

partial_function (option) NormalizeDegrees_down :: "double \<Rightarrow> double option" where
  "NormalizeDegrees_down degrees =
     (if lit 360.0 < degrees then NormalizeDegrees_down (degrees - lit 360.0)
      else Some degrees)"

partial_function (option) NormalizeDegrees_up :: "double \<Rightarrow> double option" where
  "NormalizeDegrees_up degrees =
     (if degrees < lit 0.0 then NormalizeDegrees_up (degrees + lit 360.0)
      else Some degrees)"

definition NormalizeDegrees :: "double \<Rightarrow> double option" where
  "NormalizeDegrees degrees =
     (case NormalizeDegrees_down degrees of
        None \<Rightarrow> None
      | Some degrees' \<Rightarrow> NormalizeDegrees_up degrees')"

definition GeometricMeanLongitudeSun :: "double \<Rightarrow> double" where
  "GeometricMeanLongitudeSun centuryTime =
     lit 280.46646 + centuryTime * (lit 36000.76983 + centuryTime * lit 0.0003032)"

definition GeometricMeanAnomalySun :: "double \<Rightarrow> double" where
  "GeometricMeanAnomalySun centuryTime =
     lit 357.52911 + centuryTime * (lit 35999.05029 - centuryTime * lit 0.0001537)"

definition EccentricityEarth :: "double \<Rightarrow> double" where
  "EccentricityEarth centuryTime =
     lit 0.016708634 - centuryTime * (lit 0.000042037 + centuryTime * lit 0.0000001267)"

definition EquationOfCenterSunEx :: "libm \<Rightarrow> double \<Rightarrow> double \<Rightarrow> double" where
  "EquationOfCenterSunEx L centuryTime meanAnomalySun =
     (let mrad = DEG2RAD meanAnomalySun;
          sinm = c_sin L mrad;
          mrad = mrad + mrad;
          sin2m = c_sin L mrad;
          mrad = mrad + mrad;
          sin3m = c_sin L mrad;
          c = (lit 1.914602 - centuryTime * (lit 0.004817 + centuryTime * lit 0.000014)) * sinm +
              (lit 0.019993 - lit 0.000101 * centuryTime) * sin2m +
              lit 0.000289 * sin3m
      in c)"

definition EquationOfCenterSun :: "libm \<Rightarrow> double \<Rightarrow> double" where
  "EquationOfCenterSun L centuryTime =
     (let meanAnomalySun = GeometricMeanAnomalySun centuryTime
      in EquationOfCenterSunEx L centuryTime meanAnomalySun)"

definition TrueLongitudeSun :: "libm \<Rightarrow> double \<Rightarrow> double" where
  "TrueLongitudeSun L centuryTime =
     (let l0 = GeometricMeanLongitudeSun centuryTime;
          c = EquationOfCenterSun L centuryTime
      in l0 + c)"

definition Omega :: "double \<Rightarrow> double" where
  "Omega centuryTime = lit 125.04 - lit 1934.136 * centuryTime"

definition OmegaRad :: "double \<Rightarrow> double" where
  "OmegaRad centuryTime = DEG2RAD (Omega centuryTime)"

definition ApparentLongitudeSunEx :: "libm \<Rightarrow> double \<Rightarrow> double \<Rightarrow> double" where
  "ApparentLongitudeSunEx L centuryTime omegaRad =
     (let trueLongitude = TrueLongitudeSun L centuryTime
      in trueLongitude - lit 0.000569 - lit 0.00478 * c_sin L omegaRad)"

definition ObliquityCorrectionEx :: "libm \<Rightarrow> double \<Rightarrow> double \<Rightarrow> double" where
  "ObliquityCorrectionEx L centuryTime omegaRad =
     (let moe = MeanObliquityEcliptic centuryTime
      in moe + lit 0.00256 * c_cos L omegaRad)"

definition ObliquityCorrection :: "libm \<Rightarrow> double \<Rightarrow> double" where
  "ObliquityCorrection L centuryTime =
     ObliquityCorrectionEx L centuryTime (OmegaRad centuryTime)"

definition SunDeclinationRad :: "libm \<Rightarrow> double \<Rightarrow> double" where
  "SunDeclinationRad L centuryTime =
     (let omegaRad = OmegaRad centuryTime;
          oc = ObliquityCorrectionEx L centuryTime omegaRad;
          al = ApparentLongitudeSunEx L centuryTime omegaRad
      in c_asin L (sind L oc * sind L al))"

definition EquationOfTime :: "libm \<Rightarrow> double \<Rightarrow> double" where
  "EquationOfTime L centuryTime =
     (let epsilon = ObliquityCorrection L centuryTime;
          y = tand L (epsilon / lit 2.0);
          y = y * y;
          l0 = GeometricMeanLongitudeSun centuryTime;
          e = EccentricityEarth centuryTime;
          m = GeometricMeanAnomalySun centuryTime;
          l0 = DEG2RAD l0;
          l0x2 = l0 + l0;
          l0x4 = l0x2 + l0x2;
          m = DEG2RAD m;
          sinm = c_sin L m;
          mx2 = m + m;
          ex2 = e + e;
          eRad = y * c_sin L l0x2 - ex2 * sinm +
                 int_to_double 2 * ex2 * y * sinm * c_cos L l0x2 -
                 lit 0.5 * y * y * c_sin L l0x4 - lit 1.25 * e * e * c_sin L mx2
      in DEG2MIN (RAD2DEG eRad))"

section \<open>The hour angle and the event time\<close>

text \<open>The local variable \<^verbatim>\<open>cosHA\<close> of \<^verbatim>\<open>LocalHourAngleSunRad\<close>.\<close>

definition cosHA :: "libm \<Rightarrow> double \<Rightarrow> double \<Rightarrow> double \<Rightarrow> double" where
  "cosHA L latitudeRad declinationRad angleRad =
     (c_cos L angleRad - c_sin L latitudeRad * c_sin L declinationRad) /
     (c_cos L latitudeRad * c_cos L declinationRad)"

definition LocalHourAngleSunRad :: "libm \<Rightarrow> double \<Rightarrow> double \<Rightarrow> double \<Rightarrow> double" where
  "LocalHourAngleSunRad L latitudeRad declinationRad angleRad =
     c_acos L (cosHA L latitudeRad declinationRad angleRad)"

definition UTCForSolarAngleAux :: "libm \<Rightarrow> int \<Rightarrow> double \<Rightarrow> double \<Rightarrow> double \<Rightarrow> double" where
  "UTCForSolarAngleAux L rise jd latitudeRad angleRad =
     (let centuryTime = JulianCenturyFromJulianDay jd;
          equationOfTime = EquationOfTime L centuryTime;
          sunDeclinationRad = SunDeclinationRad L centuryTime;
          hourAngle = LocalHourAngleSunRad L latitudeRad sunDeclinationRad angleRad;
          hourAngle = (if rise = 0 then - hourAngle else hourAngle)
      in lit 720.0 - (lit 4.0 * RAD2DEG hourAngle) - equationOfTime)"

definition UTCForSolarAngle :: "libm \<Rightarrow> int \<Rightarrow> double \<Rightarrow> double \<Rightarrow> double \<Rightarrow> double" where
  "UTCForSolarAngle L rise jd latitude angle =
     (let latitudeRad = DEG2RAD latitude;
          angleRad = DEG2RAD angle;
          firstTime = UTCForSolarAngleAux L rise jd latitudeRad angleRad;
          secondTime = UTCForSolarAngleAux L rise (jd + firstTime / MIN_PER_DAY)
                         latitudeRad angleRad
      in secondTime)"

section \<open>The Julian Day\<close>

text \<open>
  \<^verbatim>\<open>JulianDayEx\<close> first sets its local flag \<^verbatim>\<open>JulianDay\<close> (1: the date is taken in
  the Julian calendar), then shifts January and February to the end of the previous year
  and computes the century correction \<^verbatim>\<open>b\<close>.
\<close>

definition JulianDayEx_JulianDay :: "int \<Rightarrow> int \<Rightarrow> double \<Rightarrow> int" where
  "JulianDayEx_JulianDay y m dayFrac =
     (if y > 1582 then 0
      else if y = 1582 then
        (if m > 11 then 0
         else if m = 10 then (if dayFrac \<ge> lit 15.0 then 0 else 1)
         else 1)
      else 1)"

definition JulianDayEx_b :: "int \<Rightarrow> int \<Rightarrow> double \<Rightarrow> int" where
  "JulianDayEx_b y m dayFrac =
     (let JulianDay = JulianDayEx_JulianDay y m dayFrac;
          y = (if m \<le> 2 then y - 1 else y);
          a = c_div y 100
      in if JulianDay \<noteq> 0 then 0 else 2 - a + c_div a 4)"

definition JulianDayEx :: "int \<Rightarrow> int \<Rightarrow> double \<Rightarrow> double" where
  "JulianDayEx y m dayFrac =
     (let b = JulianDayEx_b y m dayFrac;
          y' = (if m \<le> 2 then y - 1 else y);
          m' = (if m \<le> 2 then m + 12 else m)
      in c_floor (lit 365.25 * int_to_double (y' + 4716)) +
         c_floor (lit 30.6001 * int_to_double (m' + 1)) +
         dayFrac + int_to_double b - lit 1524.5)"

section \<open>Degrees, minutes, seconds\<close>

text \<open>
  \<^verbatim>\<open>D2DMS\<close> returns its three results through pointers; the model returns the triple,
  or \<open>None\<close> where a conversion to an integer type is undefined. The quotient
  \<^verbatim>\<open>milliSeconds / (60 * 1000)\<close> is below 60 in magnitude, so its conversion from
  \<^verbatim>\<open>long\<close> to \<^verbatim>\<open>int\<close> keeps the value.
\<close>

definition D2DMS :: "double \<Rightarrow> (int \<times> int \<times> double) option" where
  "D2DMS degreesFrac =
     (case double_to_int (c_trunc degreesFrac) of
        None \<Rightarrow> None
      | Some degrees \<Rightarrow>
          (let fraction = degreesFrac - int_to_double degrees;
               fraction = fraction * int_to_double (3600 * 1000)
           in case double_to_long fraction of
                None \<Rightarrow> None
              | Some milliSeconds \<Rightarrow>
                  (let minutes = c_div milliSeconds (60 * 1000);
                       milliSeconds = milliSeconds - minutes * 60 * 1000;
                       seconds = int_to_double milliSeconds / lit 1000.0
                   in Some (degrees, minutes, seconds))))"

section \<open>Notions used to state the properties\<close>

text \<open>A real number is a double when rounding leaves it as it is.\<close>

definition is_double :: "real \<Rightarrow> bool" where
  "is_double x \<longleftrightarrow> round_double x = Fin x"

text \<open>A double is finite when it is neither an infinity nor NaN.\<close>

definition is_finite :: "double \<Rightarrow> bool" where
  "is_finite x \<longleftrightarrow> (case x of Fin r \<Rightarrow> True | _ \<Rightarrow> False)"

text \<open>
  The inverse cosine is an angle between 0 and \<open>\<pi>\<close>; of a library, the properties below
  need no more than that its inverse cosine stays within 4 in magnitude.
\<close>

definition acos_bounded :: "libm \<Rightarrow> bool" where
  "acos_bounded L \<longleftrightarrow> (\<forall>r. - 1 \<le> r \<and> r \<le> 1 \<longrightarrow> \<bar>m_acos L r\<bar> \<le> 4)"

text \<open>The closed interval \<open>[-1, 1]\<close>, on which the inverse cosine is defined.\<close>

definition in_unit_interval :: "double \<Rightarrow> bool" where
  "in_unit_interval c \<longleftrightarrow> lit (- 1.0) \<le> c \<and> c \<le> lit 1.0"

text \<open>
  The event time as the specification words it. The hour angle \<open>H\<close> solves
  \<open>cos H = (cos z - sin lat * sin decl) / (cos lat * cos decl)\<close> with the declination at
  the century time of the given Julian Day, and is negated for the set side; one pass is
  \<open>720 - 4 * H(degrees) - equationOfTime(T)\<close>; the result is that formula evaluated a
  second time, at the Julian Day shifted by the first pass's minutes over 1440. The
  conversions between degrees and radians are written out, as the products with
  \<open>180 / \<pi>\<close> and \<open>\<pi> / 180\<close>.
\<close>

definition spec_hour_angle :: "libm \<Rightarrow> bool \<Rightarrow> double \<Rightarrow> double \<Rightarrow> double \<Rightarrow> double" where
  "spec_hour_angle L isRise T latRad zenithRad =
     (let H = c_acos L ((c_cos L zenithRad - c_sin L latRad * c_sin L (SunDeclinationRad L T)) /
                        (c_cos L latRad * c_cos L (SunDeclinationRad L T)))
      in if isRise then H else - H)"

definition spec_pass :: "libm \<Rightarrow> bool \<Rightarrow> double \<Rightarrow> double \<Rightarrow> double \<Rightarrow> double" where
  "spec_pass L isRise jd latRad zenithRad =
     (let T = JulianCenturyFromJulianDay jd
      in lit 720 -
         lit 4 * (spec_hour_angle L isRise T latRad zenithRad *
                  (lit 180 / lit 3.14159265358979323846)) -
         EquationOfTime L T)"

definition spec_utcForSolarAngle ::
    "libm \<Rightarrow> bool \<Rightarrow> double \<Rightarrow> double \<Rightarrow> double \<Rightarrow> double" where
  "spec_utcForSolarAngle L isRise jd latitude zenithAngle =
     (let latRad = latitude * (lit 3.14159265358979323846 / lit 180);
          zenithRad = zenithAngle * (lit 3.14159265358979323846 / lit 180);
          firstPassMinutes = spec_pass L isRise jd latRad zenithRad
      in spec_pass L isRise (jd + firstPassMinutes / lit 1440) latRad zenithRad)"

section \<open>Notions used in the proofs\<close>

text \<open>
  \<open>bnd x a b\<close>: the double \<open>x\<close> is finite and its value lies between \<open>a\<close> and \<open>b\<close>. The
  values of the correctly rounded library are enclosed through the Taylor polynomials of
  sine and cosine, \<open>sin_poly n\<close> and \<open>cos_poly n\<close> with \<open>n\<close> terms.
\<close>

definition bnd :: "double \<Rightarrow> real \<Rightarrow> real \<Rightarrow> bool" where
  "bnd x a b \<longleftrightarrow> (\<exists>r. x = Fin r \<and> a \<le> r \<and> r \<le> b)"

primrec sin_poly :: "nat \<Rightarrow> real \<Rightarrow> real" where
  "sin_poly 0 x = 0"
| "sin_poly (Suc n) x = sin_poly n x + (- 1) ^ n * x ^ (2 * n + 1) / fact (2 * n + 1)"

primrec cos_poly :: "nat \<Rightarrow> real \<Rightarrow> real" where
  "cos_poly 0 x = 0"
| "cos_poly (Suc n) x = cos_poly n x + (- 1) ^ n * x ^ (2 * n) / fact (2 * n)"

section \<open>Facts about rounding\<close>

lemma pow2_pos: "0 < pow2 e"
  by (simp add: pow2_def)

lemma pow2_add: "pow2 (a + b) = pow2 a * pow2 b"
proof -
  have "pow2 e = 2 powr (of_int e)" for e
    by (simp add: pow2_def powr_realpow [symmetric] powr_minus divide_simps)
  then show ?thesis
    by (simp add: powr_add)
qed

lemma binade_eq:
  assumes "pow2 e \<le> \<bar>x\<bar>" and "\<bar>x\<bar> < pow2 (e + 1)" and "- 1022 \<le> e"
  shows "binade x = e"
proof -
  define n where "n = \<lfloor>\<bar>x\<bar> * 2 ^ 1074\<rfloor>"
  have p: "pow2 (k + 1074) = pow2 k * 2 ^ 1074" for k
    by (simp add: pow2_add) (simp add: pow2_def)
  have i: "pow2 k = of_int (2 ^ nat k)" if "0 \<le> k" for k
    using that by (simp add: pow2_def)
  have "pow2 (e + 1074) \<le> \<bar>x\<bar> * 2 ^ 1074"
    using assms(1) by (simp add: p)
  then have "of_int (2 ^ nat (e + 1074)) \<le> \<bar>x\<bar> * 2 ^ 1074"
    using assms(3) by (simp add: i)
  then have lo: "2 ^ nat (e + 1074) \<le> n"
    unfolding n_def by (simp only: le_floor_iff)
  have "\<bar>x\<bar> * 2 ^ 1074 < pow2 (e + 1) * 2 ^ 1074"
    using assms(2) by simp
  also have "\<dots> = pow2 ((e + 1) + 1074)"
    by (simp only: p)
  also have "\<dots> = of_int (2 ^ nat (e + 1075))"
    using assms(3) by (simp add: i)
  finally have "\<bar>x\<bar> * 2 ^ 1074 < of_int (2 ^ nat (e + 1075))" .
  then have hi: "n < 2 ^ nat (e + 1075)"
    unfolding n_def by (simp only: floor_less_iff)
  have "bitlen n \<le> e + 1075"
    using hi assms(3) by (simp add: bitlen_le_iff_power)
  moreover have "nat (e + 1075) - 1 = nat (e + 1074)"
    using assms(3) by simp
  then have "e + 1075 \<le> bitlen n"
    using lo by (simp only: bitlen_ge_iff_power) simp
  ultimately show ?thesis
    using assms(3) by (simp add: binade_def n_def)
qed

lemma round_double_eq:
  assumes "pow2 e \<le> \<bar>x\<bar>" and "\<bar>x\<bar> < pow2 (e + 1)" and "- 1022 \<le> e"
  shows "round_double x =
     (let q = pow2 (e - 52);
          r = of_int (round_half_even (x / q)) * q
      in if 2 ^ 1024 \<le> \<bar>r\<bar> then (if x < 0 then NInf else PInf) else Fin r)"
  by (simp add: round_double_def nearest_def binade_eq [OF assms] Let_def)

lemma round_double_0: "round_double 0 = Fin 0"
  by (simp add: round_double_def nearest_def round_half_even_def)

lemmas double_ops = plus_double_def minus_double_def times_double_def divide_double_def
  uminus_double_def less_double_def less_eq_double_def lit_def int_to_double_def

lemmas rd = pow2_def round_half_even_def round_double_0

lemma DAYS_IN_CENTURY_eq: "DAYS_IN_CENTURY = Fin 36525"
  by (simp add: DAYS_IN_CENTURY_def lit_def rd round_double_eq [where e = 15])

lemma JAN_1_2000_JD_eq: "JAN_1_2000_JD = Fin 2451545"
  by (simp add: JAN_1_2000_JD_def lit_def rd round_double_eq [where e = 21])

subsection \<open>Rounding is monotone\<close>

text \<open>
  Rounding to nearest never reverses the order of two reals and leaves a double as it is:
  a real between two doubles rounds to a double between them.
\<close>

lemma round_double_nearest:
  "round_double x = (if 2 ^ 1024 \<le> \<bar>nearest x\<bar> then (if x < 0 then NInf else PInf) else Fin (nearest x))"
  by (simp add: round_double_def Let_def)

lemma rhe_mono: "x \<le> y \<Longrightarrow> round_half_even x \<le> round_half_even y"
proof -
  assume xy: "x \<le> y"
  have fl: "\<lfloor>x\<rfloor> \<le> \<lfloor>y\<rfloor>" using xy by (rule floor_mono)
  show ?thesis
  proof (cases "\<lfloor>x\<rfloor> = \<lfloor>y\<rfloor>")
    case True
    then have "x - of_int \<lfloor>x\<rfloor> \<le> y - of_int \<lfloor>y\<rfloor>" using xy by simp
    then show ?thesis using True
      by (auto simp: round_half_even_def Let_def)
  next
    case False
    then have "\<lfloor>x\<rfloor> + 1 \<le> \<lfloor>y\<rfloor>" using fl by simp
    moreover have "round_half_even x \<le> \<lfloor>x\<rfloor> + 1"
      by (auto simp: round_half_even_def Let_def)
    moreover have "\<lfloor>y\<rfloor> \<le> round_half_even y"
      by (auto simp: round_half_even_def Let_def)
    ultimately show ?thesis by linarith
  qed
qed

lemma rhe_of_int: "round_half_even (of_int n) = n"
  by (simp add: round_half_even_def)

lemma rhe_minus: "round_half_even (- x) = - round_half_even x"
proof (cases "x = of_int \<lfloor>x\<rfloor>")
  case True
  then obtain n where "x = of_int n" ..
  then show ?thesis
    by (simp add: rhe_of_int flip: of_int_minus)
next
  case False
  then have c: "\<lceil>x\<rceil> = \<lfloor>x\<rfloor> + 1"
    by (metis ceiling_altdef)
  have f: "\<lfloor>- x\<rfloor> = - \<lfloor>x\<rfloor> - 1"
    using c by (simp add: floor_minus)
  have lt: "of_int \<lfloor>x\<rfloor> < x" using False
    by (metis floor_correct less_eq_real_def)
  show ?thesis
    using lt
    by (auto simp: round_half_even_def Let_def f)
qed

lemma pow2_mono: "a \<le> b \<Longrightarrow> pow2 a \<le> pow2 b"
proof -
  assume "a \<le> b"
  then obtain k where b: "b = a + int k"
    by (metis nonneg_int_cases zle_iff_zadd)
  have "1 \<le> pow2 (int k)" by (simp add: pow2_def)
  then have "pow2 a * 1 \<le> pow2 a * pow2 (int k)"
    using pow2_pos [of a] by (simp only: mult_le_cancel_left_pos)
  then show ?thesis
    by (simp add: b pow2_add)
qed

lemma binade_ge: "- 1022 \<le> binade x"
  by (simp add: binade_def)

lemma binade_upper: "\<bar>x\<bar> < pow2 (binade x + 1)"
proof -
  define n where "n = \<lfloor>\<bar>x\<bar> * 2 ^ 1074\<rfloor>"
  define bl where "bl = bitlen n"
  have n0: "0 \<le> n" by (simp add: n_def)
  have bl0: "0 \<le> bl" by (simp add: bl_def bitlen_nonneg)
  have "n < 2 ^ nat bl"
    using bitlen_le_iff_power [of n bl] bl0 by (simp add: bl_def)
  then have "n + 1 \<le> 2 ^ nat bl" by simp
  moreover have "\<bar>x\<bar> * 2 ^ 1074 < of_int (n + 1)"
    unfolding n_def by linarith
  ultimately have "\<bar>x\<bar> * 2 ^ 1074 < of_int (2 ^ nat bl)"
    by (meson less_le_trans of_int_le_iff)
  also have "\<dots> = pow2 bl" using bl0 by (simp add: pow2_def)
  finally have "\<bar>x\<bar> * pow2 1074 < pow2 bl" by (simp add: pow2_def)
  then have "\<bar>x\<bar> * pow2 1074 * pow2 (- 1074) < pow2 bl * pow2 (- 1074)"
    using pow2_pos [of "- 1074"] by (simp only: mult_less_cancel_right_pos)
  then have "\<bar>x\<bar> * pow2 (1074 + - 1074) < pow2 (bl + - 1074)"
    by (simp only: pow2_add mult.assoc)
  then have "\<bar>x\<bar> < pow2 (bl - 1074)"
    by (simp add: pow2_def)
  also have "\<dots> \<le> pow2 (binade x + 1)"
    by (rule pow2_mono) (simp add: binade_def bl_def n_def)
  finally show ?thesis .
qed

lemma binade_lower:
  assumes "- 1022 < binade x"
  shows "pow2 (binade x) \<le> \<bar>x\<bar>"
proof -
  define n where "n = \<lfloor>\<bar>x\<bar> * 2 ^ 1074\<rfloor>"
  define bl where "bl = bitlen n"
  have e: "binade x = bl - 1075" and bl: "53 < bl"
    using assms by (auto simp: binade_def bl_def n_def max_def split: if_splits)
  have "2 ^ (nat bl - 1) \<le> n"
    using bitlen_ge_iff_power [of bl n] bl by (simp add: bl_def)
  then have "of_int (2 ^ (nat bl - 1)) \<le> \<bar>x\<bar> * 2 ^ 1074"
    unfolding n_def by (simp only: le_floor_iff)
  moreover have "of_int (2 ^ (nat bl - 1)) = pow2 (bl - 1)"
    using bl by (simp add: pow2_def nat_diff_distrib)
  ultimately have "pow2 (bl - 1) \<le> \<bar>x\<bar> * pow2 1074"
    by (simp add: pow2_def)
  then have "pow2 (bl - 1) * pow2 (- 1074) \<le> \<bar>x\<bar> * pow2 1074 * pow2 (- 1074)"
    using pow2_pos [of "- 1074"] by (simp only: mult_le_cancel_right_pos)
  then have "pow2 (bl - 1 + - 1074) \<le> \<bar>x\<bar> * pow2 (1074 + - 1074)"
    by (simp only: pow2_add mult.assoc)
  then show ?thesis
    by (simp add: e) (simp add: pow2_def)
qed

lemma nearest_nonneg:
  assumes "0 \<le> x"
  shows "0 \<le> nearest x"
    and "nearest x \<le> pow2 (binade x + 1)"
    and "- 1022 < binade x \<Longrightarrow> pow2 (binade x) \<le> nearest x"
proof -
  define q where "q = pow2 (binade x - 52)"
  have q: "0 < q" by (simp add: q_def pow2_pos)
  have p53: "pow2 53 = of_int (2 ^ 53)" and p52: "pow2 52 = of_int (2 ^ 52)"
    by (simp_all add: pow2_def)
  have "binade x + 1 = 53 + (binade x - 52)"
    by simp
  then have "pow2 (binade x + 1) = pow2 (53 + (binade x - 52))"
    by (rule arg_cong)
  then have up: "pow2 (binade x + 1) = of_int (2 ^ 53) * q"
    by (simp only: pow2_add p53 q_def)
  have "binade x = 52 + (binade x - 52)"
    by simp
  then have "pow2 (binade x) = pow2 (52 + (binade x - 52))"
    by (rule arg_cong)
  then have lo: "pow2 (binade x) = of_int (2 ^ 52) * q"
    by (simp only: pow2_add p52 q_def)
  have n: "nearest x = of_int (round_half_even (x / q)) * q"
    by (simp add: nearest_def q_def)
  have "round_half_even 0 \<le> round_half_even (x / q)"
    using assms q by (intro rhe_mono) simp
  then have "0 \<le> round_half_even (x / q)"
    using rhe_of_int [of 0] by simp
  then show "0 \<le> nearest x"
    using q by (simp add: n)
  have ax: "\<bar>x\<bar> = x"
    using assms by simp
  have "x < of_int (2 ^ 53) * q"
    using binade_upper [of x] by (simp only: up ax)
  then have "x / q \<le> of_int (2 ^ 53)"
    using q by (simp add: divide_le_eq)
  then have "round_half_even (x / q) \<le> round_half_even (of_int (2 ^ 53))"
    by (rule rhe_mono)
  then have "round_half_even (x / q) \<le> 2 ^ 53"
    by (simp only: rhe_of_int)
  then have "(of_int (round_half_even (x / q)) :: real) \<le> of_int (2 ^ 53)"
    by (simp only: of_int_le_iff)
  then show "nearest x \<le> pow2 (binade x + 1)"
    using q by (simp only: n up mult_le_cancel_right_pos)
  assume b: "- 1022 < binade x"
  have "of_int (2 ^ 52) * q \<le> x"
    using binade_lower [OF b] by (simp only: lo ax)
  then have "of_int (2 ^ 52) \<le> x / q"
    using q by (simp add: le_divide_eq)
  then have "round_half_even (of_int (2 ^ 52)) \<le> round_half_even (x / q)"
    by (rule rhe_mono)
  then have "2 ^ 52 \<le> round_half_even (x / q)"
    by (simp only: rhe_of_int)
  then have "(of_int (2 ^ 52) :: real) \<le> of_int (round_half_even (x / q))"
    by (simp only: of_int_le_iff)
  then show "pow2 (binade x) \<le> nearest x"
    using q by (simp only: n lo mult_le_cancel_right_pos)
qed

lemma binade_mono:
  assumes "\<bar>x\<bar> \<le> \<bar>y\<bar>"
  shows "binade x \<le> binade y"
proof (rule ccontr)
  assume "\<not> binade x \<le> binade y"
  then have lt: "binade y + 1 \<le> binade x" by simp
  then have "- 1022 < binade x" using binade_ge [of y] by linarith
  then have "pow2 (binade x) \<le> \<bar>x\<bar>" by (rule binade_lower)
  also have "\<bar>x\<bar> \<le> \<bar>y\<bar>" by (rule assms)
  also have "\<bar>y\<bar> < pow2 (binade y + 1)" by (rule binade_upper)
  also have "pow2 (binade y + 1) \<le> pow2 (binade x)" using lt by (rule pow2_mono)
  finally show False by simp
qed

lemma nearest_mono_nonneg:
  assumes "0 \<le> x" and "x \<le> y"
  shows "nearest x \<le> nearest y"
proof -
  have y: "0 \<le> y" using assms by simp
  have le: "binade x \<le> binade y"
    using assms by (intro binade_mono) simp
  show ?thesis
  proof (cases "binade x = binade y")
    case True
    define q where "q = pow2 (binade y - 52)"
    have q: "0 < q" by (simp add: q_def pow2_pos)
    have "x / q \<le> y / q" using assms(2) q by (simp add: divide_right_mono)
    then have "round_half_even (x / q) \<le> round_half_even (y / q)" by (rule rhe_mono)
    then have "(of_int (round_half_even (x / q)) :: real) \<le> of_int (round_half_even (y / q))"
      by (simp only: of_int_le_iff)
    then show ?thesis
      using q by (simp add: nearest_def True q_def)
  next
    case False
    then have lt: "binade x + 1 \<le> binade y" using le by simp
    then have "- 1022 < binade y" using binade_ge [of x] by linarith
    then have "pow2 (binade y) \<le> nearest y" using y by (intro nearest_nonneg(3))
    moreover have "nearest x \<le> pow2 (binade x + 1)" using assms(1) by (rule nearest_nonneg(2))
    moreover have "pow2 (binade x + 1) \<le> pow2 (binade y)" using lt by (rule pow2_mono)
    ultimately show ?thesis by linarith
  qed
qed

lemma nearest_minus: "nearest (- x) = - nearest x"
  by (simp add: nearest_def binade_def rhe_minus)

lemma nearest_mono:
  assumes "x \<le> y"
  shows "nearest x \<le> nearest y"
proof -
  consider "0 \<le> x" | "y \<le> 0" | "x < 0" "0 < y" by linarith
  then show ?thesis
  proof cases
    case 1
    then show ?thesis using assms by (rule nearest_mono_nonneg)
  next
    case 2
    then have "nearest (- y) \<le> nearest (- x)"
      using assms by (intro nearest_mono_nonneg) simp_all
    then show ?thesis by (simp add: nearest_minus)
  next
    case 3
    have "0 \<le> nearest (- x)" using 3 by (intro nearest_nonneg(1)) simp
    moreover have "0 \<le> nearest y" using 3 by (intro nearest_nonneg(1)) simp
    ultimately show ?thesis by (simp add: nearest_minus)
  qed
qed

lemma is_double_nearest:
  assumes "is_double a"
  shows "nearest a = a" and "\<bar>a\<bar> < 2 ^ 1024"
  using assms by (auto simp: is_double_def round_double_nearest split: if_splits)

lemma round_double_between:
  assumes "a \<le> x" and "x \<le> b" and "is_double a" and "is_double b"
  shows "\<exists>r. round_double x = Fin r \<and> a \<le> r \<and> r \<le> b"
proof -
  have lo: "a \<le> nearest x"
    using nearest_mono [OF assms(1)] is_double_nearest(1) [OF assms(3)] by simp
  have hi: "nearest x \<le> b"
    using nearest_mono [OF assms(2)] is_double_nearest(1) [OF assms(4)] by simp
  have "\<bar>nearest x\<bar> < 2 ^ 1024"
    using lo hi is_double_nearest(2) [OF assms(3)] is_double_nearest(2) [OF assms(4)]
    by linarith
  then have "round_double x = Fin (nearest x)"
    by (simp add: round_double_nearest)
  then show ?thesis using lo hi by blast
qed

lemma round_double_minus: "round_double (- x) = dneg (round_double x)"
proof -
  have "nearest x = 0" if "x = 0"
    using that by (simp add: nearest_def rhe_of_int [of 0, simplified])
  then show ?thesis
    by (cases "x = 0") (auto simp: round_double_nearest nearest_minus)
qed

subsection \<open>The rounding error\<close>

text \<open>
  Rounding moves a real by at most half the spacing of its binade; a real nearer than that
  to a double of its binade rounds to it; and the doubles of a binade are the multiples of
  its spacing.
\<close>

lemma rhe_error: "\<bar>of_int (round_half_even y) - y\<bar> \<le> 1 / 2"
  unfolding round_half_even_def Let_def by (auto simp: abs_le_iff)

lemma rhe_near:
  assumes "\<bar>y - of_int n\<bar> < 1 / 2"
  shows "round_half_even y = n"
proof -
  have "\<bar>of_int (round_half_even y) - (of_int n :: real)\<bar> < 1"
    using rhe_error [of y] assms by linarith
  then have "\<bar>round_half_even y - n\<bar> < 1"
    by (metis (no_types) of_int_abs of_int_diff of_int_less_1_iff)
  then show ?thesis by linarith
qed

lemma binade_le:
  assumes "\<bar>x\<bar> < pow2 (e + 1)" and "- 1022 \<le> e"
  shows "binade x \<le> e"
proof (rule ccontr)
  assume "\<not> binade x \<le> e"
  then have b: "e + 1 \<le> binade x" by simp
  then have "pow2 (binade x) \<le> \<bar>x\<bar>"
    using assms(2) by (intro binade_lower) linarith
  moreover have "pow2 (e + 1) \<le> pow2 (binade x)"
    using b by (rule pow2_mono)
  ultimately show False using assms(1) by linarith
qed

lemma pow2_half: "pow2 (e - 1) = pow2 e / 2"
  using pow2_add [of "e - 1" 1] by (simp add: pow2_def)

lemma nearest_error:
  assumes "\<bar>x\<bar> < pow2 (e + 1)" and "- 1022 \<le> e"
  shows "\<bar>nearest x - x\<bar> \<le> pow2 (e - 53)"
proof -
  define q where "q = pow2 (binade x - 52)"
  have q: "0 < q" by (simp add: q_def pow2_pos)
  have "binade x - 52 \<le> e - 52"
    using binade_le [OF assms] by simp
  then have qe: "q \<le> pow2 (e - 52)"
    unfolding q_def by (rule pow2_mono)
  have "nearest x - x = (of_int (round_half_even (x / q)) - x / q) * q"
    using q by (simp add: nearest_def q_def algebra_simps)
  then have "\<bar>nearest x - x\<bar> = \<bar>of_int (round_half_even (x / q)) - x / q\<bar> * q"
    using q by (simp add: abs_mult)
  also have "\<dots> \<le> 1 / 2 * q"
    using rhe_error [of "x / q"] q by (intro mult_right_mono) simp_all
  also have "\<dots> \<le> pow2 (e - 52) / 2"
    using qe by simp
  also have "\<dots> = pow2 (e - 53)"
    using pow2_half [of "e - 52"] by simp
  finally show ?thesis .
qed

lemma round_double_bounded:
  assumes "\<bar>x\<bar> \<le> b" and "is_double b"
  shows "round_double x = Fin (nearest x)" and "\<bar>nearest x\<bar> \<le> b"
proof -
  have nb: "is_double (- b)"
    using assms(2) by (simp add: is_double_def round_double_minus)
  have "- b \<le> x" "x \<le> b" using assms(1) by linarith+
  from round_double_between [OF this nb assms(2)]
  obtain r where r: "round_double x = Fin r" "- b \<le> r" "r \<le> b" by blast
  then have "r = nearest x"
    by (auto simp: round_double_nearest split: if_splits)
  then show "round_double x = Fin (nearest x)" and "\<bar>nearest x\<bar> \<le> b"
    using r by simp_all
qed

lemma nearest_snap:
  assumes "a = of_int n * pow2 (e - 52)"
    and "pow2 e \<le> \<bar>y\<bar>" and "\<bar>y\<bar> < pow2 (e + 1)" and "- 1022 \<le> e"
    and "\<bar>y - a\<bar> < pow2 (e - 53)"
  shows "nearest y = a"
proof -
  define q where "q = pow2 (e - 52)"
  have q: "0 < q" by (simp add: q_def pow2_pos)
  have h: "pow2 (e - 53) = q / 2"
    using pow2_half [of "e - 52"] by (simp add: q_def)
  have b: "binade y = e"
    using assms(2-4) by (rule binade_eq)
  have "y / q - of_int n = (y - a) / q"
    using q by (simp add: assms(1) q_def field_simps)
  then have "\<bar>y / q - of_int n\<bar> = \<bar>y - a\<bar> / q"
    using q by simp
  also have "\<dots> < 1 / 2"
    using assms(5) q by (simp add: h field_simps)
  finally have "round_half_even (y / q) = n"
    by (rule rhe_near)
  then show ?thesis
    by (simp add: nearest_def b assms(1) flip: q_def)
qed

lemma double_grid:
  assumes "is_double x" and "pow2 e \<le> \<bar>x\<bar>" and "\<bar>x\<bar> < pow2 (e + 1)" and "- 1022 \<le> e"
  shows "\<exists>n. x = of_int n * pow2 (e - 52)"
proof -
  have "binade x = e" using assms(2-4) by (rule binade_eq)
  then have "nearest x = of_int (round_half_even (x / pow2 (e - 52))) * pow2 (e - 52)"
    by (simp add: nearest_def)
  then show ?thesis
    using is_double_nearest(1) [OF assms(1)] by metis
qed

lemma pow2_int:
  assumes "0 \<le> k"
  shows "pow2 k = of_int (2 ^ nat k)"
  using assms by (simp add: pow2_def)

lemma nearest_grid:
  assumes "\<bar>m\<bar> < 2 ^ 53" and "- 1074 \<le> k"
  shows "nearest (of_int m * pow2 k) = of_int m * pow2 k"
proof -
  define x :: real where "x = of_int m * pow2 k"
  define e where "e = max (k + 52) (- 1022)"
  define b where "b = binade x"
  have "\<bar>x\<bar> = of_int \<bar>m\<bar> * pow2 k"
    using pow2_pos [of k] by (simp add: x_def abs_mult)
  also have "\<dots> < 2 ^ 53 * pow2 k"
    using assms(1) pow2_pos [of k]
    by (intro mult_strict_right_mono) (simp_all flip: of_int_less_iff [where 'a = real])
  also have "\<dots> = pow2 (k + 53)"
    using pow2_add [of k 53] by (simp add: pow2_def [of 53])
  also have "\<dots> \<le> pow2 (e + 1)"
    by (rule pow2_mono) (simp add: e_def)
  finally have "binade x \<le> e"
    by (rule binade_le) (simp add: e_def)
  moreover have "- 1022 \<le> binade x" by (rule binade_ge)
  ultimately have d: "0 \<le> k - (b - 52)"
    using assms(2) by (simp add: e_def b_def max_def split: if_splits)
  define j where "j = k - (b - 52)"
  define q where "q = pow2 (b - 52)"
  have q: "0 < q" by (simp add: q_def pow2_pos)
  have "pow2 k = pow2 j * q"
    using pow2_add [of j "b - 52"] by (simp add: j_def q_def)
  then have xq: "x = of_int (m * 2 ^ nat j) * q"
    using d by (simp add: x_def pow2_int j_def)
  then have "x / q = of_int (m * 2 ^ nat j)"
    using q by simp
  then have "round_half_even (x / q) = m * 2 ^ nat j"
    by (simp only: rhe_of_int)
  then have "nearest x = of_int (m * 2 ^ nat j) * q"
    by (simp add: nearest_def q_def b_def)
  then have "nearest x = x"
    by (simp only: xq [symmetric])
  then show ?thesis
    by (simp only: x_def)
qed

lemma is_double_grid:
  assumes "\<bar>m\<bar> < 2 ^ 53" and "- 1074 \<le> k" and "\<bar>of_int m * pow2 k\<bar> < 2 ^ 1024"
  shows "is_double (of_int m * pow2 k)"
  using assms(3) by (simp add: is_double_def round_double_nearest nearest_grid [OF assms(1,2)])

section \<open>The calendar boundary of the Julian Day\<close>

text \<open>
  C1. The claim: \<^verbatim>\<open>JulianDayEx\<close> applies the Gregorian correction
  \<open>b = 2 - a + a / 4\<close> exactly when the date is on or after 1582-10-15, that is for
  \<open>y > 1582\<close>, for \<open>y = 1582\<close> and \<open>m > 10\<close>, and for \<open>y = 1582\<close>, \<open>m = 10\<close> and
  \<open>d \<ge> 15\<close>. The code tests \<^verbatim>\<open>m > 11\<close>: for every day of November 1582 the flag
  \<^verbatim>\<open>JulianDay\<close> stays 1 and the correction is 0, where the Gregorian correction is
  \<open>2 - 15 + 3 = - 10\<close>; the Julian Day of 1582-11-01 comes out as 2299187.5, ten days
  after the 2299177.5 of the Gregorian calendar.
\<close>

theorem JulianDayEx_november_1582:
  "JulianDayEx_JulianDay 1582 11 d = 1 \<and> JulianDayEx_b 1582 11 d = 0 \<and>
   JulianDayEx 1582 11 (lit 1.0) = lit 2299187.5"
  by (simp add: JulianDayEx_def JulianDayEx_b_def JulianDayEx_JulianDay_def c_div_def
      double_ops rd round_double_eq [where e = 0] round_double_eq [where e = 3]
      round_double_eq [where e = 4] round_double_eq [where e = 8]
      round_double_eq [where e = 10] round_double_eq [where e = 12]
      round_double_eq [where e = 21])

section \<open>Fixed points of the Julian Day\<close>

text \<open>
  C6. \<^verbatim>\<open>JulianDayEx(2000, 1, 1.5)\<close> is 2451545.0, \<^verbatim>\<open>JulianDayEx(1999, 1, 1.0)\<close> is
  2451179.5 and \<^verbatim>\<open>JulianDayEx(-4712, 1, 1.5)\<close> is 0.0, exactly, in double arithmetic.
\<close>

theorem JulianDayEx_fixed_points:
  "JulianDayEx 2000 1 (lit 1.5) = lit 2451545.0 \<and>
   JulianDayEx 1999 1 (lit 1.0) = lit 2451179.5 \<and>
   JulianDayEx (- 4712) 1 (lit 1.5) = lit 0.0"
  by (simp add: JulianDayEx_def JulianDayEx_b_def JulianDayEx_JulianDay_def c_div_def
      double_ops rd round_double_eq [where e = 0] round_double_eq [where e = 1]
      round_double_eq [where e = 3] round_double_eq [where e = 4]
      round_double_eq [where e = 8] round_double_eq [where e = 10]
      round_double_eq [where e = 12] round_double_eq [where e = 21])

section \<open>Century time and back\<close>

text \<open>
  One rounded operation on operands of bounded magnitude: the result is finite, within the
  same bound, and off by at most half the spacing of the bound's binade.
\<close>

lemma round_double_step:
  assumes "\<bar>x\<bar> \<le> b" and "is_double b" and "b < pow2 (e + 1)" and "- 1022 \<le> e"
  shows "\<exists>r. round_double x = Fin r \<and> \<bar>r\<bar> \<le> b \<and> \<bar>r - x\<bar> \<le> pow2 (e - 53)"
proof -
  have "\<bar>x\<bar> < pow2 (e + 1)" using assms(1,3) by linarith
  then have "\<bar>nearest x - x\<bar> \<le> pow2 (e - 53)"
    using assms(4) by (rule nearest_error)
  then show ?thesis
    using round_double_bounded [OF assms(1,2)] by blast
qed

lemma is_double_century_range:
  "is_double 16" "is_double (- 16)" "is_double 584400" "is_double 1867145" "is_double 3035945"
  by (simp_all add: is_double_def rd round_double_eq [where e = 4]
      round_double_eq [where e = 19] round_double_eq [where e = 20]
      round_double_eq [where e = 21])

lemma day_roundtrip:
  assumes dbl: "is_double jd" and rng: "\<bar>jd - 2451545\<bar> \<le> 584400"
  shows "JulianDayFromJulianCentury (JulianCenturyFromJulianDay (Fin jd)) = Fin jd"
proof -
  define d where "d = jd - 2451545"
  have jd_lo: "pow2 20 \<le> \<bar>jd\<bar>" and jd_hi: "\<bar>jd\<bar> < pow2 22" and jd_pos: "0 < jd"
    using rng by (simp_all add: pow2_def abs_le_iff)
  txt \<open>The Julian Day lies on the grid of spacing \<open>2^-32\<close>, and so does its distance to J2000.\<close>
  obtain n where n: "jd = of_int n * pow2 (- 32)"
  proof (cases "\<bar>jd\<bar> < pow2 21")
    case True
    from double_grid [OF dbl jd_lo] True obtain k where "jd = of_int k * pow2 (20 - 52)"
      by auto
    then have "jd = of_int k * pow2 (- 32)" by simp
    then show ?thesis by (rule that)
  next
    case False
    then have "pow2 21 \<le> \<bar>jd\<bar>" by simp
    from double_grid [OF dbl this] jd_hi obtain k where "jd = of_int k * pow2 (21 - 52)"
      by auto
    then have "jd = of_int (2 * k) * pow2 (- 32)"
      by (simp add: pow2_def)
    then show ?thesis by (rule that)
  qed
  define m where "m = n - 2451545 * 2 ^ 32"
  have dm: "d = of_int m * pow2 (- 32)"
    by (simp add: d_def m_def n pow2_def field_simps)
  have "\<bar>of_int m :: real\<bar> = \<bar>d\<bar> * 2 ^ 32"
    by (simp add: dm pow2_def abs_mult)
  also have "\<dots> \<le> 584400 * 2 ^ 32"
    using rng by (simp add: d_def)
  also have "\<dots> < 2 ^ 53" by simp
  finally have "\<bar>m\<bar> < 2 ^ 53"
    by (metis (no_types) of_int_abs of_int_less_iff of_int_numeral of_int_power)
  then have "is_double (of_int m * pow2 (- 32))"
    by (rule is_double_grid) (use rng in \<open>simp_all add: dm [symmetric] d_def\<close>)
  then have "is_double d"
    by (simp only: dm)
  then have s1: "Fin jd - Fin 2451545 = Fin d"
    by (simp add: minus_double_def is_double_def flip: d_def)
  txt \<open>The quotient and the product are rounded; the sum absorbs the two errors.\<close>
  define x where "x = d / 36525"
  have x16: "\<bar>x\<bar> \<le> 16"
    using rng by (simp add: x_def d_def)
  obtain T where T: "round_double x = Fin T" "\<bar>T\<bar> \<le> 16" "\<bar>T - x\<bar> \<le> pow2 (- 50)"
  proof (cases "\<bar>x\<bar> < 16")
    case True
    then have "\<bar>x\<bar> < pow2 (3 + 1)" by (simp add: pow2_def)
    then have "\<bar>nearest x - x\<bar> \<le> pow2 (3 - 53)"
      by (rule nearest_error) simp
    then show ?thesis
      using that round_double_bounded [OF x16 is_double_century_range(1)] by simp
  next
    case False
    then have "x = 16 \<or> x = - 16" using x16 by linarith
    then have "round_double x = Fin x"
      using is_double_century_range(1,2) by (auto simp: is_double_def)
    then show ?thesis
      using that [of x] x16 pow2_pos [of "- 50"] by simp
  qed
  have s2: "Fin d / Fin 36525 = Fin T"
    by (simp add: divide_double_def T(1) flip: x_def)
  define y where "y = T * 36525"
  have yd: "\<bar>y - d\<bar> \<le> 36525 * pow2 (- 50)"
  proof -
    have "y - d = (T - x) * 36525" by (simp add: y_def x_def algebra_simps)
    then have "\<bar>y - d\<bar> = \<bar>T - x\<bar> * 36525" by (simp only: abs_mult)
    then show ?thesis using T(3) by simp
  qed
  have "\<bar>y\<bar> \<le> 584400"
    using T(2) by (simp add: y_def abs_mult)
  from round_double_step [OF this is_double_century_range(3), of 19]
  obtain p where p: "round_double y = Fin p" "\<bar>p - y\<bar> \<le> pow2 (- 34)"
    by (auto simp: pow2_def)
  have s3: "Fin T * Fin 36525 = Fin p"
    by (simp add: times_double_def p(1) flip: y_def)
  define z where "z = p + 2451545"
  have "\<bar>z - jd\<bar> = \<bar>(p - y) + (y - d)\<bar>"
    by (simp add: z_def d_def)
  also have "\<dots> \<le> pow2 (- 34) + 36525 * pow2 (- 50)"
    using p(2) yd by linarith
  also have "\<dots> < pow2 (- 33)"
    by (simp add: pow2_def)
  finally have zj: "\<bar>z - jd\<bar> < pow2 (- 33)" .
  have p33: "pow2 (- 33) = 1 / 2 ^ 33"
    by (simp add: pow2_def)
  have "pow2 (- 33) \<le> 1"
    by (simp add: pow2_def)
  then have zr: "1867144 \<le> z" "z \<le> 3035946"
    using zj rng by linarith+
  then have z_lo: "pow2 20 \<le> \<bar>z\<bar>" and z_hi: "\<bar>z\<bar> < pow2 22"
    by (simp_all add: pow2_def)
  have "nearest z = jd"
  proof (cases "\<bar>z\<bar> < pow2 21")
    case True
    show ?thesis
      by (rule nearest_snap [where e = 20 and n = n]) (use n z_lo True zj in simp_all)
  next
    case False
    then have z21: "pow2 21 \<le> \<bar>z\<bar>" by simp
    have "2097152 \<le> z"
      using z21 zr by (simp add: pow2_def)
    then have "2097152 - pow2 (- 33) < jd"
      using zj by linarith
    then have "2097152 - 1 / 2 ^ 33 < jd"
      by (simp only: p33)
    then have "(2097152 - 1 / 2 ^ 33) * 2 ^ 32 < jd * 2 ^ 32"
      by (simp only: mult_less_cancel_right_pos zero_less_power zero_less_numeral)
    moreover have "jd * 2 ^ 32 = of_int n"
      by (simp add: n pow2_def)
    ultimately have "2 ^ 53 - 1 / 2 < (of_int n :: real)"
      by simp
    then have "(of_int (2 ^ 53 - 1) :: real) < of_int n" by simp
    then have "2 ^ 53 \<le> n" by (simp only: of_int_less_iff)
    then have "(2 ^ 53 :: real) \<le> of_int n"
      by (metis (no_types) of_int_le_iff of_int_numeral of_int_power)
    then have "pow2 21 \<le> \<bar>jd\<bar>"
      unfolding n by (simp add: pow2_def field_simps)
    from double_grid [OF dbl this] jd_hi obtain k where k: "jd = of_int k * pow2 (21 - 52)"
      by auto
    have "\<bar>z - jd\<bar> < pow2 (21 - 53)"
      using zj by (simp add: pow2_def)
    with k z21 z_hi show ?thesis
      by (intro nearest_snap [where e = 21 and n = k]) simp_all
  qed
  moreover have "\<bar>jd\<bar> < 2 ^ 1024"
    by (rule is_double_nearest(2) [OF dbl])
  ultimately have "round_double z = Fin jd"
    by (simp add: round_double_nearest)
  then have s4: "Fin p + Fin 2451545 = Fin jd"
    by (simp add: plus_double_def z_def)
  show ?thesis
    by (simp only: JulianDayFromJulianCentury_def JulianCenturyFromJulianDay_def
        DAYS_IN_CENTURY_eq JAN_1_2000_JD_eq s1 s2 s3 s4)
qed

lemma century_roundtrip:
  assumes "\<bar>t\<bar> \<le> 16"
  shows "\<exists>r. JulianCenturyFromJulianDay (JulianDayFromJulianCentury (Fin t)) = Fin r \<and>
             \<bar>r - t\<bar> \<le> 1 / 2 ^ 46"
proof -
  have "\<bar>t * 36525\<bar> \<le> 584400"
    using assms by (simp add: abs_mult)
  from round_double_step [OF this is_double_century_range(3), of 19]
  obtain p where p: "round_double (t * 36525) = Fin p" "\<bar>p\<bar> \<le> 584400"
      "\<bar>p - t * 36525\<bar> \<le> pow2 (- 34)"
    by (auto simp: pow2_def)
  have "\<bar>p + 2451545\<bar> \<le> 3035945"
    using p(2) by (simp add: abs_le_iff)
  from round_double_step [OF this is_double_century_range(5), of 21]
  obtain j where j: "round_double (p + 2451545) = Fin j"
      "\<bar>j - (p + 2451545)\<bar> \<le> pow2 (- 32)"
    by (auto simp: pow2_def)
  have "pow2 (- 32) \<le> 1" by (simp add: pow2_def)
  then have "\<bar>j - 2451545\<bar> \<le> 1048575"
    using j(2) p(2) by linarith
  moreover have "is_double 1048575"
    by (simp add: is_double_def rd round_double_eq [where e = 19])
  ultimately obtain d where d: "round_double (j - 2451545) = Fin d"
      "\<bar>d - (j - 2451545)\<bar> \<le> pow2 (- 34)"
    using round_double_step [of "j - 2451545" 1048575 19] by (auto simp: pow2_def)
  have dt: "\<bar>d - t * 36525\<bar> \<le> 3 * pow2 (- 33)"
  proof -
    have "d - t * 36525 = (d - (j - 2451545)) + (j - (p + 2451545)) + (p - t * 36525)"
      by simp
    then have "\<bar>d - t * 36525\<bar> \<le> pow2 (- 34) + pow2 (- 32) + pow2 (- 34)"
      using d(2) j(2) p(3) by linarith
    then show ?thesis by (simp add: pow2_def)
  qed
  have "d / 36525 - t = (d - t * 36525) / 36525"
    by (simp add: field_simps)
  then have "\<bar>d / 36525 - t\<bar> = \<bar>d - t * 36525\<bar> / 36525"
    by (simp only: abs_divide abs_numeral)
  then have qt: "\<bar>d / 36525 - t\<bar> \<le> 3 * pow2 (- 33) / 36525"
    using dt by (simp add: divide_right_mono)
  moreover have "3 * pow2 (- 33) / 36525 \<le> 1"
    by (simp add: pow2_def)
  ultimately have "\<bar>d / 36525\<bar> \<le> 17"
    using assms by linarith
  moreover have "is_double 17"
    by (simp add: is_double_def rd round_double_eq [where e = 4])
  ultimately obtain r where r: "round_double (d / 36525) = Fin r"
      "\<bar>r - d / 36525\<bar> \<le> pow2 (- 49)"
    using round_double_step [of "d / 36525" 17 4] by (auto simp: pow2_def)
  have "\<bar>r - t\<bar> \<le> pow2 (- 49) + 3 * pow2 (- 33) / 36525"
    using r(2) qt by linarith
  also have "\<dots> \<le> 1 / 2 ^ 46"
    by (simp add: pow2_def)
  finally have "\<bar>r - t\<bar> \<le> 1 / 2 ^ 46" .
  moreover have "JulianCenturyFromJulianDay (JulianDayFromJulianCentury (Fin t)) = Fin r"
    by (simp add: JulianDayFromJulianCentury_def JulianCenturyFromJulianDay_def
        DAYS_IN_CENTURY_eq JAN_1_2000_JD_eq double_ops p(1) j(1) d(1) r(1))
  ultimately show ?thesis by blast
qed

text \<open>
  C7, as claimed: the two conversions are mutually inverse on every input. In double
  arithmetic neither composition is the identity. The century time \<open>2^-60\<close> is absorbed by
  the sum with 2451545.0, and the way back returns 0. The Julian Day \<open>1867144 + 5/2^32\<close>,
  less than a day beyond sixteen centuries before J2000.0, comes back as
  \<open>1867144 + 6/2^32\<close>: the product with 36525 does not undo the quotient, and the sum
  with 2451545.0 rounds the difference away from the Julian Day.
\<close>

theorem century_time_roundtrip_counterexample:
  "JulianCenturyFromJulianDay (JulianDayFromJulianCentury (lit (1 / 2 ^ 60))) = lit 0 \<and>
   lit (1 / 2 ^ 60) \<noteq> lit 0 \<and>
   JulianDayFromJulianCentury (JulianCenturyFromJulianDay (lit (1867144 + 5 / 2 ^ 32))) =
     lit (1867144 + 6 / 2 ^ 32) \<and>
   lit (1867144 + 5 / 2 ^ 32) \<noteq> lit (1867144 + 6 / 2 ^ 32)"
proof (intro conjI)
  show "JulianCenturyFromJulianDay (JulianDayFromJulianCentury (lit (1 / 2 ^ 60))) = lit 0"
    by (simp add: JulianDayFromJulianCentury_def JulianCenturyFromJulianDay_def
        DAYS_IN_CENTURY_def JAN_1_2000_JD_def double_ops rd
        round_double_eq [where e = "- 60"] round_double_eq [where e = 15]
        round_double_eq [where e = "- 45"] round_double_eq [where e = 21])
  show "lit (1 / 2 ^ 60) \<noteq> lit 0"
    by (simp add: double_ops rd round_double_eq [where e = "- 60"])
  show "JulianDayFromJulianCentury (JulianCenturyFromJulianDay (lit (1867144 + 5 / 2 ^ 32))) =
     lit (1867144 + 6 / 2 ^ 32)"
    by (simp add: JulianDayFromJulianCentury_def JulianCenturyFromJulianDay_def
        DAYS_IN_CENTURY_eq JAN_1_2000_JD_eq double_ops rd
        round_double_eq [where e = 20] round_double_eq [where e = 19]
        round_double_eq [where e = 4])
  show "lit (1867144 + 5 / 2 ^ 32) \<noteq> lit (1867144 + 6 / 2 ^ 32)"
    by (simp add: double_ops rd round_double_eq [where e = 20])
qed

text \<open>
  C7, amended: the two conversions are inverse up to rounding. From a Julian Day to the
  century time and back, the Julian Day is returned exactly whenever it is a double within
  16 Julian centuries (584400 days) of J2000.0. From a century time of magnitude at most 16
  to the Julian Day and back, the result is finite and differs from the century time by at
  most \<open>2^-46\<close> century.
\<close>

theorem century_time_inverse_up_to_rounding:
  "(is_double jd \<and> \<bar>jd - 2451545\<bar> \<le> 584400 \<longrightarrow>
      JulianDayFromJulianCentury (JulianCenturyFromJulianDay (Fin jd)) = Fin jd) \<and>
   (\<bar>t\<bar> \<le> 16 \<longrightarrow>
      (\<exists>r. JulianCenturyFromJulianDay (JulianDayFromJulianCentury (Fin t)) = Fin r \<and>
           \<bar>r - t\<bar> \<le> 1 / 2 ^ 46))"
  using day_roundtrip [of jd] century_roundtrip [of t] by blast

theorem century_time_inverse_up_to_rounding_witness:
  "is_double 2451258.75 \<and> \<bar>2451258.75 - 2451545\<bar> \<le> (584400 :: real) \<and>
   JulianDayFromJulianCentury (JulianCenturyFromJulianDay (Fin 2451258.75)) = Fin 2451258.75 \<and>
   \<bar>1 / 2 ^ 60\<bar> \<le> (16 :: real) \<and>
   (\<exists>r. JulianCenturyFromJulianDay (JulianDayFromJulianCentury (Fin (1 / 2 ^ 60))) = Fin r \<and>
        \<bar>r - 1 / 2 ^ 60\<bar> \<le> 1 / 2 ^ 46)"
proof -
  have a: "is_double 2451258.75"
    by (simp add: is_double_def rd round_double_eq [where e = 21])
  have b: "\<bar>2451258.75 - 2451545\<bar> \<le> (584400 :: real)"
    by simp
  have c: "\<bar>1 / 2 ^ 60\<bar> \<le> (16 :: real)"
    by simp
  show ?thesis
    using century_time_inverse_up_to_rounding [of "2451258.75" "1 / 2 ^ 60"] a b c
    by blast
qed

section \<open>The equation of center\<close>

text \<open>
  C8. The convenience form \<^verbatim>\<open>EquationOfCenterSun(T)\<close> returns the very double that the
  general form \<^verbatim>\<open>EquationOfCenterSunEx(T, M)\<close> returns for the mean anomaly
  \<open>M = GeometricMeanAnomalySun(T)\<close>, whatever the sine of the library is.
\<close>

theorem EquationOfCenterSun_agrees:
  "EquationOfCenterSun L T = EquationOfCenterSunEx L T (GeometricMeanAnomalySun T)"
  by (simp add: EquationOfCenterSun_def)

section \<open>Degrees, minutes and seconds of 121.135\<close>

text \<open>
  C9. \<^verbatim>\<open>D2DMS(121.1350000)\<close> returns 121 degrees, 8 minutes and 6.0 seconds exactly: the
  double nearest to 121.135 lies just above it, its fractional part times 3600000 is
  486000.0000000184, which the conversion to \<^verbatim>\<open>long\<close> cuts to 486000 milliseconds of
  arc. The degrees are cut toward zero, as the result for the opposite angle shows.
\<close>

theorem D2DMS_121_135:
  "D2DMS (lit 121.1350000) = Some (121, 8, lit 6.0) \<and>
   D2DMS (lit (- 121.1350000)) = Some (- 121, - 8, lit (- 6.0))"
  by (simp add: D2DMS_def double_to_int_def double_to_long_def trunc_real_def c_div_def
      double_ops rd round_double_eq [where e = 6] round_double_eq [where e = "- 3"]
      round_double_eq [where e = 21] round_double_eq [where e = 18]
      round_double_eq [where e = 12] round_double_eq [where e = 9]
      round_double_eq [where e = 2])

section \<open>Normalising an angle\<close>

text \<open>
  C3. The claim: the result of \<^verbatim>\<open>NormalizeDegrees\<close> lies in \<open>[0, 360)\<close>. The first loop
  runs while \<^verbatim>\<open>degrees > 360.0\<close>, so 360.0 itself is returned as it is, and 720.0 is
  reduced to 360.0 and no further.
\<close>

theorem NormalizeDegrees_360:
  "NormalizeDegrees (lit 360.0) = Some (lit 360.0) \<and>
   NormalizeDegrees (lit 720.0) = Some (lit 360.0) \<and>
   \<not> lit 360.0 < lit 360.0"
  by (simp add: NormalizeDegrees_def NormalizeDegrees_down.simps NormalizeDegrees_up.simps
      double_ops rd round_double_eq [where e = 8] round_double_eq [where e = 9])

lemma two_power_100:
  "lit 1267650600228229401496703205376 = Fin 1267650600228229401496703205376"
  "lit 360.0 < Fin 1267650600228229401496703205376"
  "Fin 1267650600228229401496703205376 - lit 360.0 = Fin 1267650600228229401496703205376"
  by (simp_all add: double_ops rd round_double_eq [where e = 100]
      round_double_eq [where e = 8] round_double_eq [where e = 99])

lemma NormalizeDegrees_down_diverges:
  "NormalizeDegrees_down (Fin 1267650600228229401496703205376) = None"
proof -
  have "x \<noteq> Fin 1267650600228229401496703205376"
    if "NormalizeDegrees_down x = Some y" for x y
  proof (rule NormalizeDegrees_down.raw_induct
      [where P = "\<lambda>x y. x \<noteq> Fin 1267650600228229401496703205376", OF _ that])
    fix f x y
    assume IH: "\<And>x y. f x = Some y \<Longrightarrow> x \<noteq> Fin 1267650600228229401496703205376"
      and step: "(if lit 360.0 < x then f (x - lit 360.0) else Some x) = Some y"
    show "x \<noteq> Fin 1267650600228229401496703205376"
    proof
      assume "x = Fin 1267650600228229401496703205376"
      with step have "f (Fin 1267650600228229401496703205376) = Some y"
        by (simp only: two_power_100 if_True)
      with IH show False by blast
    qed
  qed
  then show ?thesis
    by (cases "NormalizeDegrees_down (Fin 1267650600228229401496703205376)") auto
qed

text \<open>
  C10. The claim: \<^verbatim>\<open>NormalizeDegrees\<close> returns for every finite input. For the double
  \<open>2^100 = 1267650600228229401496703205376\<close> the difference \<^verbatim>\<open>degrees - 360.0\<close> rounds
  back to \<open>2^100\<close> (the doubles below \<open>2^100\<close> are \<open>2^47\<close> apart), so the first loop
  never ends.
\<close>

theorem NormalizeDegrees_diverges:
  "NormalizeDegrees (lit 1267650600228229401496703205376) = None"
  by (simp add: NormalizeDegrees_def two_power_100 NormalizeDegrees_down_diverges)

section \<open>The event time\<close>

text \<open>
  C4. \<^verbatim>\<open>UTCForSolarAngle\<close> is the fixed two-pass scheme of the specification: one
  pass is \<open>720 - 4 * H(degrees) - equationOfTime(T)\<close>, with the equation of time and the
  declination at the century time of the Julian Day it is given and \<open>H\<close> negated when
  \<^verbatim>\<open>rise\<close> is 0, and the value returned is the same pass evaluated once more at
  \<open>jd + firstPassMinutes / 1440\<close>.
\<close>

theorem UTCForSolarAngle_two_pass:
  "UTCForSolarAngleAux L rise jd latitudeRad angleRad =
     spec_pass L (rise \<noteq> 0) jd latitudeRad angleRad \<and>
   UTCForSolarAngle L rise jd latitude angle =
     spec_utcForSolarAngle L (rise \<noteq> 0) jd latitude angle"
  by (simp add: UTCForSolarAngle_def UTCForSolarAngleAux_def spec_utcForSolarAngle_def
      spec_pass_def spec_hour_angle_def LocalHourAngleSunRad_def cosHA_def MIN_PER_DAY_def
      RAD2DEG_def RADEG_def DEG2RAD_def DEGRAD_def M_PI_def Let_def)

section \<open>Enclosures\<close>

text \<open>
  Interval arithmetic on doubles: from enclosures of the operands, an enclosure of the
  rounded result, provided its two ends are doubles.
\<close>

lemma bnd_round:
  assumes "a \<le> v" and "v \<le> b" and "is_double a" and "is_double b"
  shows "bnd (round_double v) a b"
  using round_double_between [OF assms] by (simp add: bnd_def)

lemma bnd_weaken: "bnd x a b \<Longrightarrow> a' \<le> a \<Longrightarrow> b \<le> b' \<Longrightarrow> bnd x a' b'"
  by (auto simp: bnd_def)

lemma bnd_Fin: "a \<le> r \<Longrightarrow> r \<le> b \<Longrightarrow> bnd (Fin r) a b"
  by (simp add: bnd_def)

lemma bnd_lit:
  assumes "a \<le> c" and "c \<le> b" and "is_double a" and "is_double b"
  shows "bnd (lit c) a b"
  unfolding lit_def using assms by (rule bnd_round)

lemma bnd_add:
  assumes "bnd x a b" and "bnd y c d" and "lo \<le> a + c" and "b + d \<le> hi"
    and "is_double lo" and "is_double hi"
  shows "bnd (x + y) lo hi"
proof -
  obtain r s where x: "x = Fin r" "a \<le> r" "r \<le> b" and y: "y = Fin s" "c \<le> s" "s \<le> d"
    using assms(1,2) by (auto simp: bnd_def)
  have "bnd (round_double (r + s)) lo hi"
    using x y assms(3,4) by (intro bnd_round assms(5,6)) simp_all
  then show ?thesis by (simp add: x y plus_double_def)
qed

lemma bnd_sub:
  assumes "bnd x a b" and "bnd y c d" and "lo \<le> a - d" and "b - c \<le> hi"
    and "is_double lo" and "is_double hi"
  shows "bnd (x - y) lo hi"
proof -
  obtain r s where x: "x = Fin r" "a \<le> r" "r \<le> b" and y: "y = Fin s" "c \<le> s" "s \<le> d"
    using assms(1,2) by (auto simp: bnd_def)
  have "bnd (round_double (r + - s)) lo hi"
    using x y assms(3,4) by (intro bnd_round assms(5,6)) simp_all
  then show ?thesis by (simp add: x y minus_double_def)
qed

lemma bnd_neg: "bnd x a b \<Longrightarrow> bnd (- x) (- b) (- a)"
  by (auto simp: bnd_def uminus_double_def)

lemma mult_lower:
  fixes a b c d r s lo :: real
  assumes "a \<le> r" "r \<le> b" "c \<le> s" "s \<le> d"
    and "lo \<le> a * c" "lo \<le> a * d" "lo \<le> b * c" "lo \<le> b * d"
  shows "lo \<le> r * s"
proof -
  have as: "lo \<le> a * s"
  proof (cases "0 \<le> a")
    case True
    then have "a * c \<le> a * s" using assms(3) by (rule mult_left_mono [rotated])
    then show ?thesis using assms(5) by linarith
  next
    case False
    then have "a * d \<le> a * s" using assms(4) by (intro mult_left_mono_neg) simp_all
    then show ?thesis using assms(6) by linarith
  qed
  have bs: "lo \<le> b * s"
  proof (cases "0 \<le> b")
    case True
    then have "b * c \<le> b * s" using assms(3) by (rule mult_left_mono [rotated])
    then show ?thesis using assms(7) by linarith
  next
    case False
    then have "b * d \<le> b * s" using assms(4) by (intro mult_left_mono_neg) simp_all
    then show ?thesis using assms(8) by linarith
  qed
  show ?thesis
  proof (cases "0 \<le> s")
    case True
    then have "a * s \<le> r * s" using assms(1) by (intro mult_right_mono) simp_all
    then show ?thesis using as by linarith
  next
    case False
    then have "b * s \<le> r * s" using assms(2) by (intro mult_right_mono_neg) simp_all
    then show ?thesis using bs by linarith
  qed
qed

lemma mult_upper:
  fixes a b c d r s hi :: real
  assumes "a \<le> r" "r \<le> b" "c \<le> s" "s \<le> d"
    and "a * c \<le> hi" "a * d \<le> hi" "b * c \<le> hi" "b * d \<le> hi"
  shows "r * s \<le> hi"
proof -
  have "- hi \<le> (- r) * s"
    using assms by (intro mult_lower [of "- b" "- r" "- a" c s d]) simp_all
  then show ?thesis by simp
qed

lemma bnd_mul:
  assumes "bnd x a b" and "bnd y c d"
    and "lo \<le> a * c" "lo \<le> a * d" "lo \<le> b * c" "lo \<le> b * d"
    and "a * c \<le> hi" "a * d \<le> hi" "b * c \<le> hi" "b * d \<le> hi"
    and "is_double lo" and "is_double hi"
  shows "bnd (x * y) lo hi"
proof -
  obtain r s where x: "x = Fin r" "a \<le> r" "r \<le> b" and y: "y = Fin s" "c \<le> s" "s \<le> d"
    using assms(1,2) by (auto simp: bnd_def)
  have "lo \<le> r * s"
    using x(2,3) y(2,3) assms(3-6) by (rule mult_lower)
  moreover have "r * s \<le> hi"
    using x(2,3) y(2,3) assms(7-10) by (rule mult_upper)
  ultimately have "bnd (round_double (r * s)) lo hi"
    using assms(11,12) by (rule bnd_round)
  then show ?thesis by (simp add: x y times_double_def)
qed

lemma bnd_div:
  assumes "bnd x a b" and "bnd y c d" and "0 < c \<or> d < 0"
    and "lo \<le> a / c" "lo \<le> a / d" "lo \<le> b / c" "lo \<le> b / d"
    and "a / c \<le> hi" "a / d \<le> hi" "b / c \<le> hi" "b / d \<le> hi"
    and "is_double lo" and "is_double hi"
  shows "bnd (x / y) lo hi"
proof -
  obtain r s where x: "x = Fin r" "a \<le> r" "r \<le> b" and y: "y = Fin s" "c \<le> s" "s \<le> d"
    using assms(1,2) by (auto simp: bnd_def)
  have s0: "s \<noteq> 0" using assms(3) y by auto
  have i: "1 / d \<le> 1 / s" "1 / s \<le> 1 / c"
    using assms(3) y(2,3) by (auto simp: divide_simps mult_less_0_iff zero_less_mult_iff)
  have "lo \<le> r * (1 / s)"
    using x(2,3) i assms(4-7) by (intro mult_lower [of a r b "1 / d" "1 / s" "1 / c"]) simp_all
  moreover have "r * (1 / s) \<le> hi"
    using x(2,3) i assms(8-11) by (intro mult_upper [of a r b "1 / d" "1 / s" "1 / c"]) simp_all
  ultimately have "bnd (round_double (r / s)) lo hi"
    using assms(12,13) by (intro bnd_round) simp_all
  then show ?thesis using s0 by (simp add: x y divide_double_def)
qed

subsection \<open>The correctly rounded library\<close>

text \<open>
  Sine and cosine differ from their Taylor polynomials by at most the first omitted term,
  and they change by at most the change of their argument.
\<close>

lemma sin_poly_sum: "sin_poly n x = (\<Sum>m<2 * n + 1. sin_coeff m * x ^ m)"
proof (induction n)
  case 0
  show ?case by (simp add: sin_coeff_def)
next
  case (Suc n)
  have "(\<Sum>m<2 * Suc n + 1. sin_coeff m * x ^ m) =
      (\<Sum>m<2 * n + 1. sin_coeff m * x ^ m) + sin_coeff (2 * n + 1) * x ^ (2 * n + 1) +
      sin_coeff (2 * n + 2) * x ^ (2 * n + 2)"
    by simp
  also have "sin_coeff (2 * n + 2) = 0"
    by (simp add: sin_coeff_def)
  also have "sin_coeff (2 * n + 1) = (- 1) ^ n / fact (2 * n + 1)"
    by (simp add: sin_coeff_def)
  finally show ?case
    by (simp add: Suc.IH)
qed

lemma cos_poly_sum: "cos_poly n x = (\<Sum>m<2 * n. cos_coeff m * x ^ m)"
proof (induction n)
  case 0
  show ?case by simp
next
  case (Suc n)
  have "(\<Sum>m<2 * Suc n. cos_coeff m * x ^ m) =
      (\<Sum>m<2 * n. cos_coeff m * x ^ m) + cos_coeff (2 * n) * x ^ (2 * n) +
      cos_coeff (2 * n + 1) * x ^ (2 * n + 1)"
    by simp
  also have "cos_coeff (2 * n + 1) = 0"
    by (simp add: cos_coeff_def)
  also have "cos_coeff (2 * n) = (- 1) ^ n / fact (2 * n)"
    by (simp add: cos_coeff_def)
  finally show ?case
    by (simp add: Suc.IH)
qed

lemma sin_taylor: "\<bar>sin x - sin_poly n x\<bar> \<le> \<bar>x\<bar> ^ (2 * n + 1) / fact (2 * n + 1)"
  using Maclaurin_sin_bound [of x "2 * n + 1"]
  by (simp add: sin_poly_sum divide_inverse mult.commute)

lemma cos_taylor: "\<bar>cos x - cos_poly n x\<bar> \<le> \<bar>x\<bar> ^ (2 * n) / fact (2 * n)"
proof -
  obtain t where
    "cos x = (\<Sum>m<2 * n. cos_coeff m * x ^ m) + (cos (t + 1 / 2 * real (2 * n) * pi) / fact (2 * n)) * x ^ (2 * n)"
    using Maclaurin_cos_expansion [of x "2 * n"] by blast
  then have "cos x - cos_poly n x = cos (t + 1 / 2 * real (2 * n) * pi) * (x ^ (2 * n) / fact (2 * n))"
    by (simp add: cos_poly_sum)
  then have "\<bar>cos x - cos_poly n x\<bar> = \<bar>cos (t + 1 / 2 * real (2 * n) * pi)\<bar> * (\<bar>x\<bar> ^ (2 * n) / fact (2 * n))"
    by (simp add: abs_mult power_abs)
  also have "\<dots> \<le> 1 * (\<bar>x\<bar> ^ (2 * n) / fact (2 * n))"
    by (intro mult_right_mono) simp_all
  finally show ?thesis by simp
qed

lemma sin_lipschitz: "\<bar>sin x - sin m\<bar> \<le> \<bar>x - m\<bar>" for x m :: real
proof -
  have "\<bar>sin x - sin m\<bar> = 2 * (\<bar>sin ((x - m) / 2)\<bar> * \<bar>cos ((x + m) / 2)\<bar>)"
    by (simp add: sin_diff_sin abs_mult)
  also have "\<dots> \<le> 2 * (\<bar>(x - m) / 2\<bar> * 1)"
    by (intro mult_left_mono mult_mono abs_sin_x_le_abs_x) simp_all
  finally show ?thesis by simp
qed

lemma cos_lipschitz: "\<bar>cos x - cos m\<bar> \<le> \<bar>x - m\<bar>" for x m :: real
proof -
  have "\<bar>cos x - cos m\<bar> = 2 * (\<bar>sin ((x + m) / 2)\<bar> * \<bar>sin ((m - x) / 2)\<bar>)"
    by (simp add: cos_diff_cos abs_mult)
  also have "\<dots> \<le> 2 * (1 * \<bar>(m - x) / 2\<bar>)"
    by (intro mult_left_mono mult_mono abs_sin_x_le_abs_x) simp_all
  finally show ?thesis by simp
qed

lemma sin_enclosure:
  assumes "m - w \<le> x" and "x \<le> m + w"
  shows "sin_poly n m - (\<bar>m\<bar> ^ (2 * n + 1) / fact (2 * n + 1) + w) \<le> sin x"
    and "sin x \<le> sin_poly n m + (\<bar>m\<bar> ^ (2 * n + 1) / fact (2 * n + 1) + w)"
proof -
  have "\<bar>x - m\<bar> \<le> w" using assms by simp
  then have "\<bar>sin x - sin m\<bar> \<le> w" using sin_lipschitz [of x m] by simp
  then show "sin_poly n m - (\<bar>m\<bar> ^ (2 * n + 1) / fact (2 * n + 1) + w) \<le> sin x"
    and "sin x \<le> sin_poly n m + (\<bar>m\<bar> ^ (2 * n + 1) / fact (2 * n + 1) + w)"
    using sin_taylor [of m n] by linarith+
qed

lemma cos_enclosure:
  assumes "m - w \<le> x" and "x \<le> m + w"
  shows "cos_poly n m - (\<bar>m\<bar> ^ (2 * n) / fact (2 * n) + w) \<le> cos x"
    and "cos x \<le> cos_poly n m + (\<bar>m\<bar> ^ (2 * n) / fact (2 * n) + w)"
proof -
  have "\<bar>x - m\<bar> \<le> w" using assms by simp
  then have "\<bar>cos x - cos m\<bar> \<le> w" using cos_lipschitz [of x m] by simp
  then show "cos_poly n m - (\<bar>m\<bar> ^ (2 * n) / fact (2 * n) + w) \<le> cos x"
    and "cos x \<le> cos_poly n m + (\<bar>m\<bar> ^ (2 * n) / fact (2 * n) + w)"
    using cos_taylor [of m n] by linarith+
qed

lemma sin_poly_numeral [simp]:
  "sin_poly (numeral k) x =
     sin_poly (pred_numeral k) x +
     (- 1) ^ pred_numeral k * x ^ (2 * pred_numeral k + 1) / fact (2 * pred_numeral k + 1)"
  by (simp add: numeral_eq_Suc)

lemma cos_poly_numeral [simp]:
  "cos_poly (numeral k) x =
     cos_poly (pred_numeral k) x +
     (- 1) ^ pred_numeral k * x ^ (2 * pred_numeral k) / fact (2 * pred_numeral k)"
  by (simp add: numeral_eq_Suc)

lemma sin_poly_1 [simp]: "sin_poly 1 x = x"
  using sin_poly.simps(2) [of 0 x] by simp

lemma cos_poly_1 [simp]: "cos_poly 1 x = 1"
  using cos_poly.simps(2) [of 0 x] by simp

lemmas taylor_eval = fact_numeral power_divide

lemma is_double_1: "is_double 1" and is_double_m1: "is_double (- 1)"
  and is_double_0: "is_double 0" and is_double_4: "is_double 4"
  by (simp_all add: is_double_def pow2_def round_half_even_def round_double_0
      round_double_eq [where e = 0] round_double_eq [where e = 2])

lemma bnd_sin_crude:
  assumes "bnd x a b"
  shows "bnd (c_sin libm_exact x) (- 1) 1"
proof -
  obtain r where x: "x = Fin r" using assms by (auto simp: bnd_def)
  have "bnd (round_double (sin r)) (- 1) 1"
    by (intro bnd_round is_double_1 is_double_m1) simp_all
  then show ?thesis by (simp add: x libm_exact_def)
qed

lemma bnd_cos_crude:
  assumes "bnd x a b"
  shows "bnd (c_cos libm_exact x) (- 1) 1"
proof -
  obtain r where x: "x = Fin r" using assms by (auto simp: bnd_def)
  have "bnd (round_double (cos r)) (- 1) 1"
    by (intro bnd_round is_double_1 is_double_m1) simp_all
  then show ?thesis by (simp add: x libm_exact_def)
qed

lemma bnd_sin:
  assumes "bnd x a b" and "m - w \<le> a" and "b \<le> m + w"
    and "lo \<le> max (- 1) (sin_poly n m - (\<bar>m\<bar> ^ (2 * n + 1) / fact (2 * n + 1) + w))"
    and "min 1 (sin_poly n m + (\<bar>m\<bar> ^ (2 * n + 1) / fact (2 * n + 1) + w)) \<le> hi"
    and "is_double lo" and "is_double hi"
  shows "bnd (c_sin libm_exact x) lo hi"
proof -
  obtain r where x: "x = Fin r" "a \<le> r" "r \<le> b" using assms(1) by (auto simp: bnd_def)
  have r: "m - w \<le> r" "r \<le> m + w" using x assms(2,3) by simp_all
  have "- 1 \<le> sin r" "sin r \<le> 1" by simp_all
  then have "bnd (round_double (sin r)) lo hi"
    using sin_enclosure [OF r, of n] assms(4,5) by (intro bnd_round assms(6,7)) linarith+
  then show ?thesis by (simp add: x libm_exact_def)
qed

lemma bnd_cos:
  assumes "bnd x a b" and "m - w \<le> a" and "b \<le> m + w"
    and "lo \<le> max (- 1) (cos_poly n m - (\<bar>m\<bar> ^ (2 * n) / fact (2 * n) + w))"
    and "min 1 (cos_poly n m + (\<bar>m\<bar> ^ (2 * n) / fact (2 * n) + w)) \<le> hi"
    and "is_double lo" and "is_double hi"
  shows "bnd (c_cos libm_exact x) lo hi"
proof -
  obtain r where x: "x = Fin r" "a \<le> r" "r \<le> b" using assms(1) by (auto simp: bnd_def)
  have r: "m - w \<le> r" "r \<le> m + w" using x assms(2,3) by simp_all
  have "- 1 \<le> cos r" "cos r \<le> 1" by simp_all
  then have "bnd (round_double (cos r)) lo hi"
    using cos_enclosure [OF r, of n] assms(4,5) by (intro bnd_round assms(6,7)) linarith+
  then show ?thesis by (simp add: x libm_exact_def)
qed

text \<open>The tangent of an angle in the first quadrant, enclosed by the quotient of the
  enclosures of sine and cosine.\<close>

lemma bnd_tan:
  assumes "bnd x a b" and "m - w \<le> a" and "b \<le> m + w"
    and "0 \<le> sin_poly n m - (\<bar>m\<bar> ^ (2 * n + 1) / fact (2 * n + 1) + w)"
    and "0 < cos_poly n m - (\<bar>m\<bar> ^ (2 * n) / fact (2 * n) + w)"
    and "lo \<le> (sin_poly n m - (\<bar>m\<bar> ^ (2 * n + 1) / fact (2 * n + 1) + w)) /
              (cos_poly n m + (\<bar>m\<bar> ^ (2 * n) / fact (2 * n) + w))"
    and "(sin_poly n m + (\<bar>m\<bar> ^ (2 * n + 1) / fact (2 * n + 1) + w)) /
         (cos_poly n m - (\<bar>m\<bar> ^ (2 * n) / fact (2 * n) + w)) \<le> hi"
    and "is_double lo" and "is_double hi"
  shows "bnd (c_tan libm_exact x) lo hi"
proof -
  obtain r where x: "x = Fin r" "a \<le> r" "r \<le> b" using assms(1) by (auto simp: bnd_def)
  have r: "m - w \<le> r" "r \<le> m + w" using x assms(2,3) by simp_all
  define sl where "sl = sin_poly n m - (\<bar>m\<bar> ^ (2 * n + 1) / fact (2 * n + 1) + w)"
  define sh where "sh = sin_poly n m + (\<bar>m\<bar> ^ (2 * n + 1) / fact (2 * n + 1) + w)"
  define cl where "cl = cos_poly n m - (\<bar>m\<bar> ^ (2 * n) / fact (2 * n) + w)"
  define ch where "ch = cos_poly n m + (\<bar>m\<bar> ^ (2 * n) / fact (2 * n) + w)"
  have s: "sl \<le> sin r" "sin r \<le> sh"
    using sin_enclosure [OF r, of n] by (simp_all add: sl_def sh_def)
  have c: "cl \<le> cos r" "cos r \<le> ch"
    using cos_enclosure [OF r, of n] by (simp_all add: cl_def ch_def)
  have pos: "0 \<le> sl" "0 < cl"
    using assms(4,5) by (simp_all add: sl_def cl_def)
  have "sl / ch \<le> sin r / ch"
    using s c pos by (intro divide_right_mono) simp_all
  also have "sin r / ch \<le> sin r / cos r"
    using s c pos by (intro divide_left_mono) (simp_all add: mult_pos_pos)
  finally have lo: "lo \<le> tan r"
    using assms(6) by (simp add: tan_def sl_def ch_def)
  have "sin r / cos r \<le> sh / cos r"
    using s c pos by (intro divide_right_mono) simp_all
  also have "sh / cos r \<le> sh / cl"
    using s c pos by (intro divide_left_mono) (simp_all add: mult_pos_pos)
  finally have hi: "tan r \<le> hi"
    using assms(7) by (simp add: tan_def sh_def cl_def)
  have "bnd (round_double (tan r)) lo hi"
    using lo hi by (intro bnd_round assms(8,9))
  then show ?thesis by (simp add: x libm_exact_def)
qed

text \<open>The inverse sine between two angles of magnitude at most 1, whose sines enclose the
  argument.\<close>

lemma bnd_asin:
  assumes "bnd x a b" and "- 1 \<le> a" and "b \<le> 1" and "- 1 \<le> lo" and "hi \<le> 1"
    and "lo \<le> 1" and "- 1 \<le> hi"
    and "sin_poly n lo + \<bar>lo\<bar> ^ (2 * n + 1) / fact (2 * n + 1) \<le> a"
    and "b \<le> sin_poly n hi - \<bar>hi\<bar> ^ (2 * n + 1) / fact (2 * n + 1)"
    and "is_double lo" and "is_double hi"
  shows "bnd (c_asin libm_exact x) lo hi"
proof -
  obtain r where x: "x = Fin r" "a \<le> r" "r \<le> b" using assms(1) by (auto simp: bnd_def)
  have r1: "- 1 \<le> r" "r \<le> 1" using x assms(2,3) by simp_all
  have half: "1 \<le> pi / 2" using pi_ge_two by simp
  have "sin lo \<le> a"
    using sin_taylor [of lo n] assms(8) by linarith
  then have "sin lo \<le> r" using x by simp
  moreover have "- 1 \<le> sin lo" by simp
  ultimately have "arcsin (sin lo) \<le> arcsin r"
    using r1 by (intro arcsin_le_arcsin) simp_all
  moreover have "arcsin (sin lo) = lo"
    using assms(4,6) half by (intro arcsin_sin) linarith+
  ultimately have lo: "lo \<le> arcsin r" by simp
  have "b \<le> sin hi"
    using sin_taylor [of hi n] assms(9) by linarith
  then have "r \<le> sin hi" using x by simp
  then have "arcsin r \<le> arcsin (sin hi)"
    using r1 by (intro arcsin_le_arcsin) simp_all
  moreover have "arcsin (sin hi) = hi"
    using assms(5,7) half by (intro arcsin_sin) linarith+
  ultimately have hi: "arcsin r \<le> hi" by simp
  have "bnd (round_double (arcsin r)) lo hi"
    using lo hi by (intro bnd_round assms(10,11))
  then show ?thesis using r1 by (simp add: x libm_exact_def)
qed

text \<open>The inverse cosine between two angles of \<open>[0, 2]\<close> whose cosines enclose the
  argument; and, with no further information, between 0 and 4.\<close>

lemma bnd_acos:
  assumes "bnd x a b" and "- 1 \<le> a" and "b \<le> 1" and "0 \<le> lo" and "hi \<le> 2"
    and "lo \<le> 2" and "0 \<le> hi"
    and "b \<le> cos_poly n lo - \<bar>lo\<bar> ^ (2 * n) / fact (2 * n)"
    and "cos_poly n hi + \<bar>hi\<bar> ^ (2 * n) / fact (2 * n) \<le> a"
    and "is_double lo" and "is_double hi"
  shows "bnd (c_acos libm_exact x) lo hi"
proof -
  obtain r where x: "x = Fin r" "a \<le> r" "r \<le> b" using assms(1) by (auto simp: bnd_def)
  have r1: "- 1 \<le> r" "r \<le> 1" using x assms(2,3) by simp_all
  have "b \<le> cos lo"
    using cos_taylor [of lo n] assms(8) by linarith
  then have "r \<le> cos lo" using x by simp
  then have "arccos (cos lo) \<le> arccos r"
    using r1 by (intro arccos_le_arccos) simp_all
  moreover have "arccos (cos lo) = lo"
    using assms(4,6) pi_ge_two by (intro arccos_cos) linarith+
  ultimately have lo: "lo \<le> arccos r" by simp
  have "cos hi \<le> a"
    using cos_taylor [of hi n] assms(9) by linarith
  then have "cos hi \<le> r" using x by simp
  then have "arccos r \<le> arccos (cos hi)"
    using r1 by (intro arccos_le_arccos) simp_all
  moreover have "arccos (cos hi) = hi"
    using assms(5,7) pi_ge_two by (intro arccos_cos) linarith+
  ultimately have hi: "arccos r \<le> hi" by simp
  have "bnd (round_double (arccos r)) lo hi"
    using lo hi by (intro bnd_round assms(10,11))
  then show ?thesis using r1 by (simp add: x libm_exact_def)
qed

lemma bnd_acos_crude:
  assumes "bnd x a b" and "- 1 \<le> a" and "b \<le> 1"
  shows "bnd (c_acos libm_exact x) 0 4"
proof -
  obtain r where x: "x = Fin r" "a \<le> r" "r \<le> b" using assms(1) by (auto simp: bnd_def)
  have r1: "- 1 \<le> r" "r \<le> 1" using x assms(2,3) by simp_all
  have "0 \<le> arccos r" "arccos r \<le> 4"
    using arccos_bounded [OF r1] pi_less_4 by simp_all
  then have "bnd (round_double (arccos r)) 0 4"
    by (intro bnd_round is_double_0 is_double_4)
  then show ?thesis using r1 by (simp add: x libm_exact_def)
qed

lemma bnd_below_unit:
  assumes "bnd c a b" and "b < - 1"
  shows "\<not> in_unit_interval c"
proof -
  obtain r where c: "c = Fin r" "r \<le> b" using assms(1) by (auto simp: bnd_def)
  have "lit (- 1.0) = Fin (- 1)"
    using is_double_m1 by (simp add: lit_def is_double_def)
  then show ?thesis
    using c assms(2) by (simp add: in_unit_interval_def less_eq_double_def)
qed

lemma bnd_above_unit:
  assumes "bnd c a b" and "1 < a"
  shows "\<not> in_unit_interval c"
proof -
  obtain r where c: "c = Fin r" "a \<le> r" using assms(1) by (auto simp: bnd_def)
  have "lit 1.0 = Fin 1"
    using is_double_1 by (simp add: lit_def is_double_def)
  then show ?thesis
    using c assms(2) by (simp add: in_unit_interval_def less_eq_double_def)
qed

section \<open>A day at the March equinox of 1999, near the pole\<close>

text \<open>
  The enclosures that follow evaluate the model, with the correctly rounded library
  \<open>libm_exact\<close>, for the Julian Day 2451258.75 (21 March 1999, 6 h UT), the zenith angle
  90 degrees and the latitudes 89.75 and 89.95 degrees north; the last of them encloses
  the cosine of the hour angle in a polar night (latitude 1.4 rad, declination -0.4 rad,
  zenith angle 1.585 rad). Every step encloses one operation of the source; the numbers
  are dyadic rationals, rounded outwards.
\<close>

lemmas enc = is_double_def pow2_def round_half_even_def round_double_0 fact_numeral power_divide

lemma int_to_double_2: "bnd (int_to_double 2) 2 2"
  unfolding int_to_double_def
  by (rule bnd_round) (simp_all add: enc round_double_eq [where e = 1])

lemma UTCForSolarAngle_unfold:
  "UTCForSolarAngle L rise jd latitude angle =
     UTCForSolarAngleAux L rise
       (jd + UTCForSolarAngleAux L rise jd (DEG2RAD latitude) (DEG2RAD angle) / MIN_PER_DAY)
       (DEG2RAD latitude) (DEG2RAD angle)"
  by (simp add: UTCForSolarAngle_def Let_def)

lemma UTCForSolarAngleAux_rise:
  "UTCForSolarAngleAux L 1 jd latitudeRad angleRad =
     lit 720.0 -
     (lit 4.0 * RAD2DEG (LocalHourAngleSunRad L latitudeRad
        (SunDeclinationRad L (JulianCenturyFromJulianDay jd)) angleRad)) -
     EquationOfTime L (JulianCenturyFromJulianDay jd)"
  by (simp add: UTCForSolarAngleAux_def Let_def)

lemma UTCForSolarAngleAux_set:
  "UTCForSolarAngleAux L 0 jd latitudeRad angleRad =
     lit 720.0 -
     (lit 4.0 * RAD2DEG (- LocalHourAngleSunRad L latitudeRad
        (SunDeclinationRad L (JulianCenturyFromJulianDay jd)) angleRad)) -
     EquationOfTime L (JulianCenturyFromJulianDay jd)"
  by (simp add: UTCForSolarAngleAux_def Let_def)

lemma lit_0_0000001267: "bnd (lit 0.0000001267) (2282424291 / 2 ^ 54) (570606073 / 2 ^ 52)"
  by (rule bnd_lit) (simp_all add: enc round_double_eq [where e = "- 23"])

lemma lit_0_000014: "bnd (lit 0.000014) (3940649673 / 2 ^ 48) (1970324837 / 2 ^ 47)"
  by (rule bnd_lit) (simp_all add: enc round_double_eq [where e = "- 17"])

lemma lit_0_000042037: "bnd (lit 0.000042037) (1479045449 / 2 ^ 45) (2958090899 / 2 ^ 46)"
  by (rule bnd_lit) (simp_all add: enc round_double_eq [where e = "- 15"])

lemma lit_0_000101: "bnd (lit 0.000101) (888405395 / 2 ^ 43) (3553621581 / 2 ^ 45)"
  by (rule bnd_lit) (simp_all add: enc round_double_eq [where e = "- 14"])

lemma lit_0_0001537: "bnd (lit 0.0001537) (2703918995 / 2 ^ 44) (675979749 / 2 ^ 42)"
  by (rule bnd_lit) (simp_all add: enc round_double_eq [where e = "- 13"])

lemma lit_0_000289: "bnd (lit 0.000289) (2542070883 / 2 ^ 43) (635517721 / 2 ^ 41)"
  by (rule bnd_lit) (simp_all add: enc round_double_eq [where e = "- 12"])

lemma lit_0_0003032: "bnd (lit 0.0003032) (666743851 / 2 ^ 41) (2666975405 / 2 ^ 43)"
  by (rule bnd_lit) (simp_all add: enc round_double_eq [where e = "- 12"])

lemma lit_0_000569: "bnd (lit 0.000569) (156405529 / 2 ^ 38) (2502488465 / 2 ^ 42)"
  by (rule bnd_lit) (simp_all add: enc round_double_eq [where e = "- 11"])

lemma lit_0_00059: "bnd (lit 0.00059) (2594847441 / 2 ^ 42) (1297423721 / 2 ^ 41)"
  by (rule bnd_lit) (simp_all add: enc round_double_eq [where e = "- 11"])

lemma lit_0_001813: "bnd (lit 0.001813) (1993414581 / 2 ^ 40) (3986829163 / 2 ^ 41)"
  by (rule bnd_lit) (simp_all add: enc round_double_eq [where e = "- 10"])

lemma lit_0_00256: "bnd (lit 0.00256) (2814749767 / 2 ^ 40) (351843721 / 2 ^ 37)"
  by (rule bnd_lit) (simp_all add: enc round_double_eq [where e = "- 9"])

lemma lit_0_00478: "bnd (lit 0.00478) (1313916395 / 2 ^ 38) (2627832791 / 2 ^ 39)"
  by (rule bnd_lit) (simp_all add: enc round_double_eq [where e = "- 8"])

lemma lit_0_004817: "bnd (lit 0.004817) (2648173755 / 2 ^ 39) (662043439 / 2 ^ 37)"
  by (rule bnd_lit) (simp_all add: enc round_double_eq [where e = "- 8"])

lemma lit_0_016708634: "bnd (lit 0.016708634) (1148208585 / 2 ^ 36) (2296417171 / 2 ^ 37)"
  by (rule bnd_lit) (simp_all add: enc round_double_eq [where e = "- 6"])

lemma lit_0_019993: "bnd (lit 0.019993) (686954249 / 2 ^ 35) (2747816997 / 2 ^ 37)"
  by (rule bnd_lit) (simp_all add: enc round_double_eq [where e = "- 6"])

lemma lit_0_4: "bnd (lit 0.4) (858993459 / 2 ^ 31) (3435973837 / 2 ^ 33)"
  by (rule bnd_lit) (simp_all add: enc round_double_eq [where e = "- 2"])

lemma lit_0_5: "bnd (lit 0.5) (1 / 2 ^ 1) (1 / 2 ^ 1)"
  by (rule bnd_lit) (simp_all add: enc round_double_eq [where e = "- 1"])

lemma lit_1_25: "bnd (lit 1.25) (5 / 2 ^ 2) (5 / 2 ^ 2)"
  by (rule bnd_lit) (simp_all add: enc round_double_eq [where e = 0])

lemma lit_1_4: "bnd (lit 1.4) (3006477107 / 2 ^ 31) (751619277 / 2 ^ 29)"
  by (rule bnd_lit) (simp_all add: enc round_double_eq [where e = 0])

lemma lit_1_585: "bnd (lit 1.585) (1701880791 / 2 ^ 30) (3403761583 / 2 ^ 31)"
  by (rule bnd_lit) (simp_all add: enc round_double_eq [where e = 0])

lemma lit_1_914602: "bnd (lit 1.914602) (4111576487 / 2 ^ 31) (513947061 / 2 ^ 28)"
  by (rule bnd_lit) (simp_all add: enc round_double_eq [where e = 0])

lemma lit_2_0: "bnd (lit 2.0) 2 2"
  by (rule bnd_lit) (simp_all add: enc round_double_eq [where e = 1])

lemma lit_3_14159265358979323846: "bnd (lit 3.14159265358979323846) (1686629713 / 2 ^ 29) (3373259427 / 2 ^ 30)"
  by (rule bnd_lit) (simp_all add: enc round_double_eq [where e = 1])

lemma lit_4_0: "bnd (lit 4.0) 4 4"
  by (rule bnd_lit) (simp_all add: enc round_double_eq [where e = 2])

lemma lit_21_448: "bnd (lit 21.448) (1439350915 / 2 ^ 26) (2878701831 / 2 ^ 27)"
  by (rule bnd_lit) (simp_all add: enc round_double_eq [where e = 4])

lemma lit_23_0: "bnd (lit 23.0) 23 23"
  by (rule bnd_lit) (simp_all add: enc round_double_eq [where e = 4])

lemma lit_26_0: "bnd (lit 26.0) 26 26"
  by (rule bnd_lit) (simp_all add: enc round_double_eq [where e = 4])

lemma lit_46_8150: "bnd (lit 46.8150) (785425367 / 2 ^ 24) (3141701469 / 2 ^ 26)"
  by (rule bnd_lit) (simp_all add: enc round_double_eq [where e = 5])

lemma lit_60_0: "bnd (lit 60.0) 60 60"
  by (rule bnd_lit) (simp_all add: enc round_double_eq [where e = 5])

lemma lit_89_75: "bnd (lit 89.75) (359 / 2 ^ 2) (359 / 2 ^ 2)"
  by (rule bnd_lit) (simp_all add: enc round_double_eq [where e = 6])

lemma lit_89_95: "bnd (lit 89.95) (1509110579 / 2 ^ 24) (3018221159 / 2 ^ 25)"
  by (rule bnd_lit) (simp_all add: enc round_double_eq [where e = 6])

lemma lit_90_0: "bnd (lit 90.0) 90 90"
  by (rule bnd_lit) (simp_all add: enc round_double_eq [where e = 6])

lemma lit_125_04: "bnd (lit 125.04) (4195646177 / 2 ^ 25) (2097823089 / 2 ^ 24)"
  by (rule bnd_lit) (simp_all add: enc round_double_eq [where e = 6])

lemma lit_180_0: "bnd (lit 180.0) 180 180"
  by (rule bnd_lit) (simp_all add: enc round_double_eq [where e = 7])

lemma lit_280_46646: "bnd (lit 280.46646) (1176361595 / 2 ^ 22) (2352723191 / 2 ^ 23)"
  by (rule bnd_lit) (simp_all add: enc round_double_eq [where e = 8])

lemma lit_357_52911: "bnd (lit 357.52911) (93724111 / 2 ^ 18) (2999171553 / 2 ^ 23)"
  by (rule bnd_lit) (simp_all add: enc round_double_eq [where e = 8])

lemma lit_720_0: "bnd (lit 720.0) 720 720"
  by (rule bnd_lit) (simp_all add: enc round_double_eq [where e = 9])

lemma lit_1440_0: "bnd (lit 1440.0) 1440 1440"
  by (rule bnd_lit) (simp_all add: enc round_double_eq [where e = 10])

lemma lit_1934_136: "bnd (lit 1934.136) (1014044295 / 2 ^ 19) (4056177181 / 2 ^ 21)"
  by (rule bnd_lit) (simp_all add: enc round_double_eq [where e = 10])

lemma lit_35999_05029: "bnd (lit 35999.05029) (2359233759 / 2 ^ 16) (73726055 / 2 ^ 11)"
  by (rule bnd_lit) (simp_all add: enc round_double_eq [where e = 15])

lemma lit_36000_76983: "bnd (lit 36000.76983) (2359346451 / 2 ^ 16) (589836613 / 2 ^ 14)"
  by (rule bnd_lit) (simp_all add: enc round_double_eq [where e = 15])

lemma lit_36525_0: "bnd (lit 36525.0) 36525 36525"
  by (rule bnd_lit) (simp_all add: enc round_double_eq [where e = 15])

lemma lit_2451258_75: "bnd (lit 2451258.75) (9805035 / 2 ^ 2) (9805035 / 2 ^ 2)"
  by (rule bnd_lit) (simp_all add: enc round_double_eq [where e = 21])

lemma lit_2451545_0: "bnd (lit 2451545.0) 2451545 2451545"
  by (rule bnd_lit) (simp_all add: enc round_double_eq [where e = 21])

lemma bnd_M_PI:
  shows "bnd (M_PI) (1686629713 / 2 ^ 29) (3373259427 / 2 ^ 30)"
proof -
  show ?thesis
    unfolding M_PI_def
    by (rule lit_3_14159265358979323846)
qed

lemma bnd_DEGRAD:
  shows "bnd (DEGRAD) (1199381129 / 2 ^ 36) (599690565 / 2 ^ 35)"
proof -
  have h1: "bnd (M_PI / (lit 180.0)) (1199381129 / 2 ^ 36) (599690565 / 2 ^ 35)" (is "bnd ?x1 _ _")
    by (rule bnd_div [OF bnd_M_PI lit_180_0]) (simp_all add: enc round_double_eq [where e = "- 6"])
  show ?thesis
    unfolding DEGRAD_def
    by (rule h1)
qed

lemma bnd_RADEG:
  shows "bnd (RADEG) (1922527337 / 2 ^ 25) (961263669 / 2 ^ 24)"
proof -
  have h1: "bnd ((lit 180.0) / M_PI) (1922527337 / 2 ^ 25) (961263669 / 2 ^ 24)" (is "bnd ?x1 _ _")
    by (rule bnd_div [OF lit_180_0 bnd_M_PI]) (simp_all add: enc round_double_eq [where e = 5])
  show ?thesis
    unfolding RADEG_def
    by (rule h1)
qed

lemma bnd_MIN_PER_DEG:
  shows "bnd (MIN_PER_DEG) 4 4"
proof -
  show ?thesis
    unfolding MIN_PER_DEG_def
    by (rule lit_4_0)
qed

lemma bnd_MIN_PER_DAY:
  shows "bnd (MIN_PER_DAY) 1440 1440"
proof -
  show ?thesis
    unfolding MIN_PER_DAY_def
    by (rule lit_1440_0)
qed

lemma bnd_DAYS_IN_CENTURY:
  shows "bnd (DAYS_IN_CENTURY) 36525 36525"
proof -
  show ?thesis
    unfolding DAYS_IN_CENTURY_def
    by (rule lit_36525_0)
qed

lemma bnd_JAN_1_2000_JD:
  shows "bnd (JAN_1_2000_JD) 2451545 2451545"
proof -
  show ?thesis
    unfolding JAN_1_2000_JD_def
    by (rule lit_2451545_0)
qed

lemma MeanObliquityEcliptic_bound:
  assumes a1: "bnd T (- (1077122531 / 2 ^ 37)) (- (1073359657 / 2 ^ 37))"
  shows "bnd (MeanObliquityEcliptic T) (3145982029 / 2 ^ 27) (1572991039 / 2 ^ 26)"
proof -
  have h1: "bnd (T * (lit 0.001813)) (- (1999690905 / 2 ^ 47)) (- (1992705083 / 2 ^ 47))" (is "bnd ?x1 _ _")
    by (rule bnd_mul [OF a1 lit_0_001813]) (simp_all add: enc round_double_eq [where e = "- 17"])
  have h2: "bnd ((lit 0.00059) - ?x1) (1328559737 / 2 ^ 41) (2657337783 / 2 ^ 42)" (is "bnd ?x2 _ _")
    by (rule bnd_sub [OF lit_0_00059 h1]) (simp_all add: enc round_double_eq [where e = "- 11"])
  have h3: "bnd (T * ?x2) (- (333213061 / 2 ^ 46)) (- (1328086875 / 2 ^ 48))" (is "bnd ?x3 _ _")
    by (rule bnd_mul [OF a1 h2]) (simp_all add: enc round_double_eq [where e = "- 18"])
  have h4: "bnd ((lit 46.8150) + ?x3) (1570850575 / 2 ^ 25) (3141701153 / 2 ^ 26)" (is "bnd ?x4 _ _")
    by (rule bnd_add [OF lit_46_8150 h3]) (simp_all add: enc round_double_eq [where e = 5])
  have h5: "bnd (T * ?x4) (- (1575796445 / 2 ^ 32)) (- (3140582953 / 2 ^ 33))" (is "bnd ?x5 _ _")
    by (rule bnd_mul [OF a1 h4]) (simp_all add: enc round_double_eq [where e = "- 2"])
  have h6: "bnd ((lit 21.448) - ?x5) (1463886719 / 2 ^ 26) (1463972735 / 2 ^ 26)" (is "bnd ?x6 _ _")
    by (rule bnd_sub [OF lit_21_448 h5]) (simp_all add: enc round_double_eq [where e = 4])
  have h7: "bnd (?x6 / (lit 60.0)) (3122958333 / 2 ^ 33) (3123141835 / 2 ^ 33)" (is "bnd ?x7 _ _")
    by (rule bnd_div [OF h6 lit_60_0]) (simp_all add: enc round_double_eq [where e = "- 2"])
  have h8: "bnd ((lit 26.0) + ?x7) (3538457151 / 2 ^ 27) (884615005 / 2 ^ 25)" (is "bnd ?x8 _ _")
    by (rule bnd_add [OF lit_26_0 h7]) (simp_all add: enc round_double_eq [where e = 4])
  have h9: "bnd (?x8 / (lit 60.0)) (1887177147 / 2 ^ 32) (3774357355 / 2 ^ 33)" (is "bnd ?x9 _ _")
    by (rule bnd_div [OF h8 lit_60_0]) (simp_all add: enc round_double_eq [where e = "- 2"])
  have h10: "bnd ((lit 23.0) + ?x9) (3145982029 / 2 ^ 27) (1572991039 / 2 ^ 26)" (is "bnd ?x10 _ _")
    by (rule bnd_add [OF lit_23_0 h9]) (simp_all add: enc round_double_eq [where e = 4])
  show ?thesis
    unfolding MeanObliquityEcliptic_def Let_def
    by (rule h10)
qed

lemma GeometricMeanLongitudeSun_bound:
  assumes a1: "bnd T (- (1077122531 / 2 ^ 37)) (- (1073359657 / 2 ^ 37))"
  shows "bnd (GeometricMeanLongitudeSun T) (- (14051733 / 2 ^ 23)) (- (2891759 / 2 ^ 22))"
proof -
  have h1: "bnd (T * (lit 0.0003032)) (- (1337686227 / 2 ^ 49)) (- (666506543 / 2 ^ 48))" (is "bnd ?x1 _ _")
    by (rule bnd_mul [OF a1 lit_0_0003032]) (simp_all add: enc round_double_eq [where e = "- 19"])
  have h2: "bnd ((lit 36000.76983) + ?x1) (1179673225 / 2 ^ 15) (589836613 / 2 ^ 14)" (is "bnd ?x2 _ _")
    by (rule bnd_add [OF lit_36000_76983 h1]) (simp_all add: enc round_double_eq [where e = 15])
  have h3: "bnd (T * ?x2) (- (2366774923 / 2 ^ 23)) (- (2358506709 / 2 ^ 23))" (is "bnd ?x3 _ _")
    by (rule bnd_mul [OF a1 h2]) (simp_all add: enc round_double_eq [where e = 8])
  have h4: "bnd ((lit 280.46646) + ?x3) (- (14051733 / 2 ^ 23)) (- (2891759 / 2 ^ 22))" (is "bnd ?x4 _ _")
    by (rule bnd_add [OF lit_280_46646 h3]) (simp_all add: enc round_double_eq [where e = "- 1"] round_double_eq [where e = 0])
  show ?thesis
    unfolding GeometricMeanLongitudeSun_def
    by (rule h4)
qed

lemma GeometricMeanAnomalySun_bound:
  assumes a1: "bnd T (- (1077122531 / 2 ^ 37)) (- (1073359657 / 2 ^ 37))"
  shows "bnd (GeometricMeanAnomalySun T) (632509675 / 2 ^ 23) (640777495 / 2 ^ 23)"
proof -
  have h1: "bnd (T * (lit 0.0001537)) (- (2712432363 / 2 ^ 51)) (- (1351478307 / 2 ^ 50))" (is "bnd ?x1 _ _")
    by (rule bnd_mul [OF a1 lit_0_0001537]) (simp_all add: enc round_double_eq [where e = "- 20"])
  have h2: "bnd ((lit 35999.05029) - ?x1) (2359233759 / 2 ^ 16) (2359233761 / 2 ^ 16)" (is "bnd ?x2 _ _")
    by (rule bnd_sub [OF lit_35999_05029 h1]) (simp_all add: enc round_double_eq [where e = 15])
  have h3: "bnd (T * ?x2) (- (2366661877 / 2 ^ 23)) (- (1179197029 / 2 ^ 22))" (is "bnd ?x3 _ _")
    by (rule bnd_mul [OF a1 h2]) (simp_all add: enc round_double_eq [where e = 8])
  have h4: "bnd ((lit 357.52911) + ?x3) (632509675 / 2 ^ 23) (640777495 / 2 ^ 23)" (is "bnd ?x4 _ _")
    by (rule bnd_add [OF lit_357_52911 h3]) (simp_all add: enc round_double_eq [where e = 6])
  show ?thesis
    unfolding GeometricMeanAnomalySun_def
    by (rule h4)
qed

lemma EccentricityEarth_bound:
  assumes a1: "bnd T (- (1077122531 / 2 ^ 37)) (- (1073359657 / 2 ^ 37))"
  shows "bnd (EccentricityEarth T) (2296462289 / 2 ^ 37) (2296462449 / 2 ^ 37)"
proof -
  have h1: "bnd (T * (lit 0.0000001267)) (- (2289610571 / 2 ^ 61)) (- (285201491 / 2 ^ 58))" (is "bnd ?x1 _ _")
    by (rule bnd_mul [OF a1 lit_0_0000001267]) (simp_all add: enc round_double_eq [where e = "- 30"])
  have h2: "bnd ((lit 0.000042037) + ?x1) (92438157 / 2 ^ 41) (1479010635 / 2 ^ 45)" (is "bnd ?x2 _ _")
    by (rule bnd_add [OF lit_0_000042037 h1]) (simp_all add: enc round_double_eq [where e = "- 15"])
  have h3: "bnd (T * ?x2) (- (1483667343 / 2 ^ 52)) (- (1478484101 / 2 ^ 52))" (is "bnd ?x3 _ _")
    by (rule bnd_mul [OF a1 h2]) (simp_all add: enc round_double_eq [where e = "- 22"])
  have h4: "bnd ((lit 0.016708634) - ?x3) (2296462289 / 2 ^ 37) (2296462449 / 2 ^ 37)" (is "bnd ?x4 _ _")
    by (rule bnd_sub [OF lit_0_016708634 h3]) (simp_all add: enc round_double_eq [where e = "- 6"])
  show ?thesis
    unfolding EccentricityEarth_def
    by (rule h4)
qed

lemma EquationOfCenterSun_bound:
  assumes a1: "bnd T (- (1077122531 / 2 ^ 37)) (- (1073359657 / 2 ^ 37))"
  shows "bnd (EquationOfCenterSun libm_exact T) (1985592415 / 2 ^ 30) (4044735057 / 2 ^ 31)"
proof -
  have h1: "bnd (GeometricMeanAnomalySun T) (632509675 / 2 ^ 23) (640777495 / 2 ^ 23)" (is "bnd ?x1 _ _")
    by (rule GeometricMeanAnomalySun_bound [OF a1])
  have h2: "bnd (?x1 * DEGRAD) (88315011 / 2 ^ 26) (1431510665 / 2 ^ 30)" (is "bnd ?x2 _ _")
    by (rule bnd_mul [OF h1 bnd_DEGRAD]) (simp_all add: enc round_double_eq [where e = 0])
  have h3: "bnd (c_sin libm_exact ?x2) (4128449435 / 2 ^ 32) (4202436633 / 2 ^ 32)" (is "bnd ?x3 _ _")
    by (rule bnd_sin [OF h2, where m = "(10851 / 2 ^ 13)" and w = "(9248393 / 2 ^ 30)" and n = 6])
      (simp_all add: enc round_double_eq [where e = "- 1"])
  have h4: "bnd (?x2 + ?x2) (88315011 / 2 ^ 25) (1431510665 / 2 ^ 29)" (is "bnd ?x4 _ _")
    by (rule bnd_add [OF h2 h2]) (simp_all add: enc round_double_eq [where e = 1])
  have h5: "bnd (c_sin libm_exact ?x4) (978255251 / 2 ^ 31) (2104485167 / 2 ^ 32)" (is "bnd ?x5 _ _")
    by (rule bnd_sin [OF h4, where m = "(10851 / 2 ^ 12)" and w = "(9248393 / 2 ^ 29)" and n = 8])
      (simp_all add: enc round_double_eq [where e = "- 2"])
  have h6: "bnd (?x4 + ?x4) (88315011 / 2 ^ 24) (1431510665 / 2 ^ 28)" (is "bnd ?x6 _ _")
    by (rule bnd_add [OF h4 h4]) (simp_all add: enc round_double_eq [where e = 2])
  have h7: "bnd (c_sin libm_exact ?x6) (- 1) 1" (is "bnd ?x7 _ _")
    by (rule bnd_sin_crude [OF h6])
  have h8: "bnd (T * (lit 0.000014)) (- (3953056923 / 2 ^ 55)) (- (3939247113 / 2 ^ 55))" (is "bnd ?x8 _ _")
    by (rule bnd_mul [OF a1 lit_0_000014]) (simp_all add: enc round_double_eq [where e = "- 24"])
  have h9: "bnd ((lit 0.004817) + ?x8) (662028359 / 2 ^ 37) (165507103 / 2 ^ 35)" (is "bnd ?x9 _ _")
    by (rule bnd_add [OF lit_0_004817 h8]) (simp_all add: enc round_double_eq [where e = "- 8"])
  have h10: "bnd (T * ?x9) (- (1328225655 / 2 ^ 45)) (- (2647170917 / 2 ^ 46))" (is "bnd ?x10 _ _")
    by (rule bnd_mul [OF a1 h9]) (simp_all add: enc round_double_eq [where e = "- 15"])
  have h11: "bnd ((lit 1.914602) - ?x10) (513957159 / 2 ^ 28) (4111657557 / 2 ^ 31)" (is "bnd ?x11 _ _")
    by (rule bnd_sub [OF lit_1_914602 h10]) (simp_all add: enc round_double_eq [where e = 0])
  have h12: "bnd (?x11 * ?x3) (3952246425 / 2 ^ 31) (4023076115 / 2 ^ 31)" (is "bnd ?x12 _ _")
    by (rule bnd_mul [OF h11 h3]) (simp_all add: enc round_double_eq [where e = 0])
  have h13: "bnd ((lit 0.000101) * T) (- (3564810261 / 2 ^ 52)) (- (888089193 / 2 ^ 50))" (is "bnd ?x13 _ _")
    by (rule bnd_mul [OF lit_0_000101 a1]) (simp_all add: enc round_double_eq [where e = "- 21"])
  have h14: "bnd ((lit 0.019993) - ?x13) (2747925405 / 2 ^ 37) (2747925787 / 2 ^ 37)" (is "bnd ?x14 _ _")
    by (rule bnd_sub [OF lit_0_019993 h13]) (simp_all add: enc round_double_eq [where e = "- 6"])
  have h15: "bnd (?x14 * ?x5) (2503555693 / 2 ^ 38) (2692904817 / 2 ^ 38)" (is "bnd ?x15 _ _")
    by (rule bnd_mul [OF h14 h5]) (simp_all add: enc round_double_eq [where e = "- 7"])
  have h16: "bnd ((lit 0.000289) * ?x7) (- (635517721 / 2 ^ 41)) (635517721 / 2 ^ 41)" (is "bnd ?x16 _ _")
    by (rule bnd_mul [OF lit_0_000289 h7]) (simp_all add: enc round_double_eq [where e = "- 12"])
  have h17: "bnd (?x12 + ?x15) (3971805453 / 2 ^ 31) (2022057217 / 2 ^ 30)" (is "bnd ?x17 _ _")
    by (rule bnd_add [OF h12 h15]) (simp_all add: enc round_double_eq [where e = 0])
  have h18: "bnd (?x17 + ?x16) (1985592415 / 2 ^ 30) (4044735057 / 2 ^ 31)" (is "bnd ?x18 _ _")
    by (rule bnd_add [OF h17 h16]) (simp_all add: enc round_double_eq [where e = 0])
  show ?thesis
    unfolding EquationOfCenterSun_def EquationOfCenterSunEx_def Let_def DEG2RAD_def
    by (rule h18)
qed

lemma OmegaRad_bound:
  assumes a1: "bnd T (- (1077122531 / 2 ^ 37)) (- (1073359657 / 2 ^ 37))"
  shows "bnd (OmegaRad T) (2626364679 / 2 ^ 30) (2627357055 / 2 ^ 30)"
proof -
  have h1: "bnd ((lit 1934.136) * T) (- (1017237043 / 2 ^ 26)) (- (2027366751 / 2 ^ 27))" (is "bnd ?x1 _ _")
    by (rule bnd_mul [OF lit_1934_136 a1]) (simp_all add: enc round_double_eq [where e = 3])
  have h2: "bnd ((lit 125.04) - ?x1) (587810983 / 2 ^ 22) (1176066175 / 2 ^ 23)" (is "bnd ?x2 _ _")
    by (rule bnd_sub [OF lit_125_04 h1]) (simp_all add: enc round_double_eq [where e = 7])
  have h3: "bnd (?x2 * DEGRAD) (2626364679 / 2 ^ 30) (2627357055 / 2 ^ 30)" (is "bnd ?x3 _ _")
    by (rule bnd_mul [OF h2 bnd_DEGRAD]) (simp_all add: enc round_double_eq [where e = 1])
  show ?thesis
    unfolding OmegaRad_def Omega_def DEG2RAD_def
    by (rule h3)
qed

lemma ObliquityCorrectionEx_bound:
  assumes a1: "bnd T (- (1077122531 / 2 ^ 37)) (- (1073359657 / 2 ^ 37))"
  shows "bnd (ObliquityCorrectionEx libm_exact T (OmegaRad T)) (3145638431 / 2 ^ 27) (786581419 / 2 ^ 25)"
proof -
  have h1: "bnd (MeanObliquityEcliptic T) (3145982029 / 2 ^ 27) (1572991039 / 2 ^ 26)" (is "bnd ?x1 _ _")
    by (rule MeanObliquityEcliptic_bound [OF a1])
  have h2: "bnd (OmegaRad T) (2626364679 / 2 ^ 30) (2627357055 / 2 ^ 30)" (is "bnd ?x2 _ _")
    by (rule OmegaRad_bound [OF a1])
  have h3: "bnd (c_cos libm_exact ?x2) (- 1) 1" (is "bnd ?x3 _ _")
    by (rule bnd_cos_crude [OF h2])
  have h4: "bnd ((lit 0.00256) * ?x3) (- (351843721 / 2 ^ 37)) (351843721 / 2 ^ 37)" (is "bnd ?x4 _ _")
    by (rule bnd_mul [OF lit_0_00256 h3]) (simp_all add: enc round_double_eq [where e = "- 9"])
  have h5: "bnd (?x1 + ?x4) (3145638431 / 2 ^ 27) (786581419 / 2 ^ 25)" (is "bnd ?x5 _ _")
    by (rule bnd_add [OF h1 h4]) (simp_all add: enc round_double_eq [where e = 4])
  show ?thesis
    unfolding ObliquityCorrectionEx_def Let_def
    by (rule h5)
qed

lemma EquationOfTime_bound:
  assumes a1: "bnd T (- (1077122531 / 2 ^ 37)) (- (1073359657 / 2 ^ 37))"
  shows "bnd (EquationOfTime libm_exact T) (- (4036526649 / 2 ^ 29)) (- (14362999 / 2 ^ 21))"
proof -
  have h1: "bnd (ObliquityCorrectionEx libm_exact T (OmegaRad T)) (3145638431 / 2 ^ 27) (786581419 / 2 ^ 25)" (is "bnd ?x1 _ _")
    by (rule ObliquityCorrectionEx_bound [OF a1])
  have h2: "bnd (?x1 / (lit 2.0)) (3145638431 / 2 ^ 28) (786581419 / 2 ^ 26)" (is "bnd ?x2 _ _")
    by (rule bnd_div [OF h1 lit_2_0]) (simp_all add: enc round_double_eq [where e = 3])
  have h3: "bnd (?x2 * DEGRAD) (3513711851 / 2 ^ 34) (3514479515 / 2 ^ 34)" (is "bnd ?x3 _ _")
    by (rule bnd_mul [OF h2 bnd_DEGRAD]) (simp_all add: enc round_double_eq [where e = "- 3"])
  have h4: "bnd (c_tan libm_exact ?x3) (3562743495 / 2 ^ 34) (3564473183 / 2 ^ 34)" (is "bnd ?x4 _ _")
    by (rule bnd_tan [OF h3, where m = "(3351 / 2 ^ 14)" and w = "(701339 / 2 ^ 34)" and n = 4])
      (simp_all add: enc round_double_eq [where e = "- 3"])
  have h5: "bnd (?x4 * ?x4) (1477676119 / 2 ^ 35) (2958222543 / 2 ^ 36)" (is "bnd ?x5 _ _")
    by (rule bnd_mul [OF h4 h4]) (simp_all add: enc round_double_eq [where e = "- 5"])
  have h6: "bnd (GeometricMeanLongitudeSun T) (- (14051733 / 2 ^ 23)) (- (2891759 / 2 ^ 22))" (is "bnd ?x6 _ _")
    by (rule GeometricMeanLongitudeSun_bound [OF a1])
  have h7: "bnd (?x6 * DEGRAD) (- (4018159725 / 2 ^ 37)) (- (413456103 / 2 ^ 35))" (is "bnd ?x7 _ _")
    by (rule bnd_mul [OF h6 bnd_DEGRAD]) (simp_all add: enc round_double_eq [where e = "- 7"] round_double_eq [where e = "- 6"])
  have h8: "bnd (EccentricityEarth T) (2296462289 / 2 ^ 37) (2296462449 / 2 ^ 37)" (is "bnd ?x8 _ _")
    by (rule EccentricityEarth_bound [OF a1])
  have h9: "bnd (GeometricMeanAnomalySun T) (632509675 / 2 ^ 23) (640777495 / 2 ^ 23)" (is "bnd ?x9 _ _")
    by (rule GeometricMeanAnomalySun_bound [OF a1])
  have h10: "bnd (?x9 * DEGRAD) (88315011 / 2 ^ 26) (1431510665 / 2 ^ 30)" (is "bnd ?x10 _ _")
    by (rule bnd_mul [OF h9 bnd_DEGRAD]) (simp_all add: enc round_double_eq [where e = 0])
  have h11: "bnd (?x7 + ?x7) (- (4018159725 / 2 ^ 36)) (- (413456103 / 2 ^ 34))" (is "bnd ?x11 _ _")
    by (rule bnd_add [OF h7 h7]) (simp_all add: enc round_double_eq [where e = "- 6"] round_double_eq [where e = "- 5"])
  have h12: "bnd (?x11 + ?x11) (- (4018159725 / 2 ^ 35)) (- (413456103 / 2 ^ 33))" (is "bnd ?x12 _ _")
    by (rule bnd_add [OF h11 h11]) (simp_all add: enc round_double_eq [where e = "- 5"] round_double_eq [where e = "- 4"])
  have h13: "bnd (c_sin libm_exact ?x10) (4128449435 / 2 ^ 32) (4202436633 / 2 ^ 32)" (is "bnd ?x13 _ _")
    by (rule bnd_sin [OF h10, where m = "(10851 / 2 ^ 13)" and w = "(9248393 / 2 ^ 30)" and n = 6])
      (simp_all add: enc round_double_eq [where e = "- 1"])
  have h14: "bnd (?x10 + ?x10) (88315011 / 2 ^ 25) (1431510665 / 2 ^ 29)" (is "bnd ?x14 _ _")
    by (rule bnd_add [OF h10 h10]) (simp_all add: enc round_double_eq [where e = 1])
  have h15: "bnd (?x8 + ?x8) (2296462289 / 2 ^ 36) (2296462449 / 2 ^ 36)" (is "bnd ?x15 _ _")
    by (rule bnd_add [OF h8 h8]) (simp_all add: enc round_double_eq [where e = "- 5"])
  have h16: "bnd (c_sin libm_exact ?x11) (- (2008677663 / 2 ^ 35)) (- (825867373 / 2 ^ 35))" (is "bnd ?x16 _ _")
    by (rule bnd_sin [OF h11, where m = "(- (169 / 2 ^ 12))" and w = "(1182810221 / 2 ^ 36)" and n = 2])
      (simp_all add: enc round_double_eq [where e = "- 6"] round_double_eq [where e = "- 5"])
  have h17: "bnd (?x5 * ?x16) (- (1383506587 / 2 ^ 39)) (- (1136553003 / 2 ^ 40))" (is "bnd ?x17 _ _")
    by (rule bnd_mul [OF h5 h16]) (simp_all add: enc round_double_eq [where e = "- 10"] round_double_eq [where e = "- 9"])
  have h18: "bnd (?x15 * ?x13) (2207427387 / 2 ^ 36) (2246987523 / 2 ^ 36)" (is "bnd ?x18 _ _")
    by (rule bnd_mul [OF h15 h13]) (simp_all add: enc round_double_eq [where e = "- 5"])
  have h19: "bnd ((int_to_double 2) * ?x15) (2296462289 / 2 ^ 35) (2296462449 / 2 ^ 35)" (is "bnd ?x19 _ _")
    by (rule bnd_mul [OF int_to_double_2 h15]) (simp_all add: enc round_double_eq [where e = "- 4"])
  have h20: "bnd (?x19 * ?x5) (3160375619 / 2 ^ 40) (3163445269 / 2 ^ 40)" (is "bnd ?x20 _ _")
    by (rule bnd_mul [OF h19 h5]) (simp_all add: enc round_double_eq [where e = "- 9"])
  have h21: "bnd (?x20 * ?x13) (23733175 / 2 ^ 33) (3095292087 / 2 ^ 40)" (is "bnd ?x21 _ _")
    by (rule bnd_mul [OF h20 h13]) (simp_all add: enc round_double_eq [where e = "- 9"])
  have h22: "bnd (c_cos libm_exact ?x11) (4217386367 / 2 ^ 32) 1" (is "bnd ?x22 _ _")
    by (rule bnd_cos [OF h11, where m = "(- (169 / 2 ^ 12))" and w = "(1182810221 / 2 ^ 36)" and n = 3])
      (simp_all add: enc round_double_eq [where e = "- 1"] round_double_eq [where e = 0])
  have h23: "bnd (?x21 * ?x22) (2982973119 / 2 ^ 40) (3095292087 / 2 ^ 40)" (is "bnd ?x23 _ _")
    by (rule bnd_mul [OF h21 h22]) (simp_all add: enc round_double_eq [where e = "- 9"])
  have h24: "bnd ((lit 0.5) * ?x5) (1477676119 / 2 ^ 36) (2958222543 / 2 ^ 37)" (is "bnd ?x24 _ _")
    by (rule bnd_mul [OF lit_0_5 h5]) (simp_all add: enc round_double_eq [where e = "- 6"])
  have h25: "bnd (?x24 * ?x5) (4067135439 / 2 ^ 42) (4075039465 / 2 ^ 42)" (is "bnd ?x25 _ _")
    by (rule bnd_mul [OF h24 h5]) (simp_all add: enc round_double_eq [where e = "- 11"])
  have h26: "bnd (c_sin libm_exact ?x12) (- (1003735737 / 2 ^ 33)) (- (3298640629 / 2 ^ 36))" (is "bnd ?x26 _ _")
    by (rule bnd_sin [OF h12, where m = "(- (169 / 2 ^ 11))" and w = "(1182810221 / 2 ^ 35)" and n = 2])
      (simp_all add: enc round_double_eq [where e = "- 5"] round_double_eq [where e = "- 4"])
  have h27: "bnd (?x25 * ?x26) (- (3809354027 / 2 ^ 45)) (- (3123660153 / 2 ^ 46))" (is "bnd ?x27 _ _")
    by (rule bnd_mul [OF h25 h26]) (simp_all add: enc round_double_eq [where e = "- 15"] round_double_eq [where e = "- 14"])
  have h28: "bnd ((lit 1.25) * ?x8) (2870577861 / 2 ^ 37) (1435289031 / 2 ^ 36)" (is "bnd ?x28 _ _")
    by (rule bnd_mul [OF lit_1_25 h8]) (simp_all add: enc round_double_eq [where e = "- 6"])
  have h29: "bnd (?x28 * ?x8) (767430035 / 2 ^ 41) (1534860285 / 2 ^ 42)" (is "bnd ?x29 _ _")
    by (rule bnd_mul [OF h28 h8]) (simp_all add: enc round_double_eq [where e = "- 12"])
  have h30: "bnd (c_sin libm_exact ?x14) (- 1) 1" (is "bnd ?x30 _ _")
    by (rule bnd_sin_crude [OF h14])
  have h31: "bnd (?x29 * ?x30) (- (1534860285 / 2 ^ 42)) (1534860285 / 2 ^ 42)" (is "bnd ?x31 _ _")
    by (rule bnd_mul [OF h29 h30]) (simp_all add: enc round_double_eq [where e = "- 12"])
  have h32: "bnd (?x17 - ?x18) (- (2419925847 / 2 ^ 36)) (- (2278461949 / 2 ^ 36))" (is "bnd ?x32 _ _")
    by (rule bnd_sub [OF h17 h18]) (simp_all add: enc round_double_eq [where e = "- 5"])
  have h33: "bnd (?x32 + ?x23) (- (558372507 / 2 ^ 34)) (- (4170012387 / 2 ^ 37))" (is "bnd ?x33 _ _")
    by (rule bnd_add [OF h32 h23]) (simp_all add: enc round_double_eq [where e = "- 6"] round_double_eq [where e = "- 5"])
  have h34: "bnd (?x33 - ?x27) (- (2230439579 / 2 ^ 36)) (- (4155132097 / 2 ^ 37))" (is "bnd ?x34 _ _")
    by (rule bnd_sub [OF h33 h27]) (simp_all add: enc round_double_eq [where e = "- 6"] round_double_eq [where e = "- 5"])
  have h35: "bnd (?x34 - ?x31) (- (2254421771 / 2 ^ 36)) (- (4107167713 / 2 ^ 37))" (is "bnd ?x35 _ _")
    by (rule bnd_sub [OF h34 h31]) (simp_all add: enc round_double_eq [where e = "- 6"] round_double_eq [where e = "- 5"])
  have h36: "bnd (?x35 * RADEG) (- (4036526649 / 2 ^ 31)) (- (14362999 / 2 ^ 23))" (is "bnd ?x36 _ _")
    by (rule bnd_mul [OF h35 bnd_RADEG]) (simp_all add: enc round_double_eq [where e = 0])
  have h37: "bnd (?x36 * MIN_PER_DEG) (- (4036526649 / 2 ^ 29)) (- (14362999 / 2 ^ 21))" (is "bnd ?x37 _ _")
    by (rule bnd_mul [OF h36 bnd_MIN_PER_DEG]) (simp_all add: enc round_double_eq [where e = 2])
  show ?thesis
    unfolding EquationOfTime_def Let_def tand_def DEG2RAD_def DEG2MIN_def RAD2DEG_def ObliquityCorrection_def
    by (rule h37)
qed

lemma sin_latitude_bound:
  assumes a1: "bnd X (840972315 / 2 ^ 29) (210243079 / 2 ^ 27)"
  shows "bnd (c_sin libm_exact X) (4294810527 / 2 ^ 32) 1"
proof -
  have h1: "bnd (c_sin libm_exact X) (4294810527 / 2 ^ 32) 1" (is "bnd ?x1 _ _")
    by (rule bnd_sin [OF a1, where m = "(401 / 2 ^ 8)" and w = "(3591 / 2 ^ 27)" and n = 6])
      (simp_all add: enc round_double_eq [where e = "- 1"] round_double_eq [where e = 0])
  show ?thesis
    by (rule h1)
qed

lemma cos_latitude_bound:
  assumes a1: "bnd X (840972315 / 2 ^ 29) (210243079 / 2 ^ 27)"
  shows "bnd (c_cos libm_exact X) (1199376859 / 2 ^ 38) (303522243 / 2 ^ 36)"
proof -
  have h1: "bnd (c_cos libm_exact X) (1199376859 / 2 ^ 38) (303522243 / 2 ^ 36)" (is "bnd ?x1 _ _")
    by (rule bnd_cos [OF a1, where m = "(401 / 2 ^ 8)" and w = "(3591 / 2 ^ 27)" and n = 7])
      (simp_all add: enc round_double_eq [where e = "- 8"])
  show ?thesis
    by (rule h1)
qed

lemma cos_angle_bound:
  assumes a1: "bnd X (3373259425 / 2 ^ 31) (3373259429 / 2 ^ 31)"
  shows "bnd (c_cos libm_exact X) (- (2507801805 / 2 ^ 48)) (238420727 / 2 ^ 54)"
proof -
  have h1: "bnd (c_cos libm_exact X) (- (2507801805 / 2 ^ 48)) (238420727 / 2 ^ 54)" (is "bnd ?x1 _ _")
    by (rule bnd_cos [OF a1, where m = "(3217 / 2 ^ 11)" and w = "(9567 / 2 ^ 31)" and n = 7])
      (simp_all add: enc round_double_eq [where e = "- 27"] round_double_eq [where e = "- 17"])
  show ?thesis
    by (rule h1)
qed

lemma GeometricMeanLongitudeSun_bound_first:
  assumes a1: "bnd T (- (1077122531 / 2 ^ 37)) (- (2154245061 / 2 ^ 38))"
  shows "bnd (GeometricMeanLongitudeSun T) (- (14051733 / 2 ^ 23)) (- (878233 / 2 ^ 19))"
proof -
  have h1: "bnd (T * (lit 0.0003032)) (- (1337686227 / 2 ^ 49)) (- (2675372451 / 2 ^ 50))" (is "bnd ?x1 _ _")
    by (rule bnd_mul [OF a1 lit_0_0003032]) (simp_all add: enc round_double_eq [where e = "- 19"])
  have h2: "bnd ((lit 36000.76983) + ?x1) (1179673225 / 2 ^ 15) (589836613 / 2 ^ 14)" (is "bnd ?x2 _ _")
    by (rule bnd_add [OF lit_36000_76983 h1]) (simp_all add: enc round_double_eq [where e = 15])
  have h3: "bnd (T * ?x2) (- (2366774923 / 2 ^ 23)) (- (2366774919 / 2 ^ 23))" (is "bnd ?x3 _ _")
    by (rule bnd_mul [OF a1 h2]) (simp_all add: enc round_double_eq [where e = 8])
  have h4: "bnd ((lit 280.46646) + ?x3) (- (14051733 / 2 ^ 23)) (- (878233 / 2 ^ 19))" (is "bnd ?x4 _ _")
    by (rule bnd_add [OF lit_280_46646 h3]) (simp_all add: enc round_double_eq [where e = 0])
  show ?thesis
    unfolding GeometricMeanLongitudeSun_def
    by (rule h4)
qed

lemma SunDeclinationRad_bound_first:
  assumes a1: "bnd T (- (1077122531 / 2 ^ 37)) (- (2154245061 / 2 ^ 38))"
  shows "bnd (SunDeclinationRad libm_exact T) (613 / 2 ^ 19) (1549 / 2 ^ 20)"
proof -
  have h1: "bnd T (- (1077122531 / 2 ^ 37)) (- (1073359657 / 2 ^ 37))"
    by (rule bnd_weaken [OF a1]) simp_all
  have h2: "bnd (OmegaRad T) (2626364679 / 2 ^ 30) (2627357055 / 2 ^ 30)" (is "bnd ?x2 _ _")
    by (rule OmegaRad_bound [OF h1])
  have h3: "bnd (ObliquityCorrectionEx libm_exact T (OmegaRad T)) (3145638431 / 2 ^ 27) (786581419 / 2 ^ 25)" (is "bnd ?x3 _ _")
    by (rule ObliquityCorrectionEx_bound [OF h1])
  have h4: "bnd (GeometricMeanLongitudeSun T) (- (14051733 / 2 ^ 23)) (- (878233 / 2 ^ 19))" (is "bnd ?x4 _ _")
    by (rule GeometricMeanLongitudeSun_bound_first [OF a1])
  have h5: "bnd (EquationOfCenterSun libm_exact T) (1985592415 / 2 ^ 30) (4044735057 / 2 ^ 31)" (is "bnd ?x5 _ _")
    by (rule EquationOfCenterSun_bound [OF h1])
  have h6: "bnd (?x4 + ?x5) (186970591 / 2 ^ 30) (447492689 / 2 ^ 31)" (is "bnd ?x6 _ _")
    by (rule bnd_add [OF h4 h5]) (simp_all add: enc round_double_eq [where e = "- 3"])
  have h7: "bnd (?x6 - (lit 0.000569)) (1490877055 / 2 ^ 33) (3570166167 / 2 ^ 34)" (is "bnd ?x7 _ _")
    by (rule bnd_sub [OF h6 lit_0_000569]) (simp_all add: enc round_double_eq [where e = "- 3"])
  have h8: "bnd (c_sin libm_exact ?x2) (- 1) 1" (is "bnd ?x8 _ _")
    by (rule bnd_sin_crude [OF h2])
  have h9: "bnd ((lit 0.00478) * ?x8) (- (2627832791 / 2 ^ 39)) (2627832791 / 2 ^ 39)" (is "bnd ?x9 _ _")
    by (rule bnd_mul [OF lit_0_00478 h8]) (simp_all add: enc round_double_eq [where e = "- 8"])
  have h10: "bnd (?x7 - ?x9) (2899634335 / 2 ^ 34) (1826142971 / 2 ^ 33)" (is "bnd ?x10 _ _")
    by (rule bnd_sub [OF h7 h9]) (simp_all add: enc round_double_eq [where e = "- 3"])
  have h11: "bnd (?x3 * DEGRAD) (3513711851 / 2 ^ 33) (3514479515 / 2 ^ 33)" (is "bnd ?x11 _ _")
    by (rule bnd_mul [OF h3 bnd_DEGRAD]) (simp_all add: enc round_double_eq [where e = "- 2"])
  have h12: "bnd (c_sin libm_exact ?x11) (1708246417 / 2 ^ 32) (854418519 / 2 ^ 31)" (is "bnd ?x12 _ _")
    by (rule bnd_sin [OF h11, where m = "(6703 / 2 ^ 14)" and w = "(590613 / 2 ^ 33)" and n = 4])
      (simp_all add: enc round_double_eq [where e = "- 2"])
  have h13: "bnd (?x10 * DEGRAD) (3238922639 / 2 ^ 40) (4079642557 / 2 ^ 40)" (is "bnd ?x13 _ _")
    by (rule bnd_mul [OF h10 bnd_DEGRAD]) (simp_all add: enc round_double_eq [where e = "- 9"])
  have h14: "bnd (c_sin libm_exact ?x13) (1617608437 / 2 ^ 39) (2039824651 / 2 ^ 39)" (is "bnd ?x14 _ _")
    by (rule bnd_sin [OF h13, where m = "(109 / 2 ^ 15)" and w = "(422209469 / 2 ^ 40)" and n = 1])
      (simp_all add: enc round_double_eq [where e = "- 9"])
  have h15: "bnd (?x12 * ?x14) (2573499285 / 2 ^ 41) (405792137 / 2 ^ 38)" (is "bnd ?x15 _ _")
    by (rule bnd_mul [OF h12 h14]) (simp_all add: enc round_double_eq [where e = "- 10"])
  have h16: "bnd (c_asin libm_exact ?x15) (613 / 2 ^ 19) (1549 / 2 ^ 20)" (is "bnd ?x16 _ _")
    by (rule bnd_asin [OF h15, where n = 4])
      (simp_all add: enc round_double_eq [where e = "- 10"])
  show ?thesis
    unfolding SunDeclinationRad_def Let_def sind_def ApparentLongitudeSunEx_def TrueLongitudeSun_def
    by (rule h16)
qed

lemma cosHA_bound_first:
  assumes a1: "bnd LAT (840972315 / 2 ^ 29) (210243079 / 2 ^ 27)"
    and a2: "bnd D (613 / 2 ^ 19) (1549 / 2 ^ 20)"
    and a3: "bnd ANG (3373259425 / 2 ^ 31) (3373259429 / 2 ^ 31)"
  shows "bnd (cosHA libm_exact LAT D ANG) (- (1464040769 / 2 ^ 32)) (- (2273781989 / 2 ^ 33))"
proof -
  have h1: "bnd (c_cos libm_exact ANG) (- (2507801805 / 2 ^ 48)) (238420727 / 2 ^ 54)" (is "bnd ?x1 _ _")
    by (rule cos_angle_bound [OF a3])
  have h2: "bnd (c_sin libm_exact LAT) (4294810527 / 2 ^ 32) 1" (is "bnd ?x2 _ _")
    by (rule sin_latitude_bound [OF a1])
  have h3: "bnd (c_cos libm_exact LAT) (1199376859 / 2 ^ 38) (303522243 / 2 ^ 36)" (is "bnd ?x3 _ _")
    by (rule cos_latitude_bound [OF a1])
  have h4: "bnd (c_sin libm_exact D) (2571107501 / 2 ^ 41) (3250586451 / 2 ^ 41)" (is "bnd ?x4 _ _")
    by (rule bnd_sin [OF a2, where m = "(347 / 2 ^ 18)" and w = "(81 / 2 ^ 19)" and n = 1])
      (simp_all add: enc round_double_eq [where e = "- 10"])
  have h5: "bnd (c_cos libm_exact D) (4294299981 / 2 ^ 32) 1" (is "bnd ?x5 _ _")
    by (rule bnd_cos [OF a2, where m = "(347 / 2 ^ 18)" and w = "(81 / 2 ^ 19)" and n = 2])
      (simp_all add: enc round_double_eq [where e = "- 1"] round_double_eq [where e = 0])
  have h6: "bnd (?x2 * ?x4) (2571013653 / 2 ^ 41) (3250586451 / 2 ^ 41)" (is "bnd ?x6 _ _")
    by (rule bnd_mul [OF h2 h4]) (simp_all add: enc round_double_eq [where e = "- 10"])
  have h7: "bnd (?x1 - ?x6) (- (3270178653 / 2 ^ 41)) (- (642746137 / 2 ^ 39))" (is "bnd ?x7 _ _")
    by (rule bnd_sub [OF h1 h6]) (simp_all add: enc round_double_eq [where e = "- 10"])
  have h8: "bnd (?x3 * ?x5) (599595255 / 2 ^ 37) (303522243 / 2 ^ 36)" (is "bnd ?x8 _ _")
    by (rule bnd_mul [OF h3 h5]) (simp_all add: enc round_double_eq [where e = "- 8"])
  have h9: "bnd (?x7 / ?x8) (- (1464040769 / 2 ^ 32)) (- (2273781989 / 2 ^ 33))" (is "bnd ?x9 _ _")
    by (rule bnd_div [OF h7 h8]) (simp_all add: enc round_double_eq [where e = "- 2"])
  show ?thesis
    unfolding cosHA_def
    by (rule h9)
qed

lemma GeometricMeanLongitudeSun_bound_rise:
  assumes a1: "bnd T (- (33636653 / 2 ^ 32)) (- (538160725 / 2 ^ 36))"
  shows "bnd (GeometricMeanLongitudeSun T) (- (6202275 / 2 ^ 22)) (- (12291503 / 2 ^ 23))"
proof -
  have h1: "bnd (T * (lit 0.0003032)) (- (668377625 / 2 ^ 48)) (- (668345679 / 2 ^ 48))" (is "bnd ?x1 _ _")
    by (rule bnd_mul [OF a1 lit_0_0003032]) (simp_all add: enc round_double_eq [where e = "- 19"])
  have h2: "bnd ((lit 36000.76983) + ?x1) (1179673225 / 2 ^ 15) (589836613 / 2 ^ 14)" (is "bnd ?x2 _ _")
    by (rule bnd_add [OF lit_36000_76983 h1]) (simp_all add: enc round_double_eq [where e = 15])
  have h3: "bnd (T * ?x2) (- (591281935 / 2 ^ 21)) (- (1182507347 / 2 ^ 22))" (is "bnd ?x3 _ _")
    by (rule bnd_mul [OF a1 h2]) (simp_all add: enc round_double_eq [where e = 8])
  have h4: "bnd ((lit 280.46646) + ?x3) (- (6202275 / 2 ^ 22)) (- (12291503 / 2 ^ 23))" (is "bnd ?x4 _ _")
    by (rule bnd_add [OF lit_280_46646 h3]) (simp_all add: enc round_double_eq [where e = 0])
  show ?thesis
    unfolding GeometricMeanLongitudeSun_def
    by (rule h4)
qed

lemma SunDeclinationRad_bound_rise:
  assumes a1: "bnd T (- (33636653 / 2 ^ 32)) (- (538160725 / 2 ^ 36))"
  shows "bnd (SunDeclinationRad libm_exact T) (83 / 2 ^ 15) (1539 / 2 ^ 19)"
proof -
  have h1: "bnd T (- (1077122531 / 2 ^ 37)) (- (1073359657 / 2 ^ 37))"
    by (rule bnd_weaken [OF a1]) simp_all
  have h2: "bnd (OmegaRad T) (2626364679 / 2 ^ 30) (2627357055 / 2 ^ 30)" (is "bnd ?x2 _ _")
    by (rule OmegaRad_bound [OF h1])
  have h3: "bnd (ObliquityCorrectionEx libm_exact T (OmegaRad T)) (3145638431 / 2 ^ 27) (786581419 / 2 ^ 25)" (is "bnd ?x3 _ _")
    by (rule ObliquityCorrectionEx_bound [OF h1])
  have h4: "bnd (GeometricMeanLongitudeSun T) (- (6202275 / 2 ^ 22)) (- (12291503 / 2 ^ 23))" (is "bnd ?x4 _ _")
    by (rule GeometricMeanLongitudeSun_bound_rise [OF a1])
  have h5: "bnd (EquationOfCenterSun libm_exact T) (1985592415 / 2 ^ 30) (4044735057 / 2 ^ 31)" (is "bnd ?x5 _ _")
    by (rule EquationOfCenterSun_bound [OF h1])
  have h6: "bnd (?x4 + ?x5) (397810015 / 2 ^ 30) (898110289 / 2 ^ 31)" (is "bnd ?x6 _ _")
    by (rule bnd_add [OF h4 h5]) (simp_all add: enc round_double_eq [where e = "- 2"])
  have h7: "bnd (?x6 - (lit 0.000569)) (3177592447 / 2 ^ 33) (896888371 / 2 ^ 31)" (is "bnd ?x7 _ _")
    by (rule bnd_sub [OF h6 lit_0_000569]) (simp_all add: enc round_double_eq [where e = "- 2"])
  have h8: "bnd (c_sin libm_exact ?x2) (- 1) 1" (is "bnd ?x8 _ _")
    by (rule bnd_sin_crude [OF h2])
  have h9: "bnd ((lit 0.00478) * ?x8) (- (2627832791 / 2 ^ 39)) (2627832791 / 2 ^ 39)" (is "bnd ?x9 _ _")
    by (rule bnd_mul [OF lit_0_00478 h8]) (simp_all add: enc round_double_eq [where e = "- 8"])
  have h10: "bnd (?x7 - ?x9) (3136532559 / 2 ^ 33) (907153343 / 2 ^ 31)" (is "bnd ?x10 _ _")
    by (rule bnd_sub [OF h7 h9]) (simp_all add: enc round_double_eq [where e = "- 2"])
  have h11: "bnd (?x3 * DEGRAD) (3513711851 / 2 ^ 33) (3514479515 / 2 ^ 33)" (is "bnd ?x11 _ _")
    by (rule bnd_mul [OF h3 bnd_DEGRAD]) (simp_all add: enc round_double_eq [where e = "- 2"])
  have h12: "bnd (c_sin libm_exact ?x11) (1708246417 / 2 ^ 32) (854418519 / 2 ^ 31)" (is "bnd ?x12 _ _")
    by (rule bnd_sin [OF h11, where m = "(6703 / 2 ^ 14)" and w = "(590613 / 2 ^ 33)" and n = 4])
      (simp_all add: enc round_double_eq [where e = "- 2"])
  have h13: "bnd (?x10 * DEGRAD) (3503540495 / 2 ^ 39) (4053200043 / 2 ^ 39)" (is "bnd ?x13 _ _")
    by (rule bnd_mul [OF h10 bnd_DEGRAD]) (simp_all add: enc round_double_eq [where e = "- 8"])
  have h14: "bnd (c_sin libm_exact ?x13) (875877683 / 2 ^ 37) (1013656269 / 2 ^ 37)" (is "bnd ?x14 _ _")
    by (rule bnd_sin [OF h13, where m = "(901 / 2 ^ 17)" and w = "(275527409 / 2 ^ 39)" and n = 1])
      (simp_all add: enc round_double_eq [where e = "- 8"])
  have h15: "bnd (?x12 * ?x14) (2786917451 / 2 ^ 40) (3226424337 / 2 ^ 40)" (is "bnd ?x15 _ _")
    by (rule bnd_mul [OF h12 h14]) (simp_all add: enc round_double_eq [where e = "- 9"])
  have h16: "bnd (c_asin libm_exact ?x15) (83 / 2 ^ 15) (1539 / 2 ^ 19)" (is "bnd ?x16 _ _")
    by (rule bnd_asin [OF h15, where n = 4])
      (simp_all add: enc round_double_eq [where e = "- 9"])
  show ?thesis
    unfolding SunDeclinationRad_def Let_def sind_def ApparentLongitudeSunEx_def TrueLongitudeSun_def
    by (rule h16)
qed

lemma cosHA_bound_rise:
  assumes a1: "bnd LAT (840972315 / 2 ^ 29) (210243079 / 2 ^ 27)"
    and a2: "bnd D (83 / 2 ^ 15) (1539 / 2 ^ 19)"
    and a3: "bnd ANG (3373259425 / 2 ^ 31) (3373259429 / 2 ^ 31)"
  shows "bnd (cosHA libm_exact LAT D ANG) (- (1449397225 / 2 ^ 31)) (- (1231483615 / 2 ^ 31))"
proof -
  have h1: "bnd (c_cos libm_exact ANG) (- (2507801805 / 2 ^ 48)) (238420727 / 2 ^ 54)" (is "bnd ?x1 _ _")
    by (rule cos_angle_bound [OF a3])
  have h2: "bnd (c_sin libm_exact LAT) (4294810527 / 2 ^ 32) 1" (is "bnd ?x2 _ _")
    by (rule sin_latitude_bound [OF a1])
  have h3: "bnd (c_cos libm_exact LAT) (1199376859 / 2 ^ 38) (303522243 / 2 ^ 36)" (is "bnd ?x3 _ _")
    by (rule cos_latitude_bound [OF a1])
  have h4: "bnd (c_sin libm_exact D) (1392507055 / 2 ^ 39) (3227513183 / 2 ^ 40)" (is "bnd ?x4 _ _")
    by (rule bnd_sin [OF a2, where m = "(2867 / 2 ^ 20)" and w = "(211 / 2 ^ 20)" and n = 2])
      (simp_all add: enc round_double_eq [where e = "- 9"])
  have h5: "bnd (c_cos libm_exact D) (4294086985 / 2 ^ 32) 1" (is "bnd ?x5 _ _")
    by (rule bnd_cos [OF a2, where m = "(2867 / 2 ^ 20)" and w = "(211 / 2 ^ 20)" and n = 2])
      (simp_all add: enc round_double_eq [where e = "- 1"] round_double_eq [where e = 0])
  have h6: "bnd (?x2 * ?x4) (2784912455 / 2 ^ 40) (3227513183 / 2 ^ 40)" (is "bnd ?x6 _ _")
    by (rule bnd_mul [OF h2 h4]) (simp_all add: enc round_double_eq [where e = "- 9"])
  have h7: "bnd (?x1 - ?x6) (- (809327321 / 2 ^ 38)) (- (1392448951 / 2 ^ 39))" (is "bnd ?x7 _ _")
    by (rule bnd_sub [OF h1 h6]) (simp_all add: enc round_double_eq [where e = "- 9"])
  have h8: "bnd (?x3 * ?x5) (2398262061 / 2 ^ 39) (303522243 / 2 ^ 36)" (is "bnd ?x8 _ _")
    by (rule bnd_mul [OF h3 h5]) (simp_all add: enc round_double_eq [where e = "- 8"])
  have h9: "bnd (?x7 / ?x8) (- (1449397225 / 2 ^ 31)) (- (1231483615 / 2 ^ 31))" (is "bnd ?x9 _ _")
    by (rule bnd_div [OF h7 h8]) (simp_all add: enc round_double_eq [where e = "- 1"])
  show ?thesis
    unfolding cosHA_def
    by (rule h9)
qed

lemma GeometricMeanLongitudeSun_bound_set:
  assumes a1: "bnd T (- (1074123991 / 2 ^ 37)) (- (2148137741 / 2 ^ 38))"
  shows "bnd (GeometricMeanLongitudeSun T) (- (7463003 / 2 ^ 23)) (- (3670941 / 2 ^ 22))"
proof -
  have h1: "bnd (T * (lit 0.0003032)) (- (2667924637 / 2 ^ 50)) (- (1333893863 / 2 ^ 49))" (is "bnd ?x1 _ _")
    by (rule bnd_mul [OF a1 lit_0_0003032]) (simp_all add: enc round_double_eq [where e = "- 19"])
  have h2: "bnd ((lit 36000.76983) + ?x1) (1179673225 / 2 ^ 15) (589836613 / 2 ^ 14)" (is "bnd ?x2 _ _")
    by (rule bnd_add [OF lit_36000_76983 h1]) (simp_all add: enc round_double_eq [where e = 15])
  have h3: "bnd (T * ?x2) (- (2360186193 / 2 ^ 23)) (- (2360065073 / 2 ^ 23))" (is "bnd ?x3 _ _")
    by (rule bnd_mul [OF a1 h2]) (simp_all add: enc round_double_eq [where e = 8])
  have h4: "bnd ((lit 280.46646) + ?x3) (- (7463003 / 2 ^ 23)) (- (3670941 / 2 ^ 22))" (is "bnd ?x4 _ _")
    by (rule bnd_add [OF lit_280_46646 h3]) (simp_all add: enc round_double_eq [where e = "- 1"])
  show ?thesis
    unfolding GeometricMeanLongitudeSun_def
    by (rule h4)
qed

lemma SunDeclinationRad_bound_set:
  assumes a1: "bnd T (- (1074123991 / 2 ^ 37)) (- (2148137741 / 2 ^ 38))"
  shows "bnd (SunDeclinationRad libm_exact T) (217 / 2 ^ 15) (7373 / 2 ^ 20)"
proof -
  have h1: "bnd T (- (1077122531 / 2 ^ 37)) (- (1073359657 / 2 ^ 37))"
    by (rule bnd_weaken [OF a1]) simp_all
  have h2: "bnd (OmegaRad T) (2626364679 / 2 ^ 30) (2627357055 / 2 ^ 30)" (is "bnd ?x2 _ _")
    by (rule OmegaRad_bound [OF h1])
  have h3: "bnd (ObliquityCorrectionEx libm_exact T (OmegaRad T)) (3145638431 / 2 ^ 27) (786581419 / 2 ^ 25)" (is "bnd ?x3 _ _")
    by (rule ObliquityCorrectionEx_bound [OF h1])
  have h4: "bnd (GeometricMeanLongitudeSun T) (- (7463003 / 2 ^ 23)) (- (3670941 / 2 ^ 22))" (is "bnd ?x4 _ _")
    by (rule GeometricMeanLongitudeSun_bound_set [OF a1])
  have h5: "bnd (EquationOfCenterSun libm_exact T) (1985592415 / 2 ^ 30) (4044735057 / 2 ^ 31)" (is "bnd ?x5 _ _")
    by (rule EquationOfCenterSun_bound [OF h1])
  have h6: "bnd (?x4 + ?x5) (1030328031 / 2 ^ 30) (2165213265 / 2 ^ 31)" (is "bnd ?x6 _ _")
    by (rule bnd_add [OF h4 h5]) (simp_all add: enc round_double_eq [where e = "- 1"] round_double_eq [where e = 0])
  have h7: "bnd (?x6 - (lit 0.000569)) (4118868287 / 2 ^ 32) (2163991347 / 2 ^ 31)" (is "bnd ?x7 _ _")
    by (rule bnd_sub [OF h6 lit_0_000569]) (simp_all add: enc round_double_eq [where e = "- 1"] round_double_eq [where e = 0])
  have h8: "bnd (c_sin libm_exact ?x2) (- 1) 1" (is "bnd ?x8 _ _")
    by (rule bnd_sin_crude [OF h2])
  have h9: "bnd ((lit 0.00478) * ?x8) (- (2627832791 / 2 ^ 39)) (2627832791 / 2 ^ 39)" (is "bnd ?x9 _ _")
    by (rule bnd_mul [OF lit_0_00478 h8]) (simp_all add: enc round_double_eq [where e = "- 8"])
  have h10: "bnd (?x7 - ?x9) (4098338343 / 2 ^ 32) (2174256319 / 2 ^ 31)" (is "bnd ?x10 _ _")
    by (rule bnd_sub [OF h7 h9]) (simp_all add: enc round_double_eq [where e = "- 1"] round_double_eq [where e = 0])
  have h11: "bnd (?x3 * DEGRAD) (3513711851 / 2 ^ 33) (3514479515 / 2 ^ 33)" (is "bnd ?x11 _ _")
    by (rule bnd_mul [OF h3 bnd_DEGRAD]) (simp_all add: enc round_double_eq [where e = "- 2"])
  have h12: "bnd (c_sin libm_exact ?x11) (1708246417 / 2 ^ 32) (854418519 / 2 ^ 31)" (is "bnd ?x12 _ _")
    by (rule bnd_sin [OF h11, where m = "(6703 / 2 ^ 14)" and w = "(590613 / 2 ^ 33)" and n = 4])
      (simp_all add: enc round_double_eq [where e = "- 2"])
  have h13: "bnd (?x10 * DEGRAD) (2288943933 / 2 ^ 37) (2428667621 / 2 ^ 37)" (is "bnd ?x13 _ _")
    by (rule bnd_mul [OF h10 bnd_DEGRAD]) (simp_all add: enc round_double_eq [where e = "- 6"])
  have h14: "bnd (c_sin libm_exact ?x13) (2288760007 / 2 ^ 37) (2428551829 / 2 ^ 37)" (is "bnd ?x14 _ _")
    by (rule bnd_sin [OF h13, where m = "(4499 / 2 ^ 18)" and w = "(69895909 / 2 ^ 37)" and n = 2])
      (simp_all add: enc round_double_eq [where e = "- 6"])
  have h15: "bnd (?x12 * ?x14) (3641253413 / 2 ^ 39) (1932494023 / 2 ^ 38)" (is "bnd ?x15 _ _")
    by (rule bnd_mul [OF h12 h14]) (simp_all add: enc round_double_eq [where e = "- 8"])
  have h16: "bnd (c_asin libm_exact ?x15) (217 / 2 ^ 15) (7373 / 2 ^ 20)" (is "bnd ?x16 _ _")
    by (rule bnd_asin [OF h15, where n = 4])
      (simp_all add: enc round_double_eq [where e = "- 8"])
  show ?thesis
    unfolding SunDeclinationRad_def Let_def sind_def ApparentLongitudeSunEx_def TrueLongitudeSun_def
    by (rule h16)
qed

lemma cosHA_bound_set:
  assumes a1: "bnd LAT (840972315 / 2 ^ 29) (210243079 / 2 ^ 27)"
    and a2: "bnd D (217 / 2 ^ 15) (7373 / 2 ^ 20)"
    and a3: "bnd ANG (3373259425 / 2 ^ 31) (3373259429 / 2 ^ 31)"
  shows "bnd (cosHA libm_exact LAT D ANG) (- (433225709 / 2 ^ 28)) (- (3219187259 / 2 ^ 31))"
proof -
  have h1: "bnd (c_cos libm_exact ANG) (- (2507801805 / 2 ^ 48)) (238420727 / 2 ^ 54)" (is "bnd ?x1 _ _")
    by (rule cos_angle_bound [OF a3])
  have h2: "bnd (c_sin libm_exact LAT) (4294810527 / 2 ^ 32) 1" (is "bnd ?x2 _ _")
    by (rule sin_latitude_bound [OF a1])
  have h3: "bnd (c_cos libm_exact LAT) (1199376859 / 2 ^ 38) (303522243 / 2 ^ 36)" (is "bnd ?x3 _ _")
    by (rule cos_latitude_bound [OF a1])
  have h4: "bnd (c_sin libm_exact D) (910025609 / 2 ^ 37) (1932773139 / 2 ^ 38)" (is "bnd ?x4 _ _")
    by (rule bnd_sin [OF a2, where m = "(3579 / 2 ^ 19)" and w = "(215 / 2 ^ 20)" and n = 2])
      (simp_all add: enc round_double_eq [where e = "- 8"])
  have h5: "bnd (c_cos libm_exact D) (4293986583 / 2 ^ 32) 1" (is "bnd ?x5 _ _")
    by (rule bnd_cos [OF a2, where m = "(3579 / 2 ^ 19)" and w = "(215 / 2 ^ 20)" and n = 2])
      (simp_all add: enc round_double_eq [where e = "- 1"] round_double_eq [where e = 0])
  have h6: "bnd (?x2 * ?x4) (3639969569 / 2 ^ 39) (1932773139 / 2 ^ 38)" (is "bnd ?x6 _ _")
    by (rule bnd_mul [OF h2 h4]) (simp_all add: enc round_double_eq [where e = "- 8"])
  have h7: "bnd (?x1 - ?x6) (- (3870444329 / 2 ^ 39)) (- (909990573 / 2 ^ 37))" (is "bnd ?x7 _ _")
    by (rule bnd_sub [OF h1 h6]) (simp_all add: enc round_double_eq [where e = "- 8"])
  have h8: "bnd (?x3 * ?x5) (1199102993 / 2 ^ 38) (303522243 / 2 ^ 36)" (is "bnd ?x8 _ _")
    by (rule bnd_mul [OF h3 h5]) (simp_all add: enc round_double_eq [where e = "- 8"])
  have h9: "bnd (?x7 / ?x8) (- (433225709 / 2 ^ 28)) (- (3219187259 / 2 ^ 31))" (is "bnd ?x9 _ _")
    by (rule bnd_div [OF h7 h8]) (simp_all add: enc round_double_eq [where e = 0])
  show ?thesis
    unfolding cosHA_def
    by (rule h9)
qed

lemma equinox_enclosures:
  shows "bnd (UTCForSolarAngle libm_exact 1 (lit 2451258.75) (lit 89.75) (lit 90.0)) (- (398214899 / 2 ^ 21)) (3051434245 / 2 ^ 22)"
    and "bnd (cosHA libm_exact (DEG2RAD (lit 89.75))
       (SunDeclinationRad libm_exact (JulianCenturyFromJulianDay
          (lit 2451258.75 + UTCForSolarAngleAux libm_exact 0 (lit 2451258.75) (DEG2RAD (lit 89.75)) (DEG2RAD (lit 90.0)) /
             MIN_PER_DAY)))
       (DEG2RAD (lit 90.0))) (- (433225709 / 2 ^ 28)) (- (3219187259 / 2 ^ 31))"
proof -
  have h1: "bnd ((lit 2451258.75) - JAN_1_2000_JD) (- (1145 / 2 ^ 2)) (- (1145 / 2 ^ 2))" (is "bnd ?x1 _ _")
    by (rule bnd_sub [OF lit_2451258_75 bnd_JAN_1_2000_JD]) (simp_all add: enc round_double_eq [where e = 8])
  have h2: "bnd (?x1 / DAYS_IN_CENTURY) (- (1077122531 / 2 ^ 37)) (- (2154245061 / 2 ^ 38))" (is "bnd ?x2 _ _")
    by (rule bnd_div [OF h1 bnd_DAYS_IN_CENTURY]) (simp_all add: enc round_double_eq [where e = "- 7"])
  have h3: "bnd ((lit 89.75) * DEGRAD) (840972315 / 2 ^ 29) (210243079 / 2 ^ 27)" (is "bnd ?x3 _ _")
    by (rule bnd_mul [OF lit_89_75 bnd_DEGRAD]) (simp_all add: enc round_double_eq [where e = 0])
  have h4: "bnd ((lit 90.0) * DEGRAD) (3373259425 / 2 ^ 31) (3373259429 / 2 ^ 31)" (is "bnd ?x4 _ _")
    by (rule bnd_mul [OF lit_90_0 bnd_DEGRAD]) (simp_all add: enc round_double_eq [where e = 0])
  have h5: "bnd (SunDeclinationRad libm_exact ?x2) (613 / 2 ^ 19) (1549 / 2 ^ 20)" (is "bnd ?x5 _ _")
    by (rule SunDeclinationRad_bound_first [OF h2])
  have h6: "bnd (cosHA libm_exact ?x3 ?x5 ?x4) (- (1464040769 / 2 ^ 32)) (- (2273781989 / 2 ^ 33))" (is "bnd ?x6 _ _")
    by (rule cosHA_bound_first [OF h3 h5 h4])
  have h7: "bnd (c_acos libm_exact ?x6) (120499 / 2 ^ 16) (62871 / 2 ^ 15)" (is "bnd ?x7 _ _")
    by (rule bnd_acos [OF h6, where n = 9])
      (simp_all add: enc round_double_eq [where e = 0])
  have h8: "bnd ?x2 (- (1077122531 / 2 ^ 37)) (- (1073359657 / 2 ^ 37))"
    by (rule bnd_weaken [OF h2]) simp_all
  have h9: "bnd (EquationOfTime libm_exact ?x2) (- (4036526649 / 2 ^ 29)) (- (14362999 / 2 ^ 21))" (is "bnd ?x9 _ _")
    by (rule EquationOfTime_bound [OF h8])
  have h10: "bnd (?x7 * RADEG) (883722769 / 2 ^ 23) (1844348393 / 2 ^ 24)" (is "bnd ?x10 _ _")
    by (rule bnd_mul [OF h7 bnd_RADEG]) (simp_all add: enc round_double_eq [where e = 6])
  have h11: "bnd ((lit 4.0) * ?x10) (883722769 / 2 ^ 21) (1844348393 / 2 ^ 22)" (is "bnd ?x11 _ _")
    by (rule bnd_mul [OF lit_4_0 h10]) (simp_all add: enc round_double_eq [where e = 8])
  have h12: "bnd ((lit 720.0) - ?x11) (1175550487 / 2 ^ 22) (626226671 / 2 ^ 21)" (is "bnd ?x12 _ _")
    by (rule bnd_sub [OF lit_720_0 h11]) (simp_all add: enc round_double_eq [where e = 8])
  have h13: "bnd (?x12 - ?x9) (1204276485 / 2 ^ 22) (2567977413 / 2 ^ 23)" (is "bnd ?x13 _ _")
    by (rule bnd_sub [OF h12 h9]) (simp_all add: enc round_double_eq [where e = 8])
  have h14: "bnd (- ?x7) (- (62871 / 2 ^ 15)) (- (120499 / 2 ^ 16))" (is "bnd ?x14 _ _")
    using bnd_neg [OF h7] by simp
  have h15: "bnd (?x14 * RADEG) (- (1844348393 / 2 ^ 24)) (- (883722769 / 2 ^ 23))" (is "bnd ?x15 _ _")
    by (rule bnd_mul [OF h14 bnd_RADEG]) (simp_all add: enc round_double_eq [where e = 6])
  have h16: "bnd ((lit 4.0) * ?x15) (- (1844348393 / 2 ^ 22)) (- (883722769 / 2 ^ 21))" (is "bnd ?x16 _ _")
    by (rule bnd_mul [OF lit_4_0 h15]) (simp_all add: enc round_double_eq [where e = 8])
  have h17: "bnd ((lit 720.0) - ?x16) (2393672209 / 2 ^ 21) (2432123637 / 2 ^ 21)" (is "bnd ?x17 _ _")
    by (rule bnd_sub [OF lit_720_0 h16]) (simp_all add: enc round_double_eq [where e = 10])
  have h18: "bnd (?x17 - ?x9) (301004401 / 2 ^ 18) (305986415 / 2 ^ 18)" (is "bnd ?x18 _ _")
    by (rule bnd_sub [OF h17 h9]) (simp_all add: enc round_double_eq [where e = 10])
  have h19: "bnd (?x13 / MIN_PER_DAY) (3425497557 / 2 ^ 34) (3652234543 / 2 ^ 34)" (is "bnd ?x19 _ _")
    by (rule bnd_div [OF h13 bnd_MIN_PER_DAY]) (simp_all add: enc round_double_eq [where e = "- 3"])
  have h20: "bnd ((lit 2451258.75) + ?x19) (627522291 / 2 ^ 8) (1255044589 / 2 ^ 9)" (is "bnd ?x20 _ _")
    by (rule bnd_add [OF lit_2451258_75 h19]) (simp_all add: enc round_double_eq [where e = 21])
  have h21: "bnd (?x18 / MIN_PER_DAY) (107023787 / 2 ^ 27) (3481445433 / 2 ^ 32)" (is "bnd ?x21 _ _")
    by (rule bnd_div [OF h18 bnd_MIN_PER_DAY]) (simp_all add: enc round_double_eq [where e = "- 1"])
  have h22: "bnd ((lit 2451258.75) + ?x21) (156880611 / 2 ^ 6) (2510089791 / 2 ^ 10)" (is "bnd ?x22 _ _")
    by (rule bnd_add [OF lit_2451258_75 h21]) (simp_all add: enc round_double_eq [where e = 21])
  have h23: "bnd (?x20 - JAN_1_2000_JD) (- (73229 / 2 ^ 8)) (- (146451 / 2 ^ 9))" (is "bnd ?x23 _ _")
    by (rule bnd_sub [OF h20 bnd_JAN_1_2000_JD]) (simp_all add: enc round_double_eq [where e = 8])
  have h24: "bnd (?x23 / DAYS_IN_CENTURY) (- (33636653 / 2 ^ 32)) (- (538160725 / 2 ^ 36))" (is "bnd ?x24 _ _")
    by (rule bnd_div [OF h23 bnd_DAYS_IN_CENTURY]) (simp_all add: enc round_double_eq [where e = "- 7"])
  have h25: "bnd (SunDeclinationRad libm_exact ?x24) (83 / 2 ^ 15) (1539 / 2 ^ 19)" (is "bnd ?x25 _ _")
    by (rule SunDeclinationRad_bound_rise [OF h24])
  have h26: "bnd (cosHA libm_exact ?x3 ?x25 ?x4) (- (1449397225 / 2 ^ 31)) (- (1231483615 / 2 ^ 31))" (is "bnd ?x26 _ _")
    by (rule cosHA_bound_rise [OF h3 h25 h4])
  have h27: "bnd (?x22 - JAN_1_2000_JD) (- (18269 / 2 ^ 6)) (- (292289 / 2 ^ 10))" (is "bnd ?x27 _ _")
    by (rule bnd_sub [OF h22 bnd_JAN_1_2000_JD]) (simp_all add: enc round_double_eq [where e = 8])
  have h28: "bnd (?x27 / DAYS_IN_CENTURY) (- (1074123991 / 2 ^ 37)) (- (2148137741 / 2 ^ 38))" (is "bnd ?x28 _ _")
    by (rule bnd_div [OF h27 bnd_DAYS_IN_CENTURY]) (simp_all add: enc round_double_eq [where e = "- 7"])
  have h29: "bnd (SunDeclinationRad libm_exact ?x28) (217 / 2 ^ 15) (7373 / 2 ^ 20)" (is "bnd ?x29 _ _")
    by (rule SunDeclinationRad_bound_set [OF h28])
  have h30: "bnd (cosHA libm_exact ?x3 ?x29 ?x4) (- (433225709 / 2 ^ 28)) (- (3219187259 / 2 ^ 31))" (is "bnd ?x30 _ _")
    by (rule cosHA_bound_set [OF h3 h29 h4])
  have h31: "bnd (c_acos libm_exact ?x26) 0 4" (is "bnd ?x31 _ _")
    by (rule bnd_acos_crude [OF h26]) simp_all
  have h32: "bnd ?x24 (- (1077122531 / 2 ^ 37)) (- (1073359657 / 2 ^ 37))"
    by (rule bnd_weaken [OF h24]) simp_all
  have h33: "bnd (EquationOfTime libm_exact ?x24) (- (4036526649 / 2 ^ 29)) (- (14362999 / 2 ^ 21))" (is "bnd ?x33 _ _")
    by (rule EquationOfTime_bound [OF h32])
  have h34: "bnd (?x31 * RADEG) 0 (961263669 / 2 ^ 22)" (is "bnd ?x34 _ _")
    by (rule bnd_mul [OF h31 bnd_RADEG]) (simp_all add: enc round_double_eq [where e = 7])
  have h35: "bnd ((lit 4.0) * ?x34) 0 (961263669 / 2 ^ 20)" (is "bnd ?x35 _ _")
    by (rule bnd_mul [OF lit_4_0 h34]) (simp_all add: enc round_double_eq [where e = 9])
  have h36: "bnd ((lit 720.0) - ?x35) (- (206288949 / 2 ^ 20)) 720" (is "bnd ?x36 _ _")
    by (rule bnd_sub [OF lit_720_0 h35]) (simp_all add: enc round_double_eq [where e = 7] round_double_eq [where e = 9])
  have h37: "bnd (?x36 - ?x33) (- (398214899 / 2 ^ 21)) (3051434245 / 2 ^ 22)" (is "bnd ?x37 _ _")
    by (rule bnd_sub [OF h36 h33]) (simp_all add: enc round_double_eq [where e = 7] round_double_eq [where e = 9])
  show "bnd (UTCForSolarAngle libm_exact 1 (lit 2451258.75) (lit 89.75) (lit 90.0)) (- (398214899 / 2 ^ 21)) (3051434245 / 2 ^ 22)"
    unfolding UTCForSolarAngle_unfold UTCForSolarAngleAux_rise UTCForSolarAngleAux_set JulianCenturyFromJulianDay_def DEG2RAD_def RAD2DEG_def LocalHourAngleSunRad_def
    by (rule h37)
  show "bnd (cosHA libm_exact (DEG2RAD (lit 89.75))
       (SunDeclinationRad libm_exact (JulianCenturyFromJulianDay
          (lit 2451258.75 + UTCForSolarAngleAux libm_exact 0 (lit 2451258.75) (DEG2RAD (lit 89.75)) (DEG2RAD (lit 90.0)) /
             MIN_PER_DAY)))
       (DEG2RAD (lit 90.0))) (- (433225709 / 2 ^ 28)) (- (3219187259 / 2 ^ 31))"
    unfolding UTCForSolarAngle_unfold UTCForSolarAngleAux_rise UTCForSolarAngleAux_set JulianCenturyFromJulianDay_def DEG2RAD_def RAD2DEG_def LocalHourAngleSunRad_def
    by (rule h30)
qed

lemma sin_latitude_bound_2:
  assumes a1: "bnd X (3371385391 / 2 ^ 31) (842846349 / 2 ^ 29)"
  shows "bnd (c_sin libm_exact X) (4294933555 / 2 ^ 32) 1"
proof -
  have h1: "bnd (c_sin libm_exact X) (4294933555 / 2 ^ 32) 1" (is "bnd ?x1 _ _")
    by (rule bnd_sin [OF a1, where m = "(102887 / 2 ^ 16)" and w = "(15825 / 2 ^ 31)" and n = 6])
      (simp_all add: enc round_double_eq [where e = "- 1"] round_double_eq [where e = 0])
  show ?thesis
    by (rule h1)
qed

lemma cos_latitude_bound_2:
  assumes a1: "bnd X (3371385391 / 2 ^ 31) (842846349 / 2 ^ 29)"
  shows "bnd (c_cos libm_exact X) (943300997 / 2 ^ 40) (1919039467 / 2 ^ 41)"
proof -
  have h1: "bnd (c_cos libm_exact X) (943300997 / 2 ^ 40) (1919039467 / 2 ^ 41)" (is "bnd ?x1 _ _")
    by (rule bnd_cos [OF a1, where m = "(102887 / 2 ^ 16)" and w = "(15825 / 2 ^ 31)" and n = 7])
      (simp_all add: enc round_double_eq [where e = "- 11"])
  show ?thesis
    by (rule h1)
qed

lemma GeometricMeanLongitudeSun_bound_2:
  assumes a1: "bnd T (- (1077122531 / 2 ^ 37)) (- (2154245061 / 2 ^ 38))"
  shows "bnd (GeometricMeanLongitudeSun T) (- (14051733 / 2 ^ 23)) (- (878233 / 2 ^ 19))"
proof -
  have h1: "bnd (T * (lit 0.0003032)) (- (1337686227 / 2 ^ 49)) (- (2675372451 / 2 ^ 50))" (is "bnd ?x1 _ _")
    by (rule bnd_mul [OF a1 lit_0_0003032]) (simp_all add: enc round_double_eq [where e = "- 19"])
  have h2: "bnd ((lit 36000.76983) + ?x1) (1179673225 / 2 ^ 15) (589836613 / 2 ^ 14)" (is "bnd ?x2 _ _")
    by (rule bnd_add [OF lit_36000_76983 h1]) (simp_all add: enc round_double_eq [where e = 15])
  have h3: "bnd (T * ?x2) (- (2366774923 / 2 ^ 23)) (- (2366774919 / 2 ^ 23))" (is "bnd ?x3 _ _")
    by (rule bnd_mul [OF a1 h2]) (simp_all add: enc round_double_eq [where e = 8])
  have h4: "bnd ((lit 280.46646) + ?x3) (- (14051733 / 2 ^ 23)) (- (878233 / 2 ^ 19))" (is "bnd ?x4 _ _")
    by (rule bnd_add [OF lit_280_46646 h3]) (simp_all add: enc round_double_eq [where e = 0])
  show ?thesis
    unfolding GeometricMeanLongitudeSun_def
    by (rule h4)
qed

lemma SunDeclinationRad_bound_2:
  assumes a1: "bnd T (- (1077122531 / 2 ^ 37)) (- (2154245061 / 2 ^ 38))"
  shows "bnd (SunDeclinationRad libm_exact T) (613 / 2 ^ 19) (1549 / 2 ^ 20)"
proof -
  have h1: "bnd T (- (1077122531 / 2 ^ 37)) (- (1073359657 / 2 ^ 37))"
    by (rule bnd_weaken [OF a1]) simp_all
  have h2: "bnd (OmegaRad T) (2626364679 / 2 ^ 30) (2627357055 / 2 ^ 30)" (is "bnd ?x2 _ _")
    by (rule OmegaRad_bound [OF h1])
  have h3: "bnd (ObliquityCorrectionEx libm_exact T (OmegaRad T)) (3145638431 / 2 ^ 27) (786581419 / 2 ^ 25)" (is "bnd ?x3 _ _")
    by (rule ObliquityCorrectionEx_bound [OF h1])
  have h4: "bnd (GeometricMeanLongitudeSun T) (- (14051733 / 2 ^ 23)) (- (878233 / 2 ^ 19))" (is "bnd ?x4 _ _")
    by (rule GeometricMeanLongitudeSun_bound_2 [OF a1])
  have h5: "bnd (EquationOfCenterSun libm_exact T) (1985592415 / 2 ^ 30) (4044735057 / 2 ^ 31)" (is "bnd ?x5 _ _")
    by (rule EquationOfCenterSun_bound [OF h1])
  have h6: "bnd (?x4 + ?x5) (186970591 / 2 ^ 30) (447492689 / 2 ^ 31)" (is "bnd ?x6 _ _")
    by (rule bnd_add [OF h4 h5]) (simp_all add: enc round_double_eq [where e = "- 3"])
  have h7: "bnd (?x6 - (lit 0.000569)) (1490877055 / 2 ^ 33) (3570166167 / 2 ^ 34)" (is "bnd ?x7 _ _")
    by (rule bnd_sub [OF h6 lit_0_000569]) (simp_all add: enc round_double_eq [where e = "- 3"])
  have h8: "bnd (c_sin libm_exact ?x2) (- 1) 1" (is "bnd ?x8 _ _")
    by (rule bnd_sin_crude [OF h2])
  have h9: "bnd ((lit 0.00478) * ?x8) (- (2627832791 / 2 ^ 39)) (2627832791 / 2 ^ 39)" (is "bnd ?x9 _ _")
    by (rule bnd_mul [OF lit_0_00478 h8]) (simp_all add: enc round_double_eq [where e = "- 8"])
  have h10: "bnd (?x7 - ?x9) (2899634335 / 2 ^ 34) (1826142971 / 2 ^ 33)" (is "bnd ?x10 _ _")
    by (rule bnd_sub [OF h7 h9]) (simp_all add: enc round_double_eq [where e = "- 3"])
  have h11: "bnd (?x3 * DEGRAD) (3513711851 / 2 ^ 33) (3514479515 / 2 ^ 33)" (is "bnd ?x11 _ _")
    by (rule bnd_mul [OF h3 bnd_DEGRAD]) (simp_all add: enc round_double_eq [where e = "- 2"])
  have h12: "bnd (c_sin libm_exact ?x11) (1708246417 / 2 ^ 32) (854418519 / 2 ^ 31)" (is "bnd ?x12 _ _")
    by (rule bnd_sin [OF h11, where m = "(6703 / 2 ^ 14)" and w = "(590613 / 2 ^ 33)" and n = 4])
      (simp_all add: enc round_double_eq [where e = "- 2"])
  have h13: "bnd (?x10 * DEGRAD) (3238922639 / 2 ^ 40) (4079642557 / 2 ^ 40)" (is "bnd ?x13 _ _")
    by (rule bnd_mul [OF h10 bnd_DEGRAD]) (simp_all add: enc round_double_eq [where e = "- 9"])
  have h14: "bnd (c_sin libm_exact ?x13) (1617608437 / 2 ^ 39) (2039824651 / 2 ^ 39)" (is "bnd ?x14 _ _")
    by (rule bnd_sin [OF h13, where m = "(109 / 2 ^ 15)" and w = "(422209469 / 2 ^ 40)" and n = 1])
      (simp_all add: enc round_double_eq [where e = "- 9"])
  have h15: "bnd (?x12 * ?x14) (2573499285 / 2 ^ 41) (405792137 / 2 ^ 38)" (is "bnd ?x15 _ _")
    by (rule bnd_mul [OF h12 h14]) (simp_all add: enc round_double_eq [where e = "- 10"])
  have h16: "bnd (c_asin libm_exact ?x15) (613 / 2 ^ 19) (1549 / 2 ^ 20)" (is "bnd ?x16 _ _")
    by (rule bnd_asin [OF h15, where n = 4])
      (simp_all add: enc round_double_eq [where e = "- 10"])
  show ?thesis
    unfolding SunDeclinationRad_def Let_def sind_def ApparentLongitudeSunEx_def TrueLongitudeSun_def
    by (rule h16)
qed

lemma cosHA_bound_2:
  assumes a1: "bnd LAT (3371385391 / 2 ^ 31) (842846349 / 2 ^ 29)"
    and a2: "bnd D (613 / 2 ^ 19) (1549 / 2 ^ 20)"
    and a3: "bnd ANG (3373259425 / 2 ^ 31) (3373259429 / 2 ^ 31)"
  shows "bnd (cosHA libm_exact LAT D ANG) (- (3722961439 / 2 ^ 31)) (- (359639909 / 2 ^ 28))"
proof -
  have h1: "bnd (c_cos libm_exact ANG) (- (2507801805 / 2 ^ 48)) (238420727 / 2 ^ 54)" (is "bnd ?x1 _ _")
    by (rule cos_angle_bound [OF a3])
  have h2: "bnd (c_sin libm_exact LAT) (4294933555 / 2 ^ 32) 1" (is "bnd ?x2 _ _")
    by (rule sin_latitude_bound_2 [OF a1])
  have h3: "bnd (c_cos libm_exact LAT) (943300997 / 2 ^ 40) (1919039467 / 2 ^ 41)" (is "bnd ?x3 _ _")
    by (rule cos_latitude_bound_2 [OF a1])
  have h4: "bnd (c_sin libm_exact D) (2571107501 / 2 ^ 41) (3250586451 / 2 ^ 41)" (is "bnd ?x4 _ _")
    by (rule bnd_sin [OF a2, where m = "(347 / 2 ^ 18)" and w = "(81 / 2 ^ 19)" and n = 1])
      (simp_all add: enc round_double_eq [where e = "- 10"])
  have h5: "bnd (c_cos libm_exact D) (4294299981 / 2 ^ 32) 1" (is "bnd ?x5 _ _")
    by (rule bnd_cos [OF a2, where m = "(347 / 2 ^ 18)" and w = "(81 / 2 ^ 19)" and n = 2])
      (simp_all add: enc round_double_eq [where e = "- 1"] round_double_eq [where e = 0])
  have h6: "bnd (?x2 * ?x4) (1285543651 / 2 ^ 40) (3250586451 / 2 ^ 41)" (is "bnd ?x6 _ _")
    by (rule bnd_mul [OF h2 h4]) (simp_all add: enc round_double_eq [where e = "- 10"])
  have h7: "bnd (?x1 - ?x6) (- (3270178653 / 2 ^ 41)) (- (2571058197 / 2 ^ 41))" (is "bnd ?x7 _ _")
    by (rule bnd_sub [OF h1 h6]) (simp_all add: enc round_double_eq [where e = "- 10"])
  have h8: "bnd (?x3 * ?x5) (943154435 / 2 ^ 40) (1919039467 / 2 ^ 41)" (is "bnd ?x8 _ _")
    by (rule bnd_mul [OF h3 h5]) (simp_all add: enc round_double_eq [where e = "- 11"])
  have h9: "bnd (?x7 / ?x8) (- (3722961439 / 2 ^ 31)) (- (359639909 / 2 ^ 28))" (is "bnd ?x9 _ _")
    by (rule bnd_div [OF h7 h8]) (simp_all add: enc round_double_eq [where e = 0])
  show ?thesis
    unfolding cosHA_def
    by (rule h9)
qed

lemma equinox_enclosure_first_pass:
  shows "bnd (cosHA libm_exact (DEG2RAD (lit 89.95))
       (SunDeclinationRad libm_exact (JulianCenturyFromJulianDay (lit 2451258.75)))
       (DEG2RAD (lit 90.0))) (- (3722961439 / 2 ^ 31)) (- (359639909 / 2 ^ 28))"
proof -
  have h1: "bnd ((lit 2451258.75) - JAN_1_2000_JD) (- (1145 / 2 ^ 2)) (- (1145 / 2 ^ 2))" (is "bnd ?x1 _ _")
    by (rule bnd_sub [OF lit_2451258_75 bnd_JAN_1_2000_JD]) (simp_all add: enc round_double_eq [where e = 8])
  have h2: "bnd (?x1 / DAYS_IN_CENTURY) (- (1077122531 / 2 ^ 37)) (- (2154245061 / 2 ^ 38))" (is "bnd ?x2 _ _")
    by (rule bnd_div [OF h1 bnd_DAYS_IN_CENTURY]) (simp_all add: enc round_double_eq [where e = "- 7"])
  have h3: "bnd ((lit 89.95) * DEGRAD) (3371385391 / 2 ^ 31) (842846349 / 2 ^ 29)" (is "bnd ?x3 _ _")
    by (rule bnd_mul [OF lit_89_95 bnd_DEGRAD]) (simp_all add: enc round_double_eq [where e = 0])
  have h4: "bnd ((lit 90.0) * DEGRAD) (3373259425 / 2 ^ 31) (3373259429 / 2 ^ 31)" (is "bnd ?x4 _ _")
    by (rule bnd_mul [OF lit_90_0 bnd_DEGRAD]) (simp_all add: enc round_double_eq [where e = 0])
  have h5: "bnd (SunDeclinationRad libm_exact ?x2) (613 / 2 ^ 19) (1549 / 2 ^ 20)" (is "bnd ?x5 _ _")
    by (rule SunDeclinationRad_bound_2 [OF h2])
  have h6: "bnd (cosHA libm_exact ?x3 ?x5 ?x4) (- (3722961439 / 2 ^ 31)) (- (359639909 / 2 ^ 28))" (is "bnd ?x6 _ _")
    by (rule cosHA_bound_2 [OF h3 h5 h4])
  show "bnd (cosHA libm_exact (DEG2RAD (lit 89.95))
       (SunDeclinationRad libm_exact (JulianCenturyFromJulianDay (lit 2451258.75)))
       (DEG2RAD (lit 90.0))) (- (3722961439 / 2 ^ 31)) (- (359639909 / 2 ^ 28))"
    unfolding JulianCenturyFromJulianDay_def DEG2RAD_def
    by (rule h6)
qed

lemma polar_night_enclosure:
  shows "bnd (cosHA libm_exact (lit 1.4) (- lit 0.4) (lit 1.585)) (2534238197 / 2 ^ 30) (316982907 / 2 ^ 27)"
proof -
  have h1: "bnd (- (lit 0.4)) (- (3435973837 / 2 ^ 33)) (- (858993459 / 2 ^ 31))" (is "bnd ?x1 _ _")
    using bnd_neg [OF lit_0_4] by simp
  have h2: "bnd (c_cos libm_exact (lit 1.585)) (- (1958111851 / 2 ^ 37)) (- (1952070051 / 2 ^ 37))" (is "bnd ?x2 _ _")
    by (rule bnd_cos [OF lit_1_585, where m = "(25969 / 2 ^ 14)" and w = "(23593 / 2 ^ 30)" and n = 7])
      (simp_all add: enc round_double_eq [where e = "- 7"])
  have h3: "bnd (c_sin libm_exact (lit 1.4)) (264524201 / 2 ^ 28) (2116298521 / 2 ^ 31)" (is "bnd ?x3 _ _")
    by (rule bnd_sin [OF lit_1_4, where m = "(11469 / 2 ^ 13)" and w = "(52429 / 2 ^ 31)" and n = 6])
      (simp_all add: enc round_double_eq [where e = "- 1"])
  have h4: "bnd (c_cos libm_exact (lit 1.4)) (2919180519 / 2 ^ 34) (730004857 / 2 ^ 32)" (is "bnd ?x4 _ _")
    by (rule bnd_cos [OF lit_1_4, where m = "(11469 / 2 ^ 13)" and w = "(52429 / 2 ^ 31)" and n = 7])
      (simp_all add: enc round_double_eq [where e = "- 3"])
  have h5: "bnd (c_sin libm_exact ?x1) (- (3345480965 / 2 ^ 33)) (- (209066345 / 2 ^ 29))" (is "bnd ?x5 _ _")
    by (rule bnd_sin [OF h1, where m = "(- (3277 / 2 ^ 13))" and w = "(52429 / 2 ^ 31)" and n = 4])
      (simp_all add: enc round_double_eq [where e = "- 2"])
  have h6: "bnd (c_cos libm_exact ?x1) (1977890507 / 2 ^ 31) (3955990871 / 2 ^ 32)" (is "bnd ?x6 _ _")
    by (rule bnd_cos [OF h1, where m = "(- (3277 / 2 ^ 13))" and w = "(52429 / 2 ^ 31)" and n = 4])
      (simp_all add: enc round_double_eq [where e = "- 1"])
  have h7: "bnd (?x3 * ?x5) (- (3296898873 / 2 ^ 33)) (- (3296322099 / 2 ^ 33))" (is "bnd ?x7 _ _")
    by (rule bnd_mul [OF h3 h5]) (simp_all add: enc round_double_eq [where e = "- 2"])
  have h8: "bnd (?x2 - ?x7) (793485027 / 2 ^ 31) (3174894495 / 2 ^ 33)" (is "bnd ?x8 _ _")
    by (rule bnd_sub [OF h2 h7]) (simp_all add: enc round_double_eq [where e = "- 2"])
  have h9: "bnd (?x4 * ?x6) (2688644191 / 2 ^ 34) (2689559525 / 2 ^ 34)" (is "bnd ?x9 _ _")
    by (rule bnd_mul [OF h4 h6]) (simp_all add: enc round_double_eq [where e = "- 3"])
  have h10: "bnd (?x8 / ?x9) (2534238197 / 2 ^ 30) (316982907 / 2 ^ 27)" (is "bnd ?x10 _ _")
    by (rule bnd_div [OF h8 h9]) (simp_all add: enc round_double_eq [where e = 1])
  show "bnd (cosHA libm_exact (lit 1.4) (- lit 0.4) (lit 1.585)) (2534238197 / 2 ^ 30) (316982907 / 2 ^ 27)"
    unfolding cosHA_def
    by (rule h10)
qed

section \<open>No crossing: NaN\<close>

lemma NaN_absorbs [simp]:
  "NaN + x = NaN" "x + NaN = NaN" "NaN - x = NaN" "x - NaN = NaN"
  "NaN * x = NaN" "x * NaN = NaN" "NaN / x = NaN" "x / NaN = NaN" "- NaN = NaN"
  by (cases x; simp add: plus_double_def minus_double_def times_double_def divide_double_def
      uminus_double_def)+

lemma c_acos_outside: "\<not> in_unit_interval c \<Longrightarrow> c_acos L c = NaN"
  by (cases c) (auto simp: in_unit_interval_def lit_def less_eq_double_def rd
      round_double_eq [where e = 0])

lemma EquationOfTime_NaN: "EquationOfTime L NaN = NaN"
  by (simp add: EquationOfTime_def EccentricityEarth_def Let_def DEG2MIN_def RAD2DEG_def)

lemma UTCForSolarAngleAux_NaN_jd: "UTCForSolarAngleAux L rise NaN latitudeRad angleRad = NaN"
  by (simp add: UTCForSolarAngleAux_def JulianCenturyFromJulianDay_def EquationOfTime_NaN
      Let_def)

lemma UTCForSolarAngleAux_NaN_cosine:
  "\<not> in_unit_interval (cosHA L latitudeRad
        (SunDeclinationRad L (JulianCenturyFromJulianDay jd)) angleRad)
   \<Longrightarrow> UTCForSolarAngleAux L rise jd latitudeRad angleRad = NaN"
  by (simp add: UTCForSolarAngleAux_def LocalHourAngleSunRad_def c_acos_outside Let_def
      RAD2DEG_def)

lemma not_in_unit_interval_NaN: "\<not> in_unit_interval NaN"
  by (simp add: in_unit_interval_def less_eq_double_def)

lemma cosHA_NaN_latitude: "cosHA L NaN d a = NaN"
  by (simp add: cosHA_def)

text \<open>
  C5. When the cosine of the hour angle is not in \<open>[-1, 1]\<close>, \<^verbatim>\<open>LocalHourAngleSunRad\<close>
  returns NaN (the guard before \<^verbatim>\<open>acos\<close> is compiled out), and so does
  \<^verbatim>\<open>UTCForSolarAngle\<close>, whether the cosine leaves the interval in the first pass (the NaN
  then goes through the shifted Julian Day of the second pass) or in the second.
\<close>

theorem no_crossing_is_NaN:
  "(\<not> in_unit_interval (cosHA L latitudeRad declinationRad angleRad) \<longrightarrow>
      LocalHourAngleSunRad L latitudeRad declinationRad angleRad = NaN) \<and>
   (\<not> in_unit_interval (cosHA L (DEG2RAD latitude)
         (SunDeclinationRad L (JulianCenturyFromJulianDay jd)) (DEG2RAD angle)) \<longrightarrow>
      UTCForSolarAngleAux L rise jd (DEG2RAD latitude) (DEG2RAD angle) = NaN \<and>
      UTCForSolarAngle L rise jd latitude angle = NaN) \<and>
   (\<not> in_unit_interval (cosHA L (DEG2RAD latitude)
         (SunDeclinationRad L (JulianCenturyFromJulianDay
            (jd + UTCForSolarAngleAux L rise jd (DEG2RAD latitude) (DEG2RAD angle) /
                  MIN_PER_DAY)))
         (DEG2RAD angle)) \<longrightarrow>
      UTCForSolarAngle L rise jd latitude angle = NaN)"
  by (simp add: LocalHourAngleSunRad_def c_acos_outside UTCForSolarAngle_def
      UTCForSolarAngleAux_NaN_cosine UTCForSolarAngleAux_NaN_jd Let_def)

theorem no_crossing_is_NaN_witness:
  "\<not> in_unit_interval (cosHA libm_exact (lit 1.4) (- lit 0.4) (lit 1.585)) \<and>
   LocalHourAngleSunRad libm_exact (lit 1.4) (- lit 0.4) (lit 1.585) = NaN \<and>
   \<not> in_unit_interval (cosHA libm_exact (DEG2RAD (lit 89.95))
         (SunDeclinationRad libm_exact (JulianCenturyFromJulianDay (lit 2451258.75)))
         (DEG2RAD (lit 90.0))) \<and>
   UTCForSolarAngleAux libm_exact 1 (lit 2451258.75) (DEG2RAD (lit 89.95)) (DEG2RAD (lit 90.0)) = NaN \<and>
   UTCForSolarAngle libm_exact 1 (lit 2451258.75) (lit 89.95) (lit 90.0) = NaN \<and>
   \<not> in_unit_interval (cosHA libm_exact (DEG2RAD (lit 89.75))
         (SunDeclinationRad libm_exact (JulianCenturyFromJulianDay
            (lit 2451258.75 +
             UTCForSolarAngleAux libm_exact 0 (lit 2451258.75) (DEG2RAD (lit 89.75))
               (DEG2RAD (lit 90.0)) / MIN_PER_DAY)))
         (DEG2RAD (lit 90.0))) \<and>
   UTCForSolarAngle libm_exact 0 (lit 2451258.75) (lit 89.75) (lit 90.0) = NaN"
proof -
  have a: "\<not> in_unit_interval (cosHA libm_exact (lit 1.4) (- lit 0.4) (lit 1.585))"
    by (rule bnd_above_unit [OF polar_night_enclosure]) simp
  have b: "\<not> in_unit_interval (cosHA libm_exact (DEG2RAD (lit 89.95))
         (SunDeclinationRad libm_exact (JulianCenturyFromJulianDay (lit 2451258.75)))
         (DEG2RAD (lit 90.0)))"
    by (rule bnd_below_unit [OF equinox_enclosure_first_pass]) simp
  have c: "\<not> in_unit_interval (cosHA libm_exact (DEG2RAD (lit 89.75))
         (SunDeclinationRad libm_exact (JulianCenturyFromJulianDay
            (lit 2451258.75 +
             UTCForSolarAngleAux libm_exact 0 (lit 2451258.75) (DEG2RAD (lit 89.75))
               (DEG2RAD (lit 90.0)) / MIN_PER_DAY)))
         (DEG2RAD (lit 90.0)))"
    by (rule bnd_below_unit [OF equinox_enclosures(2)]) simp
  show ?thesis
    using a b c
      no_crossing_is_NaN [of libm_exact "lit 1.4" "- lit 0.4" "lit 1.585" "lit 89.95"
        "lit 2451258.75" "lit 90.0" 1]
      no_crossing_is_NaN [of libm_exact "lit 1.4" "- lit 0.4" "lit 1.585" "lit 89.75"
        "lit 2451258.75" "lit 90.0" 0]
    by blast
qed

section \<open>Rise and set\<close>

lemma bnd_is_finite: "bnd x a b \<Longrightarrow> is_finite x"
  by (auto simp: bnd_def is_finite_def)

lemma acos_bounded_exact: "acos_bounded libm_exact"
proof -
  have "\<bar>arccos r\<bar> \<le> 4" if "- 1 \<le> r" "r \<le> 1" for r :: real
  proof -
    have "0 \<le> arccos r" "arccos r \<le> pi"
      using that by (simp_all add: arccos_lbound arccos_ubound)
    then show ?thesis using pi_less_4 by linarith
  qed
  then show ?thesis by (simp add: acos_bounded_def libm_exact_def)
qed

lemma dneg_dneg: "dneg (dneg x) = x"
  by (cases x) simp_all

lemma minus_minus_double: "x - (- y) = x + y" for x y :: double
  by (simp add: minus_double_def plus_double_def uminus_double_def dneg_dneg)

lemma mult_minus_left_double: "(- x) * y = - (x * y)" for x y :: double
  by (cases x; cases y) (auto simp: times_double_def uminus_double_def round_double_minus dneg_dneg)

lemma mult_minus_right_double: "x * (- y) = - (x * y)" for x y :: double
  by (cases x; cases y) (auto simp: times_double_def uminus_double_def round_double_minus dneg_dneg)

lemma Fin_minus_NaN_iff: "Fin x - E = NaN \<longleftrightarrow> E = NaN"
  by (cases E) (auto simp: minus_double_def round_double_nearest)

lemma hour_angle_finite:
  assumes "acos_bounded L" and "c_acos L c \<noteq> NaN"
  shows "bnd (c_acos L c) (- 4) 4"
proof -
  have m4: "is_double (- 4)"
    by (simp add: enc round_double_eq [where e = 2])
  obtain r where c: "c = Fin r" "- 1 \<le> r" "r \<le> 1"
    using assms(2) by (cases c) (auto split: if_splits)
  have "\<bar>m_acos L r\<bar> \<le> 4"
    using assms(1) c by (simp add: acos_bounded_def)
  then have "bnd (round_double (m_acos L r)) (- 4) 4"
    by (intro bnd_round m4 is_double_4) simp_all
  then show ?thesis using c by simp
qed

lemma first_pass_term_finite:
  assumes "bnd H (- 4) 4"
  shows "is_finite (lit 720.0 - (lit 4.0 * RAD2DEG H))"
proof -
  have h1: "bnd (H * RADEG) (- 256) 256"
    by (rule bnd_mul [OF assms bnd_RADEG]) (simp_all add: enc round_double_eq [where e = 8])
  have h2: "bnd (lit 4.0 * (H * RADEG)) (- 1024) 1024"
    by (rule bnd_mul [OF lit_4_0 h1]) (simp_all add: enc round_double_eq [where e = 10])
  have h3: "bnd (lit 720.0 - lit 4.0 * (H * RADEG)) (- 2048) 2048"
    by (rule bnd_sub [OF lit_720_0 h2]) (simp_all add: enc round_double_eq [where e = 11])
  show ?thesis
    unfolding RAD2DEG_def by (rule bnd_is_finite [OF h3])
qed

lemma first_pass_NaN_iff:
  assumes "acos_bounded L"
  shows "UTCForSolarAngleAux L rise jd latitudeRad angleRad = NaN \<longleftrightarrow>
     LocalHourAngleSunRad L latitudeRad
       (SunDeclinationRad L (JulianCenturyFromJulianDay jd)) angleRad = NaN \<or>
     EquationOfTime L (JulianCenturyFromJulianDay jd) = NaN"
proof -
  define H where "H = LocalHourAngleSunRad L latitudeRad
       (SunDeclinationRad L (JulianCenturyFromJulianDay jd)) angleRad"
  define E where "E = EquationOfTime L (JulianCenturyFromJulianDay jd)"
  define H' where "H' = (if rise = 0 then - H else H)"
  have aux: "UTCForSolarAngleAux L rise jd latitudeRad angleRad = lit 720.0 - (lit 4.0 * RAD2DEG H') - E"
    by (simp add: UTCForSolarAngleAux_def Let_def H_def E_def H'_def)
  show ?thesis
  proof (cases "H = NaN")
    case True
    then have "H' = NaN" by (simp add: H'_def)
    then show ?thesis
      using True by (simp add: aux RAD2DEG_def flip: H_def)
  next
    case False
    then have "bnd H (- 4) 4"
      unfolding H_def LocalHourAngleSunRad_def by (intro hour_angle_finite assms)
    then have "bnd H' (- 4) 4"
      using bnd_neg [of H "- 4" 4] by (simp add: H'_def)
    then have "is_finite (lit 720.0 - (lit 4.0 * RAD2DEG H'))"
      by (rule first_pass_term_finite)
    then obtain x where "lit 720.0 - (lit 4.0 * RAD2DEG H') = Fin x"
      by (auto simp: is_finite_def split: double.splits)
    then show ?thesis
      using False by (simp add: aux Fin_minus_NaN_iff flip: H_def E_def)
  qed
qed

text \<open>
  C2, as claimed: for the same Julian Day, latitude and zenith angle, the times of rise
  and of set returned by \<^verbatim>\<open>UTCForSolarAngle\<close> are NaN together. They are not. Each of the two
  is refined on its own, at the instant of its own first estimate. On 21 March 1999, a few
  hours after the equinox, at latitude 89.75 degrees north and for the zenith angle 90
  degrees, the first pass finds both events; the second pass for the rise still finds a
  crossing, the second pass for the set, half a day later, finds the Sun too high to set:
  the time of rise is a finite number and the time of set is NaN.
\<close>

theorem rise_finite_set_NaN:
  "is_finite (UTCForSolarAngle libm_exact 1 (lit 2451258.75) (lit 89.75) (lit 90.0)) \<and>
   UTCForSolarAngle libm_exact 0 (lit 2451258.75) (lit 89.75) (lit 90.0) = NaN"
proof
  show "is_finite (UTCForSolarAngle libm_exact 1 (lit 2451258.75) (lit 89.75) (lit 90.0))"
    by (rule bnd_is_finite [OF equinox_enclosures(1)])
  have "\<not> in_unit_interval (cosHA libm_exact (DEG2RAD (lit 89.75))
         (SunDeclinationRad libm_exact (JulianCenturyFromJulianDay
            (lit 2451258.75 +
             UTCForSolarAngleAux libm_exact 0 (lit 2451258.75) (DEG2RAD (lit 89.75))
               (DEG2RAD (lit 90.0)) / MIN_PER_DAY)))
         (DEG2RAD (lit 90.0)))"
    by (rule bnd_below_unit [OF equinox_enclosures(2)]) simp
  then show "UTCForSolarAngle libm_exact 0 (lit 2451258.75) (lit 89.75) (lit 90.0) = NaN"
    unfolding UTCForSolarAngle_unfold by (rule UTCForSolarAngleAux_NaN_cosine)
qed

text \<open>
  C2, amended: the symmetry holds for one pass. \<^verbatim>\<open>UTCForSolarAngleAux\<close> returns
  \<open>720 - h - E\<close> for the rise and \<open>720 + h - E\<close> for the set, with the same hour-angle term
  \<open>h = 4 * RAD2DEG H\<close> and the same equation of time \<open>E\<close>, so that the two differ by \<open>h\<close>
  taken twice; the two are NaN together; and when they are NaN, both results of
  \<^verbatim>\<open>UTCForSolarAngle\<close> are NaN. The library's inverse cosine is assumed to stay within 4 in
  magnitude (an angle between 0 and \<open>\<pi>\<close> does).
\<close>

theorem rise_set_first_pass:
  assumes "acos_bounded L"
  shows
   "(let T = JulianCenturyFromJulianDay jd;
         h = lit 4.0 * RAD2DEG (LocalHourAngleSunRad L latitudeRad (SunDeclinationRad L T) angleRad);
         E = EquationOfTime L T
     in UTCForSolarAngleAux L 1 jd latitudeRad angleRad = lit 720.0 - h - E \<and>
        UTCForSolarAngleAux L 0 jd latitudeRad angleRad = lit 720.0 + h - E) \<and>
    (UTCForSolarAngleAux L 1 jd latitudeRad angleRad = NaN \<longleftrightarrow>
     UTCForSolarAngleAux L 0 jd latitudeRad angleRad = NaN) \<and>
    (UTCForSolarAngleAux L 1 jd (DEG2RAD latitude) (DEG2RAD angle) = NaN \<longrightarrow>
       UTCForSolarAngle L 1 jd latitude angle = NaN \<and>
       UTCForSolarAngle L 0 jd latitude angle = NaN)"
proof (intro conjI impI)
  show "let T = JulianCenturyFromJulianDay jd;
         h = lit 4.0 * RAD2DEG (LocalHourAngleSunRad L latitudeRad (SunDeclinationRad L T) angleRad);
         E = EquationOfTime L T
     in UTCForSolarAngleAux L 1 jd latitudeRad angleRad = lit 720.0 - h - E \<and>
        UTCForSolarAngleAux L 0 jd latitudeRad angleRad = lit 720.0 + h - E"
    by (simp add: Let_def UTCForSolarAngleAux_rise UTCForSolarAngleAux_set RAD2DEG_def
        mult_minus_left_double mult_minus_right_double minus_minus_double)
  show together: "UTCForSolarAngleAux L 1 jd latitudeRad angleRad = NaN \<longleftrightarrow>
     UTCForSolarAngleAux L 0 jd latitudeRad angleRad = NaN" for latitudeRad angleRad
    by (simp only: first_pass_NaN_iff [OF assms])
  assume rise: "UTCForSolarAngleAux L 1 jd (DEG2RAD latitude) (DEG2RAD angle) = NaN"
  then have set: "UTCForSolarAngleAux L 0 jd (DEG2RAD latitude) (DEG2RAD angle) = NaN"
    by (simp only: together)
  show "UTCForSolarAngle L 1 jd latitude angle = NaN"
    by (simp add: UTCForSolarAngle_unfold rise UTCForSolarAngleAux_NaN_jd)
  show "UTCForSolarAngle L 0 jd latitude angle = NaN"
    by (simp add: UTCForSolarAngle_unfold set UTCForSolarAngleAux_NaN_jd)
qed

theorem rise_set_first_pass_witness:
  "acos_bounded libm_exact \<and>
   UTCForSolarAngleAux libm_exact 1 (lit 2451258.75) (DEG2RAD (lit 89.95)) (DEG2RAD (lit 90.0)) = NaN \<and>
   UTCForSolarAngleAux libm_exact 0 (lit 2451258.75) (DEG2RAD (lit 89.95)) (DEG2RAD (lit 90.0)) = NaN \<and>
   UTCForSolarAngle libm_exact 1 (lit 2451258.75) (lit 89.95) (lit 90.0) = NaN \<and>
   UTCForSolarAngle libm_exact 0 (lit 2451258.75) (lit 89.95) (lit 90.0) = NaN"
proof -
  have "\<not> in_unit_interval (cosHA libm_exact (DEG2RAD (lit 89.95))
         (SunDeclinationRad libm_exact (JulianCenturyFromJulianDay (lit 2451258.75)))
         (DEG2RAD (lit 90.0)))"
    by (rule bnd_below_unit [OF equinox_enclosure_first_pass]) simp
  then have rise: "UTCForSolarAngleAux libm_exact 1 (lit 2451258.75) (DEG2RAD (lit 89.95))
      (DEG2RAD (lit 90.0)) = NaN"
    by (rule UTCForSolarAngleAux_NaN_cosine)
  show ?thesis
    using rise acos_bounded_exact
      rise_set_first_pass [OF acos_bounded_exact, where jd = "lit 2451258.75"
        and latitudeRad = "DEG2RAD (lit 89.95)" and angleRad = "DEG2RAD (lit 90.0)"
        and latitude = "lit 89.95" and angle = "lit 90.0"]
    by blast
qed

end
